(* ===== verification/Cantil_Prelude.thy ===== *)
theory Cantil_Prelude
  imports Main "HOL-Library.Word"
begin

text \<open>
  Shared vocabulary of the development: bytes, error numbers, results, the
  big- and little-endian integer layouts that several source files use, and
  the generic lemmas on them.  Nothing here models one particular component.

  \<^item> A \<^emph>\<open>byte\<close> is an 8-bit word; a C buffer is a list of bytes.
  \<^item> A C function that returns 0 or a negative errno and fills out-parameters
    becomes a function into \<open>errno + 'a\<close>: \<open>Inl e\<close> is the return value \<open>-e\<close>,
    \<open>Inr x\<close> is success with the out-parameters \<open>x\<close>.
  \<^item> \<open>ok_then\<close> is the idiom "if (rc) return rc;".
\<close>

type_synonym byte = "8 word"

datatype errno =
    EPERM | ENOENT | EIO | EAGAIN | ENOMEM | EACCES | EBUSY | EEXIST | ENODEV
  | EINVAL | ENOSPC | ERANGE | ENOTSUP | ENOTEMPTY | EISDIR | EBADMSG | ETIMEDOUT
  | ECANCELED | EALREADY | EROFS | EADDRINUSE | ELOOP | ENAMETOOLONG | ENOBUFS | EPROTO | EMSGSIZE | ENOTCONN
  | EOther nat

type_synonym 'a res = "errno + 'a"

definition ok_then :: "'e + 'a \<Rightarrow> ('a \<Rightarrow> 'e + 'b) \<Rightarrow> 'e + 'b" where
  "ok_then r f = (case r of Inl e \<Rightarrow> Inl e | Inr x \<Rightarrow> f x)"

fun be_bytes :: "nat \<Rightarrow> nat \<Rightarrow> byte list" where
  "be_bytes 0 v = []"
| "be_bytes (Suc k) v = word_of_nat (v div 256 ^ k) # be_bytes k v"

fun be_nat :: "byte list \<Rightarrow> nat" where
  "be_nat [] = 0"
| "be_nat (b # bs) = unat b * 256 ^ length bs + be_nat bs"

fun le_bytes :: "nat \<Rightarrow> nat \<Rightarrow> byte list" where
  "le_bytes 0 v = []"
| "le_bytes (Suc k) v = word_of_nat v # le_bytes k (v div 256)"

fun le_nat :: "byte list \<Rightarrow> nat" where
  "le_nat [] = 0"
| "le_nat (b # bs) = unat b + 256 * le_nat bs"

definition str_bytes :: "string \<Rightarrow> byte list" where
  "str_bytes s = map of_char s"

text \<open>Decimal numerals, as \<open>%u\<close> and \<open>%0<w>d\<close> print a non-negative number.\<close>

definition digit_char :: "nat \<Rightarrow> char" where
  "digit_char d = char_of (48 + d)"

function dec_str :: "nat \<Rightarrow> string" where
  "dec_str n = (if n < 10 then [] else dec_str (n div 10)) @ [digit_char (n mod 10)]"
  by auto
termination by (relation "measure id") auto

declare dec_str.simps [simp del]

definition dec_pad :: "nat \<Rightarrow> nat \<Rightarrow> string" where
  "dec_pad w n = replicate (w - length (dec_str n)) (digit_char 0) @ dec_str n"

definition dec_val :: "string \<Rightarrow> nat" where
  "dec_val s = foldl (\<lambda>a c. 10 * a + (of_char c - 48)) 0 s"

named_theorems res_simps "rewriting of result values"
named_theorems layout_simps "lengths and round trips of byte layouts"

subsection \<open>Results\<close>

lemma ok_then_Inl [simp]: "ok_then (Inl e) f = Inl e"
  by (simp add: ok_then_def)

lemma ok_then_Inr [simp]: "ok_then (Inr x) f = f x"
  by (simp add: ok_then_def)

lemma ok_then_eq_Inr [res_simps]:
  "ok_then r f = Inr y \<longleftrightarrow> (\<exists>x. r = Inr x \<and> f x = Inr y)"
  by (cases r) auto

lemma ok_then_eq_Inl [res_simps]:
  "ok_then r f = Inl e \<longleftrightarrow> r = Inl e \<or> (\<exists>x. r = Inr x \<and> f x = Inl e)"
  by (cases r) auto

lemma ok_then_split:
  "P (ok_then r f) \<longleftrightarrow> (\<forall>e. r = Inl e \<longrightarrow> P (Inl e)) \<and> (\<forall>x. r = Inr x \<longrightarrow> P (f x))"
  by (cases r) auto

lemma ok_then_cong [fundef_cong]:
  "r = r' \<Longrightarrow> (\<And>x. r' = Inr x \<Longrightarrow> f x = g x) \<Longrightarrow> ok_then r f = ok_then r' g"
  by (cases r') auto

lemma if_Inl_eq_Inr [res_simps]:
  "(if b then Inl e else r) = Inr x \<longleftrightarrow> \<not> b \<and> r = Inr x"
  by simp

subsection \<open>Integers in buffers\<close>

lemma unat_byte_less [simp]: "unat (b :: byte) < 256"
  using unsigned_less [of b, where 'a = nat] by simp

lemma unat_byte_of_nat [simp]: "unat (word_of_nat n :: byte) = n mod 256"
  by (simp add: unat_of_nat)

lemma length_be_bytes [simp, layout_simps]: "length (be_bytes k v) = k"
  by (induction k) auto

lemma length_le_bytes [simp, layout_simps]: "length (le_bytes k v) = k"
  by (induction k arbitrary: v) auto

lemma be_nat_be_bytes [layout_simps]: "be_nat (be_bytes k v) = v mod 256 ^ k"
proof (induction k)
  case (Suc k)
  have "v mod 256 ^ Suc k = 256 ^ k * (v div 256 ^ k mod 256) + v mod 256 ^ k"
    by (metis mod_mult2_eq mult.commute power_Suc)
  with Suc show ?case by simp
qed simp

lemma le_nat_le_bytes [layout_simps]: "le_nat (le_bytes k v) = v mod 256 ^ k"
proof (induction k arbitrary: v)
  case (Suc k)
  have "v mod 256 ^ Suc k = 256 * (v div 256 mod 256 ^ k) + v mod 256"
    by (metis mod_mult2_eq power_Suc)
  with Suc show ?case by simp
qed simp

lemma be_nat_less: "be_nat bs < 256 ^ length bs"
proof (induction bs)
  case (Cons b bs)
  have "unat b * 256 ^ length bs + be_nat bs < (unat b + 1) * 256 ^ length bs"
    using Cons by simp
  also have "\<dots> \<le> 256 * 256 ^ length bs"
    using unat_byte_less [of b] by (intro mult_right_mono) (simp_all only: Suc_eq_plus1 [symmetric] Suc_le_eq zero_le)
  finally show ?case by simp
qed simp

lemma byte_of_nat_256 [simp]: "(word_of_nat (n + 256 * m) :: byte) = word_of_nat n"
  using unat_byte_of_nat [of "n + 256 * m"] unat_byte_of_nat [of n]
  by (metis mod_mult_self2 word_unat_eq_iff)

lemma be_bytes_add: "be_bytes k (a * 256 ^ k + b) = be_bytes k b"
proof -
  have "j \<le> k \<Longrightarrow> be_bytes j (a * 256 ^ k + b) = be_bytes j b" for j
  proof (induction j)
    case (Suc j)
    then have split: "(256 :: nat) ^ k = 256 * 256 ^ (k - Suc j) * 256 ^ j"
      by (metis mult.assoc power_Suc power_add le_add_diff_inverse2 add_Suc_right)
    have "(a * 256 ^ k + b) div 256 ^ j = (b + (256 * (a * 256 ^ (k - Suc j))) * 256 ^ j) div 256 ^ j"
      unfolding split by (simp only: ac_simps)
    also have "\<dots> = b div 256 ^ j + 256 * (a * 256 ^ (k - Suc j))"
      by (subst div_mult_self1) simp_all
    finally have "(word_of_nat ((a * 256 ^ k + b) div 256 ^ j) :: byte) = word_of_nat (b div 256 ^ j)"
      by (simp only: byte_of_nat_256)
    with Suc show ?case by simp
  qed simp
  then show ?thesis by simp
qed

lemma be_bytes_be_nat [layout_simps]: "be_bytes (length bs) (be_nat bs) = bs"
proof (induction bs)
  case (Cons b bs)
  have "(unat b * 256 ^ length bs + be_nat bs) div 256 ^ length bs = unat b"
    using be_nat_less [of bs] by simp
  with Cons show ?case by (simp add: be_bytes_add)
qed simp

lemma le_bytes_le_nat [layout_simps]: "le_bytes (length bs) (le_nat bs) = bs"
proof (induction bs)
  case (Cons b bs)
  have 1: "(unat b + 256 * le_nat bs) div 256 = le_nat bs" by simp
  have 2: "(word_of_nat (unat b + 256 * le_nat bs) :: byte) = b"
    by (simp only: byte_of_nat_256) simp
  from 1 2 Cons show ?case by (simp only: le_nat.simps le_bytes.simps list.size add_Suc_right add_0_right)
qed simp

lemma length_str_bytes [simp]: "length (str_bytes s) = length s"
  by (simp add: str_bytes_def)

subsection \<open>Decimal numerals\<close>

lemma of_char_digit_char [simp]: "d < 10 \<Longrightarrow> of_char (digit_char d) = (48 + d :: nat)"
  by (simp add: digit_char_def)

lemma digit_char_inject [simp]: "c < 10 \<Longrightarrow> d < 10 \<Longrightarrow> digit_char c = digit_char d \<longleftrightarrow> c = d"
  by (metis of_char_digit_char add_left_cancel)

lemma dec_val_snoc: "d < 10 \<Longrightarrow> dec_val (s @ [digit_char d]) = 10 * dec_val s + d"
  by (simp add: dec_val_def)

lemma dec_val_dec_str [simp]: "dec_val (dec_str n) = n"
proof (induction n rule: less_induct)
  case (less n)
  show ?case
  proof (cases "n < 10")
    case True
    then show ?thesis using dec_val_snoc [of n "[]"] by (subst dec_str.simps) (simp add: dec_val_def)
  next
    case False
    then show ?thesis using less by (subst dec_str.simps) (simp add: dec_val_snoc)
  qed
qed

lemma dec_str_inject [simp]: "dec_str m = dec_str n \<longleftrightarrow> m = n"
  by (metis dec_val_dec_str)

lemma dec_str_ne [simp]: "dec_str n \<noteq> []"
  by (subst dec_str.simps) simp

lemma set_dec_str: "c \<in> set (dec_str n) \<Longrightarrow> \<exists>d < 10. c = digit_char d"
proof (induction n rule: less_induct)
  case (less n)
  from less.prems have "c \<in> set ((if n < 10 then [] else dec_str (n div 10)) @ [digit_char (n mod 10)])"
    using dec_str.simps [of n] by simp
  then consider "\<not> n < 10" "c \<in> set (dec_str (n div 10))" | "c = digit_char (n mod 10)"
    by (auto split: if_splits)
  then show ?case
  proof cases
    case 1
    then show ?thesis by (intro less.IH [of "n div 10"]) auto
  next
    case 2
    then show ?thesis by (intro exI [of _ "n mod 10"]) simp
  qed
qed

lemma digit_char_range: "d < 10 \<Longrightarrow> of_char (digit_char d) \<in> {48 ..< 58 :: nat}"
  by simp

lemma not_in_dec_str:
  assumes "of_char c \<notin> {48 ..< 58 :: nat}"
  shows "c \<notin> set (dec_str n)"
  using assms set_dec_str digit_char_range by blast

lemma not_in_dec_pad:
  assumes "of_char c \<notin> {48 ..< 58 :: nat}"
  shows "c \<notin> set (dec_pad w n)"
proof -
  have "c \<noteq> digit_char 0" using digit_char_range [of 0] assms by auto
  with not_in_dec_str [OF assms] show ?thesis by (auto simp: dec_pad_def)
qed

lemma dec_str_no_slash [simp]: "CHR ''/'' \<notin> set (dec_str n)"
  by (rule not_in_dec_str) simp

lemma dec_str_bound: "n < 10 ^ length (dec_str n)"
proof (induction n rule: less_induct)
  case (less n)
  show ?case
  proof (cases "n < 10")
    case False
    with less.IH [of "n div 10"] have "n div 10 < 10 ^ length (dec_str (n div 10))" by simp
    then have "n < 10 * 10 ^ length (dec_str (n div 10))" by (simp add: div_less_iff_less_mult mult.commute)
    with False show ?thesis by (subst dec_str.simps) simp
  qed (subst dec_str.simps, simp)
qed

lemma length_dec_str_le:
  assumes "n < 10 ^ k" and "0 < k"
  shows "length (dec_str n) \<le> k"
  using assms
proof (induction k arbitrary: n)
  case (Suc k)
  show ?case
  proof (cases "n < 10")
    case False
    with Suc.prems have "0 < k" "n div 10 < 10 ^ k"
      by (cases k; simp add: less_mult_imp_div_less)+
    with Suc.IH [of "n div 10"] False show ?thesis by (subst dec_str.simps) simp
  qed (subst dec_str.simps, simp)
qed simp

lemma dec_val_replicate_0: "dec_val (replicate k (digit_char 0) @ s) = dec_val s"
  by (induction k) (simp_all add: dec_val_def)

lemma dec_val_dec_pad [simp]: "dec_val (dec_pad w n) = n"
  by (simp add: dec_pad_def dec_val_replicate_0)

lemma length_dec_pad: "n < 10 ^ w \<Longrightarrow> 0 < w \<Longrightarrow> length (dec_pad w n) = w"
  using length_dec_str_le [of n w] by (simp add: dec_pad_def)

lemma length_dec_pad_ge: "w \<le> length (dec_pad w n)"
  by (simp add: dec_pad_def)

subsection \<open>Lists\<close>

lemma take_drop_middle:
  "i \<le> j \<Longrightarrow> j \<le> length xs \<Longrightarrow> xs = take i xs @ take (j - i) (drop i xs) @ drop j xs"
  by (metis append_take_drop_id drop_drop le_add_diff_inverse2)

lemma drop_append_length [simp]: "drop (length xs) (xs @ ys) = ys"
  by simp

end
