(* ===== verification/Fs.thy ===== *)
theory Fs
  imports Cantil_Prelude "HOL-Library.AList"
begin

text \<open>
  The file-system calls that the firmware makes.  Zephyr's file-system layer and
  littlefs are not part of the repository: they are the parameter \<open>F\<close> of the
  storage operations, a record with one field per call, and what the code relies
  on is the locale \<open>fs_laws\<close>.  At most one file or directory is open at a time in
  the code, so a handle is named by the path it was opened with.

  \<^item> \<open>view s p\<close> is the committed content of path \<open>p\<close>; \<open>mounted s\<close> says that \<open>s\<close> is the state
    of a mounted volume.
  \<^item> \<open>fs_laws\<close> holds in the presence of media errors.  A write becomes visible once
    the file is closed without an error.
  \<^item> \<open>fs_reliable\<close> adds that reading, listing, removing and closing do not fail.

  At the end is an in-memory volume that satisfies both, which the witnesses of
  the storage properties use.
\<close>

datatype fs_type = FS_DIR_ENTRY_FILE | FS_DIR_ENTRY_DIR

datatype node = File "byte list" | Dir

fun node_type :: "node \<Rightarrow> fs_type" where
  "node_type (File c) = FS_DIR_ENTRY_FILE"
| "node_type Dir = FS_DIR_ENTRY_DIR"

text \<open>
  A result \<open>None\<close> of type \<open>errno option\<close> is the return value 0.  \<open>fs_open_w\<close> is
  \<open>fs_open\<close> with \<open>FS_O_WRITE | FS_O_CREATE | FS_O_TRUNC\<close>, \<open>fs_open_r\<close> with \<open>FS_O_READ\<close>.
  \<open>fs_list\<close> is \<open>fs_opendir\<close> with the entries that the calls of \<open>fs_readdir\<close> then
  deliver; removing an entry that was delivered does not change the others.
\<close>

record 'fs fs_api =
  fs_mount :: "'fs \<Rightarrow> errno option \<times> 'fs"
  fs_mkfs :: "'fs \<Rightarrow> errno option \<times> 'fs"
  fs_mkdir :: "string \<Rightarrow> 'fs \<Rightarrow> errno option \<times> 'fs"
  fs_open_w :: "string \<Rightarrow> 'fs \<Rightarrow> errno option \<times> 'fs"
  fs_write :: "string \<Rightarrow> byte list \<Rightarrow> 'fs \<Rightarrow> int \<times> 'fs"
  fs_close :: "string \<Rightarrow> 'fs \<Rightarrow> errno option \<times> 'fs"
  fs_open_r :: "string \<Rightarrow> 'fs \<Rightarrow> errno option"
  fs_read :: "string \<Rightarrow> nat \<Rightarrow> 'fs \<Rightarrow> byte list res"
  fs_stat :: "string \<Rightarrow> 'fs \<Rightarrow> fs_type res"
  fs_unlink :: "string \<Rightarrow> 'fs \<Rightarrow> errno option \<times> 'fs"
  fs_list :: "string \<Rightarrow> 'fs \<Rightarrow> (string \<times> fs_type) list res"
  fs_statvfs :: "'fs \<Rightarrow> (nat \<times> nat) res"

definition name_ok :: "string \<Rightarrow> bool" where
  "name_ok n \<longleftrightarrow> n \<noteq> [] \<and> CHR ''/'' \<notin> set n"

definition child :: "string \<Rightarrow> string \<Rightarrow> string" where
  "child p n = p @ ''/'' @ n"

definition is_file :: "node option \<Rightarrow> bool" where
  "is_file x \<longleftrightarrow> (\<exists>c. x = Some (File c))"

text \<open>\<open>below p q\<close>: the path \<open>q\<close> lies strictly below \<open>p\<close>.\<close>

definition below :: "string \<Rightarrow> string \<Rightarrow> bool" where
  "below p q \<longleftrightarrow> (\<exists>r. q = p @ ''/'' @ r)"

text \<open>
  An in-memory volume: an association list from paths to nodes.  \<open>path_ok m q\<close> says
  that every proper prefix of \<open>q\<close> that ends before a slash is a directory and that
  no component is empty.
\<close>

type_synonym memfs = "(string \<times> node) list"

definition comp_ok :: "memfs \<Rightarrow> string \<Rightarrow> nat \<Rightarrow> bool" where
  "comp_ok m q i \<longleftrightarrow> (q ! i = CHR ''/'' \<longrightarrow>
     map_of m (take i q) = Some Dir \<and> name_ok (takeWhile (\<lambda>c. c \<noteq> CHR ''/'') (drop (i + 1) q)))"

definition path_ok :: "memfs \<Rightarrow> string \<Rightarrow> bool" where
  "path_ok m q \<longleftrightarrow> list_all (comp_ok m q) [1..<length q]"

definition mem_inv :: "memfs \<Rightarrow> bool" where
  "mem_inv m \<longleftrightarrow> distinct (map fst m) \<and> map_of m ''/lfs'' = Some Dir \<and> list_all (path_ok m) (map fst m)"

definition has_under :: "memfs \<Rightarrow> string \<Rightarrow> bool" where
  "has_under m p \<longleftrightarrow> list_ex (\<lambda>q. take (length p + 1) q = p @ ''/'') (map fst m)"

definition mem_mkdir :: "string \<Rightarrow> memfs \<Rightarrow> errno option \<times> memfs" where
  "mem_mkdir p m = (if map_of m p \<noteq> None then (Some EEXIST, m)
     else if \<not> path_ok m p then (Some ENOENT, m) else (None, AList.update p Dir m))"

definition mem_open_w :: "string \<Rightarrow> memfs \<Rightarrow> errno option \<times> memfs" where
  "mem_open_w p m = (if map_of m p = Some Dir then (Some EISDIR, m)
     else if \<not> path_ok m p then (Some ENOENT, m) else (None, AList.update p (File []) m))"

definition mem_write :: "string \<Rightarrow> byte list \<Rightarrow> memfs \<Rightarrow> int \<times> memfs" where
  "mem_write p d m = (case map_of m p of Some (File _) \<Rightarrow> (int (length d), AList.update p (File d) m) | _ \<Rightarrow> (-1, m))"

definition mem_open_r :: "string \<Rightarrow> memfs \<Rightarrow> errno option" where
  "mem_open_r p m = (case map_of m p of None \<Rightarrow> Some ENOENT | Some Dir \<Rightarrow> Some EISDIR | Some (File _) \<Rightarrow> None)"

definition mem_read :: "string \<Rightarrow> nat \<Rightarrow> memfs \<Rightarrow> byte list res" where
  "mem_read p n m = (case map_of m p of Some (File c) \<Rightarrow> Inr (take n c) | _ \<Rightarrow> Inl EIO)"

definition mem_stat :: "string \<Rightarrow> memfs \<Rightarrow> fs_type res" where
  "mem_stat p m = (case map_of m p of None \<Rightarrow> Inl ENOENT | Some x \<Rightarrow> Inr (node_type x))"

definition mem_unlink :: "string \<Rightarrow> memfs \<Rightarrow> errno option \<times> memfs" where
  "mem_unlink p m = (if map_of m p = None then (Some ENOENT, m)
     else if p = ''/lfs'' then (Some EBUSY, m)
     else if has_under m p then (Some ENOTEMPTY, m) else (None, AList.delete p m))"

definition mem_list :: "string \<Rightarrow> memfs \<Rightarrow> (string \<times> fs_type) list res" where
  "mem_list p m = (case map_of m p of None \<Rightarrow> Inl ENOENT | Some (File _) \<Rightarrow> Inl EINVAL
     | Some Dir \<Rightarrow> Inr (map (\<lambda>(q, x). (drop (length p + 1) q, node_type x))
         (filter (\<lambda>(q, x). take (length p + 1) q = p @ ''/'' \<and> name_ok (drop (length p + 1) q)) m)))"

definition mem_api :: "memfs fs_api" where
  "mem_api = \<lparr>fs_mount = \<lambda>m. (None, m), fs_mkfs = \<lambda>m. (None, [(''/lfs'', Dir)]), fs_mkdir = mem_mkdir,
     fs_open_w = mem_open_w, fs_write = mem_write, fs_close = \<lambda>p m. (None, m), fs_open_r = mem_open_r,
     fs_read = mem_read, fs_stat = mem_stat, fs_unlink = mem_unlink, fs_list = mem_list,
     fs_statvfs = \<lambda>m. Inr (16, 4096)\<rparr>"

locale fs_laws =
  fixes F :: "'fs fs_api" and mounted :: "'fs \<Rightarrow> bool" and view :: "'fs \<Rightarrow> string \<Rightarrow> node option"
  assumes root_law: "mounted s \<Longrightarrow> view s ''/lfs'' = Some Dir"
    and path_law: "mounted s \<Longrightarrow> p \<noteq> [] \<Longrightarrow> view s (p @ ''/'' @ rest) \<noteq> None \<Longrightarrow>
      view s p = Some Dir \<and> name_ok (takeWhile (\<lambda>c. c \<noteq> CHR ''/'') rest)"
    and mkdir_law: "mounted s \<Longrightarrow> fs_mkdir F p s = (r, s') \<Longrightarrow> mounted s' \<and>
      (r = None \<longrightarrow> view s p = None \<and> view s' = (view s)(p \<mapsto> Dir)) \<and>
      (r \<noteq> None \<longrightarrow> view s' = view s) \<and> (view s p \<noteq> None \<longrightarrow> r = Some EEXIST)"
    and open_w_law: "mounted s \<Longrightarrow> fs_open_w F p s = (r, s') \<Longrightarrow> mounted s' \<and>
      (r \<noteq> None \<longrightarrow> view s' = view s) \<and>
      (r = None \<longrightarrow> view s p \<noteq> Some Dir \<and> is_file (view s' p) \<and> (\<forall>q. q \<noteq> p \<longrightarrow> view s' q = view s q))"
    and write_law: "mounted s \<Longrightarrow> fs_write F p d s = (k, s') \<Longrightarrow> mounted s' \<and>
      (is_file (view s p) \<longrightarrow> is_file (view s' p)) \<and> (\<forall>q. q \<noteq> p \<longrightarrow> view s' q = view s q)"
    and close_law: "mounted s \<Longrightarrow> fs_close F p s = (r, s') \<Longrightarrow> mounted s' \<and>
      (is_file (view s p) \<longrightarrow> is_file (view s' p)) \<and> (\<forall>q. q \<noteq> p \<longrightarrow> view s' q = view s q)"
    and commit_law: "mounted s \<Longrightarrow> fs_open_w F p s = (None, s1) \<Longrightarrow> fs_write F p d s1 = (int (length d), s2) \<Longrightarrow>
      fs_close F p s2 = (None, s3) \<Longrightarrow> view s3 p = Some (File d)"
    and open_r_law: "mounted s \<Longrightarrow> view s p = None \<Longrightarrow> fs_open_r F p s = Some ENOENT"
    and read_law: "mounted s \<Longrightarrow> fs_open_r F p s = None \<Longrightarrow> fs_read F p m s = Inr d \<Longrightarrow>
      \<exists>c. view s p = Some (File c) \<and> d = take m c"
    and stat_none_law: "mounted s \<Longrightarrow> view s p = None \<Longrightarrow> fs_stat F p s = Inl ENOENT"
    and stat_some_law: "mounted s \<Longrightarrow> fs_stat F p s = Inr t \<Longrightarrow> \<exists>n. view s p = Some n \<and> t = node_type n"
    and unlink_law: "mounted s \<Longrightarrow> fs_unlink F p s = (r, s') \<Longrightarrow> mounted s' \<and>
      (r = None \<longrightarrow> view s' = (view s)(p := None)) \<and> (r \<noteq> None \<longrightarrow> view s' = view s) \<and>
      (view s p = None \<longrightarrow> r = Some ENOENT)"
    and list_none_law: "mounted s \<Longrightarrow> view s p = None \<Longrightarrow> fs_list F p s = Inl ENOENT"
    and list_some_law: "mounted s \<Longrightarrow> fs_list F p s = Inr es \<Longrightarrow> view s p = Some Dir \<and> distinct (map fst es) \<and>
      (\<forall>(n, t) \<in> set es. name_ok n \<and> (\<exists>x. view s (child p n) = Some x \<and> t = node_type x))"

locale fs_reliable = fs_laws +
  assumes close_ok: "mounted s \<Longrightarrow> is_file (view s p) \<Longrightarrow> fst (fs_close F p s) = None"
    and read_ok: "mounted s \<Longrightarrow> view s p = Some (File c) \<Longrightarrow> fs_open_r F p s = None \<and> fs_read F p m s = Inr (take m c)"
    and stat_ok: "mounted s \<Longrightarrow> view s p = Some x \<Longrightarrow> fs_stat F p s = Inr (node_type x)"
    and list_ok: "mounted s \<Longrightarrow> view s p = Some Dir \<Longrightarrow>
      \<exists>es. fs_list F p s = Inr es \<and> (\<forall>n x. name_ok n \<longrightarrow> view s (child p n) = Some x \<longrightarrow> (n, node_type x) \<in> set es)"
    and unlink_ok: "mounted s \<Longrightarrow> view s p \<noteq> None \<Longrightarrow> (\<And>q. below p q \<Longrightarrow> view s q = None) \<Longrightarrow> p \<noteq> ''/lfs'' \<Longrightarrow>
      fst (fs_unlink F p s) = None"


subsection \<open>The in-memory volume satisfies the laws\<close>

lemmas mem_defs = mem_mkdir_def mem_open_w_def mem_write_def mem_open_r_def mem_read_def mem_stat_def
  mem_unlink_def mem_list_def

lemma mem_api_simps [simp]:
  "fs_mkdir mem_api = mem_mkdir" "fs_open_w mem_api = mem_open_w" "fs_write mem_api = mem_write"
  "fs_close mem_api = (\<lambda>p m. (None, m))" "fs_open_r mem_api = mem_open_r" "fs_read mem_api = mem_read"
  "fs_stat mem_api = mem_stat" "fs_unlink mem_api = mem_unlink" "fs_list mem_api = mem_list"
  by (simp_all add: mem_api_def)

lemma map_of_in_keys: "map_of m q \<noteq> None \<longleftrightarrow> q \<in> set (map fst m)"
  by (auto simp: map_of_eq_None_iff)

lemma mem_inv_iff:
  "mem_inv m \<longleftrightarrow> distinct (map fst m) \<and> map_of m ''/lfs'' = Some Dir \<and> (\<forall>q. map_of m q \<noteq> None \<longrightarrow> path_ok m q)"
  unfolding mem_inv_def list_all_iff map_of_in_keys by auto

lemma mem_inv_path: "mem_inv m \<Longrightarrow> map_of m q = Some x \<Longrightarrow> path_ok m q"
  unfolding mem_inv_iff by blast

lemma path_okD:
  assumes "path_ok m (p @ ''/'' @ r)" and "p \<noteq> []"
  shows "map_of m p = Some Dir \<and> name_ok (takeWhile (\<lambda>c. c \<noteq> CHR ''/'') r)"
proof -
  have "length p \<in> set [1..<length (p @ ''/'' @ r)]" using assms(2) by (simp add: Suc_le_eq)
  from bspec [OF assms(1) [unfolded path_ok_def list_all_iff] this] show ?thesis by (simp add: comp_ok_def)
qed

lemma path_ok_mono:
  assumes "path_ok m q" and "\<And>i. 1 \<le> i \<Longrightarrow> i < length q \<Longrightarrow> q ! i = CHR ''/'' \<Longrightarrow>
    map_of m (take i q) = Some Dir \<Longrightarrow> map_of m' (take i q) = Some Dir"
  shows "path_ok m' q"
  using assms by (auto simp: path_ok_def list_all_iff comp_ok_def)

lemma mem_inv_update:
  assumes "mem_inv m" and "path_ok m p" and "map_of m p \<noteq> Some Dir \<or> x = Dir"
    and "p = ''/lfs'' \<longrightarrow> x = Dir"
  shows "mem_inv (AList.update p x m)"
proof -
  have ok: "path_ok (AList.update p x m) q" if "path_ok m q" for q
    using that by (rule path_ok_mono) (use assms(3) in \<open>auto simp: update_conv'\<close>)
  show ?thesis unfolding mem_inv_iff
  proof (intro conjI allI impI)
    show "distinct (map fst (AList.update p x m))"
      using assms(1) by (simp add: mem_inv_iff distinct_update)
    show "map_of (AList.update p x m) ''/lfs'' = Some Dir"
      using assms(1,4) by (simp add: mem_inv_iff update_conv')
    fix q
    assume "map_of (AList.update p x m) q \<noteq> None"
    then have "q = p \<or> map_of m q \<noteq> None" by (simp add: update_conv' split: if_splits)
    with assms(1,2) have "path_ok m q" unfolding mem_inv_iff by blast
    then show "path_ok (AList.update p x m) q" by (rule ok)
  qed
qed

lemma not_root_file: "mem_inv m \<Longrightarrow> map_of m p \<noteq> Some Dir \<Longrightarrow> p \<noteq> ''/lfs''"
  by (auto simp: mem_inv_iff)

lemma under_drop:
  assumes "take (length p + 1) q = p @ ''/''"
  shows "q = child p (drop (length p + 1) q)"
proof -
  have "q = take (length p + 1) q @ drop (length p + 1) q" by simp
  also have "\<dots> = child p (drop (length p + 1) q)" by (simp only: assms child_def append_assoc)
  finally show ?thesis .
qed

lemma has_under_iff: "has_under m p \<longleftrightarrow> (\<exists>q. below p q \<and> map_of m q \<noteq> None)"
proof -
  have "below p q" if "take (length p + 1) q = p @ ''/''" for q
    using under_drop [OF that] unfolding below_def child_def by blast
  then have "take (length p + 1) q = p @ ''/'' \<longleftrightarrow> below p q" for q
    by (auto simp: below_def)
  then show ?thesis unfolding has_under_def list_ex_iff map_of_in_keys by auto
qed

lemma mem_inv_delete:
  assumes "mem_inv m" and "\<not> has_under m p" and "p \<noteq> ''/lfs''"
  shows "mem_inv (AList.delete p m)"
proof -
  have ok: "path_ok (AList.delete p m) q" if "path_ok m q" "map_of m q \<noteq> None" for q
    using that(1)
  proof (rule path_ok_mono)
    fix i
    assume i: "i < length q" "q ! i = CHR ''/''" "map_of m (take i q) = Some Dir"
    then have "below (take i q) q"
      unfolding below_def using id_take_nth_drop [of i q] by (intro exI [of _ "drop (i + 1) q"]) simp
    with assms(2) that(2) have "take i q \<noteq> p" by (auto simp: has_under_iff)
    with i show "map_of (AList.delete p m) (take i q) = Some Dir" by (simp add: delete_conv')
  qed
  show ?thesis unfolding mem_inv_iff
  proof (intro conjI allI impI)
    show "distinct (map fst (AList.delete p m))"
      using assms(1) by (simp add: mem_inv_iff distinct_delete)
    show "map_of (AList.delete p m) ''/lfs'' = Some Dir"
      using assms(1,3) by (simp add: mem_inv_iff delete_conv')
    fix q
    assume "map_of (AList.delete p m) q \<noteq> None"
    then have "map_of m q \<noteq> None" by (simp add: delete_conv' split: if_splits)
    moreover from this assms(1) have "path_ok m q" unfolding mem_inv_iff by blast
    ultimately show "path_ok (AList.delete p m) q" by (intro ok)
  qed
qed

lemma mem_list_props:
  assumes "mem_inv m" and "mem_list p m = Inr es"
  shows "map_of m p = Some Dir" "distinct (map fst es)"
    "(n, t) \<in> set es \<longleftrightarrow> name_ok n \<and> (\<exists>x. map_of m (child p n) = Some x \<and> t = node_type x)"
proof -
  let ?sel = "\<lambda>(q, x). take (length p + 1) q = p @ ''/'' \<and> name_ok (drop (length p + 1) q)"
  from assms(2) show dir: "map_of m p = Some Dir" by (auto simp: mem_list_def split: option.splits node.splits)
  with assms(2) have es: "es = map (\<lambda>(q, x). (drop (length p + 1) q, node_type x)) (filter ?sel m)"
    by (simp add: mem_list_def)
  have d: "distinct (map fst m)" using assms(1) by (simp add: mem_inv_iff)
  have "inj_on (drop (length p + 1)) (fst ` set (filter ?sel m))"
  proof (rule inj_onI)
    fix q q'
    assume "q \<in> fst ` set (filter ?sel m)" "q' \<in> fst ` set (filter ?sel m)"
    then have "take (length p + 1) q = p @ ''/''" "take (length p + 1) q' = p @ ''/''" by auto
    moreover assume "drop (length p + 1) q = drop (length p + 1) q'"
    ultimately show "q = q'" by (metis append_take_drop_id)
  qed
  moreover have "distinct (map fst (filter ?sel m))" using d by (rule distinct_map_filter)
  ultimately have "distinct (map (drop (length p + 1)) (map fst (filter ?sel m)))"
    by (simp add: distinct_map comp_inj_on)
  then show "distinct (map fst es)" by (simp add: es comp_def case_prod_unfold)
  show "(n, t) \<in> set es \<longleftrightarrow> name_ok n \<and> (\<exists>x. map_of m (child p n) = Some x \<and> t = node_type x)"
  proof
    assume "(n, t) \<in> set es"
    then obtain q x where q: "(q, x) \<in> set m" "take (length p + 1) q = p @ ''/''" "name_ok (drop (length p + 1) q)"
      "n = drop (length p + 1) q" "t = node_type x"
      by (auto simp: es)
    then have "map_of m (child p n) = Some x" using under_drop [OF q(2)] d by simp
    with q show "name_ok n \<and> (\<exists>x. map_of m (child p n) = Some x \<and> t = node_type x)" by blast
  next
    assume n: "name_ok n \<and> (\<exists>x. map_of m (child p n) = Some x \<and> t = node_type x)"
    then obtain x where x: "map_of m (child p n) = Some x" "t = node_type x" by blast
    then have "(child p n, x) \<in> set (filter ?sel m)" using n by (auto simp: child_def dest: map_of_SomeD)
    then show "(n, t) \<in> set es" unfolding es using x(2) by (force simp: child_def)
  qed
qed

interpretation mem: fs_laws mem_api mem_inv map_of
proof (unfold_locales, goal_cases)
  case (1 s)
  then show ?case by (simp add: mem_inv_iff)
next
  case (2 s p rest)
  then show ?case using path_okD [of s p rest] unfolding mem_inv_iff by blast
next
  case (3 s p r s')
  then show ?case
    using mem_inv_update [of s p Dir] by (auto simp: mem_mkdir_def update_conv' split: if_splits)
next
  case (4 s p r s')
  then show ?case
    using mem_inv_update [of s p "File []"] not_root_file [of s p]
    by (auto simp: mem_open_w_def update_conv' is_file_def split: if_splits)
next
  case (5 s p d k s')
  then show ?case
    using mem_inv_update [of s p "File d"] not_root_file [of s p]
    by (auto simp: mem_write_def update_conv' is_file_def dest: mem_inv_path split: option.splits node.splits)
next
  case (6 s p r s')
  then show ?case by simp
next
  case (7 s p s1 d s2 s3)
  then show ?case by (auto simp: mem_open_w_def mem_write_def update_conv' split: if_splits)
next
  case (8 s p)
  then show ?case by (simp add: mem_open_r_def)
next
  case (9 s p m d)
  then show ?case by (auto simp: mem_open_r_def mem_read_def split: option.splits node.splits)
next
  case (10 s p)
  then show ?case by (simp add: mem_stat_def)
next
  case (11 s p t)
  then show ?case by (auto simp: mem_stat_def split: option.splits)
next
  case (12 s p r s')
  then show ?case
    using mem_inv_delete [of s p] by (auto simp: mem_unlink_def delete_conv' split: if_splits)
next
  case (13 s p)
  then show ?case by (simp add: mem_list_def)
next
  case (14 s p es)
  then show ?case using mem_list_props [of s p es] by auto
qed

interpretation memr: fs_reliable mem_api mem_inv map_of
proof (unfold_locales, goal_cases)
  case (1 s p)
  then show ?case by simp
next
  case (2 s p c m)
  then show ?case by (simp add: mem_open_r_def mem_read_def)
next
  case (3 s p x)
  then show ?case by (simp add: mem_stat_def)
next
  case (4 s p)
  then obtain es where es: "mem_list p s = Inr es" by (simp add: mem_list_def)
  with mem_list_props(3) [OF 4(1) es] show ?case by auto
next
  case (5 s p)
  then show ?case by (auto simp: mem_unlink_def has_under_iff)
qed

end
