(* ===== verification/Volume.thy ===== *)
theory Volume
  imports Fs
begin

text \<open>
  The volume identity marker, \<open>firmware/src/storage/volume_marker.c\<close>: a 28-byte
  record in \<open>/lfs/volume.bin\<close> that says for which partition and which die a volume
  was created.

  The partition geometry and the build switches are constants of a build, the
  device id comes from the hardware, and \<open>crc32_ieee\<close> is Zephyr's; they are fields of
  the record \<open>board\<close>.  The module's only variable is the cached \<open>volume_state\<close>; together
  with the mounted file system it forms the record \<open>vol\<close>.
\<close>

datatype volume_state = VOLUME_VALID | VOLUME_UNMARKED | VOLUME_MISMATCH

record board =
  partition_off :: "32 word"
  partition_sz :: "32 word"
  board_id :: "byte list"
  crc32_ieee :: "byte list \<Rightarrow> 32 word"
  may_format :: bool
  marker_adopt :: bool

record 'fs vol =
  vfs :: 'fs
  volume_state :: volume_state

record marker =
  magic :: "32 word"
  version :: "16 word"
  reserved :: "16 word"
  partition_offset :: "32 word"
  partition_size :: "32 word"
  device_id :: "byte list"
  crc32 :: "32 word"

definition CANTIL_VOLUME_MAGIC :: "32 word" where "CANTIL_VOLUME_MAGIC = 0x4C544E43"
definition CANTIL_VOLUME_VERSION :: "16 word" where "CANTIL_VOLUME_VERSION = 1"

definition VOLUME_MARKER_PATH :: string where
  "VOLUME_MARKER_PATH = ''/lfs/volume.bin''"

text \<open>The packed little-endian struct as it lies in memory, without and with its CRC.\<close>

definition marker_body :: "marker \<Rightarrow> byte list" where
  "marker_body m = le_bytes 4 (unat (magic m)) @ le_bytes 2 (unat (version m)) @ le_bytes 2 (unat (reserved m))
    @ le_bytes 4 (unat (partition_offset m)) @ le_bytes 4 (unat (partition_size m)) @ device_id m"

definition marker_bytes :: "marker \<Rightarrow> byte list" where
  "marker_bytes m = marker_body m @ le_bytes 4 (unat (crc32 m))"

definition marker_of_bytes :: "byte list \<Rightarrow> marker" where
  "marker_of_bytes bs =
    \<lparr>magic = word_of_nat (le_nat (take 4 bs)), version = word_of_nat (le_nat (take 2 (drop 4 bs))),
     reserved = word_of_nat (le_nat (take 2 (drop 6 bs))),
     partition_offset = word_of_nat (le_nat (take 4 (drop 8 bs))),
     partition_size = word_of_nat (le_nat (take 4 (drop 12 bs))),
     device_id = take 8 (drop 16 bs), crc32 = word_of_nat (le_nat (take 4 (drop 24 bs)))\<rparr>"

definition storage_volume_state_str :: "volume_state \<Rightarrow> string" where
  "storage_volume_state_str st =
    (case st of VOLUME_VALID \<Rightarrow> ''valid'' | VOLUME_UNMARKED \<Rightarrow> ''unmarked'' | VOLUME_MISMATCH \<Rightarrow> ''mismatch'')"

definition marker_fill :: "board \<Rightarrow> marker" where
  "marker_fill b =
    (let m = \<lparr>magic = CANTIL_VOLUME_MAGIC, version = CANTIL_VOLUME_VERSION, reserved = 0,
       partition_offset = partition_off b, partition_size = partition_sz b, device_id = board_id b, crc32 = 0\<rparr>
     in m\<lparr>crc32 := crc32_ieee b (marker_body m)\<rparr>)"

text \<open>The bytes read, at most \<open>sizeof(struct storage_volume_marker)\<close>; their number is \<open>*len\<close>.\<close>

definition marker_read :: "'fs fs_api \<Rightarrow> 'fs \<Rightarrow> byte list res" where
  "marker_read F s =
    (case fs_open_r F VOLUME_MARKER_PATH s of Some e \<Rightarrow> Inl e | None \<Rightarrow> fs_read F VOLUME_MARKER_PATH 28 s)"

definition marker_check :: "'fs fs_api \<Rightarrow> board \<Rightarrow> 'fs \<Rightarrow> volume_state" where
  "marker_check F b s =
    (case marker_read F s of
       Inl e \<Rightarrow> if e = ENOENT then VOLUME_UNMARKED else VOLUME_MISMATCH
     | Inr bs \<Rightarrow>
         if length bs \<noteq> 28 then VOLUME_MISMATCH
         else
           let got = marker_of_bytes bs; want = marker_fill b in
           if crc32_ieee b (take 24 bs) \<noteq> crc32 got then VOLUME_MISMATCH
           else if magic got \<noteq> magic want then VOLUME_MISMATCH
           else if version got > version want then VOLUME_MISMATCH
           else if partition_offset got = partition_offset want \<and> partition_size got = partition_size want
                \<and> device_id got = device_id want
           then VOLUME_VALID else VOLUME_MISMATCH)"

definition storage_volume_verify :: "'fs fs_api \<Rightarrow> board \<Rightarrow> 'fs vol \<Rightarrow> volume_state \<times> 'fs vol" where
  "storage_volume_verify F b v = (let st = marker_check F b (vfs v) in (st, v\<lparr>volume_state := st\<rparr>))"

definition storage_volume_marker_write :: "'fs fs_api \<Rightarrow> board \<Rightarrow> 'fs vol \<Rightarrow> errno option \<times> 'fs vol" where
  "storage_volume_marker_write F b v =
    (case fs_stat F VOLUME_MARKER_PATH (vfs v) of
       Inr _ \<Rightarrow> (Some EEXIST, v)
     | Inl _ \<Rightarrow>
         let m = marker_fill b in
         case fs_open_w F VOLUME_MARKER_PATH (vfs v) of
           (Some e, s) \<Rightarrow> (Some e, v\<lparr>vfs := s\<rparr>)
         | (None, s) \<Rightarrow>
             let (n, s) = fs_write F VOLUME_MARKER_PATH (marker_bytes m) s;
                 (_, s) = fs_close F VOLUME_MARKER_PATH s
             in if n \<noteq> 28 then (Some EIO, v\<lparr>vfs := s\<rparr>)
                else (None, v\<lparr>vfs := s, volume_state := VOLUME_VALID\<rparr>))"

text \<open>A board whose device id has its eight bytes.\<close>

definition board_ok :: "board \<Rightarrow> bool" where
  "board_ok b \<longleftrightarrow> length (board_id b) = 8"

text \<open>A concrete board for the witnesses.\<close>

definition demo_board :: board where
  "demo_board = \<lparr>partition_off = 0x100, partition_sz = 0x8000, board_id = replicate 8 7,
    crc32_ieee = (\<lambda>bs. word_of_nat (sum_list (map unat bs))), may_format = False, marker_adopt = False\<rparr>"

subsection \<open>Layout of the marker\<close>

lemma length_marker_body: "length (marker_body m) = 16 + length (device_id m)"
  by (simp add: marker_body_def)

lemma length_marker_bytes: "length (marker_bytes m) = 20 + length (device_id m)"
  by (simp add: marker_bytes_def length_marker_body)

lemma word32_of_le: "(word_of_nat (le_nat (le_bytes 4 (unat w))) :: 32 word) = w"
  using unsigned_less [of w, where 'a = nat] by (simp add: le_nat_le_bytes)

lemma word16_of_le: "(word_of_nat (le_nat (le_bytes 2 (unat w))) :: 16 word) = w"
  using unsigned_less [of w, where 'a = nat] by (simp add: le_nat_le_bytes)

lemma marker_of_bytes_marker_bytes:
  assumes "length (device_id m) = 8"
  shows "marker_of_bytes (marker_bytes m) = m"
  using assms
  by (simp add: marker_of_bytes_def marker_bytes_def marker_body_def word32_of_le word16_of_le)


lemma marker_fill_simps [simp]:
  "magic (marker_fill b) = CANTIL_VOLUME_MAGIC" "version (marker_fill b) = CANTIL_VOLUME_VERSION"
  "partition_offset (marker_fill b) = partition_off b" "partition_size (marker_fill b) = partition_sz b"
  "device_id (marker_fill b) = board_id b" "crc32 (marker_fill b) = crc32_ieee b (marker_body (marker_fill b))"
  by (simp_all add: marker_fill_def Let_def marker_body_def)

lemma take_marker_bytes: "board_ok b \<Longrightarrow> take 24 (marker_bytes (marker_fill b)) = marker_body (marker_fill b)"
  by (simp add: marker_bytes_def length_marker_body board_ok_def)

lemma length_filled: "board_ok b \<Longrightarrow> length (marker_bytes (marker_fill b)) = 28"
  by (simp add: length_marker_bytes board_ok_def)

subsection \<open>Checking and writing on a lawful file system\<close>

context fs_laws begin

lemma marker_read_none: "mounted s \<Longrightarrow> view s VOLUME_MARKER_PATH = None \<Longrightarrow> marker_read F s = Inl ENOENT"
  by (simp add: marker_read_def open_r_law)

lemma marker_read_some:
  "mounted s \<Longrightarrow> marker_read F s = Inr bs \<Longrightarrow> \<exists>c. view s VOLUME_MARKER_PATH = Some (File c) \<and> bs = take 28 c"
  by (auto simp: marker_read_def split: option.splits dest: read_law)

lemma valid_marker:
  assumes "mounted s" and "marker_check F b s = VOLUME_VALID"
  obtains c where "view s VOLUME_MARKER_PATH = Some (File c)" "28 \<le> length c"
    "magic (marker_of_bytes c) = CANTIL_VOLUME_MAGIC" "partition_offset (marker_of_bytes c) = partition_off b"
    "partition_size (marker_of_bytes c) = partition_sz b" "device_id (marker_of_bytes c) = board_id b"
proof -
  from assms(2) obtain bs where r: "marker_read F s = Inr bs" and len: "length bs = 28"
    and eqs: "magic (marker_of_bytes bs) = CANTIL_VOLUME_MAGIC" "partition_offset (marker_of_bytes bs) = partition_off b"
    "partition_size (marker_of_bytes bs) = partition_sz b" "device_id (marker_of_bytes bs) = board_id b"
    by (auto simp: marker_check_def Let_def split: sum.splits if_splits)
  from marker_read_some [OF assms(1) r] obtain c where c: "view s VOLUME_MARKER_PATH = Some (File c)" "bs = take 28 c"
    by blast
  have "marker_of_bytes bs = marker_of_bytes c" using c(2) by (simp add: marker_of_bytes_def drop_take min_def)
  with eqs c len that show ?thesis by auto
qed

end

context fs_reliable begin

lemma marker_read_file:
  "mounted s \<Longrightarrow> view s VOLUME_MARKER_PATH = Some (File c) \<Longrightarrow> marker_read F s = Inr (take 28 c)"
  using read_ok by (simp add: marker_read_def)

lemma check_written:
  assumes "mounted s" and "view s VOLUME_MARKER_PATH = Some (File (marker_bytes (marker_fill b)))"
    and "board_ok b" and "crc32_ieee b' = crc32_ieee b"
  shows "marker_check F b' s =
    (if partition_off b = partition_off b' \<and> partition_sz b = partition_sz b' \<and> board_id b = board_id b'
     then VOLUME_VALID else VOLUME_MISMATCH)"
  using assms marker_of_bytes_marker_bytes [of "marker_fill b"]
  by (simp add: marker_check_def marker_read_file length_filled take_marker_bytes Let_def board_ok_def)

lemma marker_write_done:
  assumes "mounted (vfs v)" and "board_ok b" and "storage_volume_marker_write F b v = (None, v')"
  shows "mounted (vfs v') \<and> view (vfs v') VOLUME_MARKER_PATH = Some (File (marker_bytes (marker_fill b)))
    \<and> volume_state v' = VOLUME_VALID"
proof -
  from assms(3) obtain s1 s2 s3 r where
    o: "fs_open_w F VOLUME_MARKER_PATH (vfs v) = (None, s1)" and
    w: "fs_write F VOLUME_MARKER_PATH (marker_bytes (marker_fill b)) s1 = (28, s2)" and
    c: "fs_close F VOLUME_MARKER_PATH s2 = (r, s3)" and v': "v' = v\<lparr>vfs := s3, volume_state := VOLUME_VALID\<rparr>"
    by (auto simp: storage_volume_marker_write_def Let_def split: sum.splits prod.splits option.splits if_splits)
  note o' = open_w_law [OF assms(1) o]
  from write_law [OF conjunct1 [OF o'] w] o' have "mounted s2" "is_file (view s2 VOLUME_MARKER_PATH)" by auto
  with close_ok c have c': "fs_close F VOLUME_MARKER_PATH s2 = (None, s3)" by fastforce
  from commit_law [OF assms(1) o _ c', of "marker_bytes (marker_fill b)"] w length_filled [OF assms(2)]
    close_law [OF \<open>mounted s2\<close> c'] v'
  show ?thesis by simp
qed

lemma marker_write_again:
  assumes "mounted (vfs v)" and "view (vfs v) VOLUME_MARKER_PATH \<noteq> None"
  shows "storage_volume_marker_write F b v = (Some EEXIST, v)"
  using assms stat_ok by (auto simp: storage_volume_marker_write_def)

end

subsection \<open>Properties\<close>

text \<open>
  C14: A marker protects the volume from every other build and die.  On a volume
  marked by a build for partition offset, size and device id, a build that reads
  the marker reports it valid exactly when all three are its own, and reports a
  mismatch otherwise.
\<close>

theorem marker_identifies_volume:
  assumes "fs_reliable F mounted view" and "mounted (vfs v)" and "board_ok b" and "crc32_ieee b' = crc32_ieee b"
    and "view (vfs v) VOLUME_MARKER_PATH = Some (File (marker_bytes (marker_fill b)))"
  shows "storage_volume_verify F b' v =
    (let st = (if partition_off b = partition_off b' \<and> partition_sz b = partition_sz b' \<and> board_id b = board_id b'
               then VOLUME_VALID else VOLUME_MISMATCH) in (st, v\<lparr>volume_state := st\<rparr>))"
  using fs_reliable.check_written [OF assms(1,2,5,3,4)] by (simp add: storage_volume_verify_def)

theorem marker_identifies_volume_witness:
  "fst (storage_volume_verify mem_api (demo_board\<lparr>partition_off := 0x200\<rparr>)
     \<lparr>vfs = [(VOLUME_MARKER_PATH, File (marker_bytes (marker_fill demo_board))), (''/lfs'', Dir)],
      volume_state = VOLUME_UNMARKED\<rparr>) = VOLUME_MISMATCH"
proof -
  let ?s = "[(VOLUME_MARKER_PATH, File (marker_bytes (marker_fill demo_board))), (''/lfs'', Dir)]"
  have inv: "mem_inv ?s"
    by (simp add: mem_inv_def path_ok_def comp_ok_def name_ok_def VOLUME_MARKER_PATH_def upt_rec)
  show ?thesis
    by (subst marker_identifies_volume [OF memr.fs_reliable_axioms, where b = demo_board])
      (use inv in \<open>simp_all add: demo_board_def board_ok_def\<close>)
qed

text \<open>
  When \<open>storage_volume_marker_write\<close> returns 0, the marker on the volume verifies
  as valid for this build, and the cached state says so.
\<close>

theorem marker_write_verifies:
  assumes "fs_reliable F mounted view" and "mounted (vfs v)" and "board_ok b"
    and "storage_volume_marker_write F b v = (None, v')"
  shows "storage_volume_verify F b v' = (VOLUME_VALID, v') \<and> volume_state v' = VOLUME_VALID"
  using fs_reliable.marker_write_done [OF assms] fs_reliable.check_written [OF assms(1) _ _ assms(3) refl]
  by (simp add: storage_volume_verify_def)

theorem marker_write_verifies_witness:
  "let v' = snd (storage_volume_marker_write mem_api demo_board \<lparr>vfs = [(''/lfs'', Dir)], volume_state = VOLUME_UNMARKED\<rparr>)
   in storage_volume_verify mem_api demo_board v' = (VOLUME_VALID, v') \<and> volume_state v' = VOLUME_VALID"
proof -
  let ?v = "\<lparr>vfs = [(''/lfs'', Dir)], volume_state = VOLUME_UNMARKED\<rparr>"
  have inv: "mem_inv (vfs ?v)" by (simp add: mem_inv_def path_ok_def comp_ok_def upt_rec)
  have ok: "board_ok demo_board" by (simp add: board_ok_def demo_board_def)
  have "fst (storage_volume_marker_write mem_api demo_board ?v) = None"
    using length_filled [OF ok]
    by (simp add: storage_volume_marker_write_def mem_defs path_ok_def comp_ok_def name_ok_def
        VOLUME_MARKER_PATH_def upt_rec Let_def)
  then show ?thesis
    using marker_write_verifies [OF memr.fs_reliable_axioms inv ok, of "snd (storage_volume_marker_write mem_api demo_board ?v)"]
    by (simp add: Let_def prod_eq_iff)
qed



end
