(* ===== verification/Crypto.thy ===== *)
theory Crypto
  imports Cantil_Prelude
begin

text \<open>
  The crypto seam, \<open>firmware/src/crypto/crypto_wolfssl.c\<close> and \<open>wc_rand.c\<close>: argument
  checks, blob layout and error mapping around wolfCrypt and the entropy driver.

  wolfCrypt and Zephyr's entropy driver are the parameter \<open>K\<close>, a record with one
  field per group of library calls; \<open>'r\<close> is the state of the entropy source, and
  \<open>None\<close> stands for any non-zero library return code.  \<open>hw_id\<close> is the FICR device id.
  \<open>wc_laws\<close> states what the code relies on: decryption inverts encryption, the sizes
  of GCM output, and that the driver fills the buffer it is given.
\<close>

datatype gcm_result = GcmOk "byte list" | GcmAuthFail | GcmError

record 'r wolfcrypt =
  entropy_get :: "nat \<Rightarrow> 'r \<Rightarrow> byte list res \<times> 'r"
  wc_ecc_make_key :: "'r \<Rightarrow> byte list option \<times> 'r"
  wc_ecc_make_pub :: "byte list \<Rightarrow> byte list option"
  wc_ecc_sign_det :: "byte list \<Rightarrow> byte list \<Rightarrow> byte list option"
  wc_Sha256Hash :: "byte list \<Rightarrow> byte list option"
  wc_HKDF :: "byte list \<Rightarrow> byte list \<Rightarrow> byte list \<Rightarrow> nat \<Rightarrow> byte list option"
  wc_AesGcmEncrypt :: "byte list \<Rightarrow> byte list \<Rightarrow> byte list \<Rightarrow> (byte list \<times> byte list) option"
  wc_AesGcmDecrypt :: "byte list \<Rightarrow> byte list \<Rightarrow> byte list \<Rightarrow> byte list \<Rightarrow> gcm_result"
  hw_id :: "byte list"

definition P256_PRIV_LEN :: nat where "P256_PRIV_LEN = 32"
definition P256_PUB_LEN :: nat where "P256_PUB_LEN = 65"
definition P256_SIG_LEN :: nat where "P256_SIG_LEN = 64"

definition eio :: "'a option \<Rightarrow> 'a res" where
  "eio x = (case x of None \<Rightarrow> Inl EIO | Some y \<Rightarrow> Inr y)"

definition crypto_trng :: "'r wolfcrypt \<Rightarrow> nat \<Rightarrow> 'r \<Rightarrow> byte list res \<times> 'r" where
  "crypto_trng K len r = entropy_get K len r"

definition crypto_keygen :: "'r wolfcrypt \<Rightarrow> nat \<Rightarrow> 'r \<Rightarrow> byte list res \<times> 'r" where
  "crypto_keygen K cap r =
    (if cap < P256_PRIV_LEN then (Inl EINVAL, r)
     else case wc_ecc_make_key K r of (k, r) \<Rightarrow> (eio k, r))"

definition crypto_pubkey_from_privkey :: "'r wolfcrypt \<Rightarrow> byte list \<Rightarrow> nat \<Rightarrow> byte list res" where
  "crypto_pubkey_from_privkey K priv cap =
    (if length priv \<noteq> P256_PRIV_LEN \<or> cap < P256_PUB_LEN then Inl EINVAL else eio (wc_ecc_make_pub K priv))"

definition crypto_sign :: "'r wolfcrypt \<Rightarrow> byte list \<Rightarrow> byte list \<Rightarrow> nat \<Rightarrow> byte list res" where
  "crypto_sign K priv digest cap =
    (if length priv \<noteq> P256_PRIV_LEN \<or> cap < P256_SIG_LEN then Inl EINVAL else eio (wc_ecc_sign_det K priv digest))"

definition crypto_sha256 :: "'r wolfcrypt \<Rightarrow> byte list \<Rightarrow> byte list res" where
  "crypto_sha256 K data = eio (wc_Sha256Hash K data)"

definition crypto_hkdf_sha256 :: "'r wolfcrypt \<Rightarrow> byte list \<Rightarrow> byte list \<Rightarrow> byte list \<Rightarrow> nat \<Rightarrow> byte list res" where
  "crypto_hkdf_sha256 K ikm salt info out_len =
    (if length ikm = 0 \<or> out_len = 0 then Inl EINVAL else eio (wc_HKDF K ikm salt info out_len))"

definition crypto_storage_key_derive :: "'r wolfcrypt \<Rightarrow> byte list res" where
  "crypto_storage_key_derive K = crypto_hkdf_sha256 K (hw_id K) [] (str_bytes ''cantil-storage-key'') 32"

definition crypto_encrypt_blob :: "'r wolfcrypt \<Rightarrow> byte list \<Rightarrow> byte list \<Rightarrow> nat \<Rightarrow> 'r \<Rightarrow> byte list res \<times> 'r" where
  "crypto_encrypt_blob K storage_key plaintext cap r =
    (if cap < 12 + length plaintext + 16 then (Inl EINVAL, r)
     else case entropy_get K 12 r of
       (Inl _, r) \<Rightarrow> (Inl EIO, r)
     | (Inr nonce, r) \<Rightarrow>
         (case wc_AesGcmEncrypt K storage_key nonce plaintext of
            None \<Rightarrow> (Inl EIO, r)
          | Some (ct, tag) \<Rightarrow> (Inr (nonce @ ct @ tag), r)))"

definition crypto_decrypt_blob :: "'r wolfcrypt \<Rightarrow> byte list \<Rightarrow> byte list \<Rightarrow> nat \<Rightarrow> byte list res" where
  "crypto_decrypt_blob K storage_key ciphertext cap =
    (if length ciphertext < 12 + 16 then Inl EINVAL
     else let body_len = length ciphertext - 12 - 16 in
       if cap < body_len then Inl EINVAL
       else case wc_AesGcmDecrypt K storage_key (take 12 ciphertext) (take body_len (drop 12 ciphertext))
                   (take 16 (drop (12 + body_len) ciphertext)) of
         GcmAuthFail \<Rightarrow> Inl EBADMSG
       | GcmError \<Rightarrow> Inl EIO
       | GcmOk pt \<Rightarrow> Inr pt)"

locale wc_laws =
  fixes K :: "'r wolfcrypt"
  assumes gcm_inverse: "wc_AesGcmEncrypt K key nonce pt = Some (ct, tag) \<Longrightarrow> wc_AesGcmDecrypt K key nonce ct tag = GcmOk pt"
    and gcm_lengths: "wc_AesGcmEncrypt K key nonce pt = Some (ct, tag) \<Longrightarrow> length ct = length pt \<and> length tag = 16"
    and entropy_length: "entropy_get K n r = (Inr bs, r') \<Longrightarrow> length bs = n"
begin

lemma encrypt_blob_shape:
  assumes "crypto_encrypt_blob K key pt cap r = (Inr blob, r')"
  obtains nonce ct tag where "blob = nonce @ ct @ tag" "length nonce = 12" "length ct = length pt" "length tag = 16"
    "wc_AesGcmEncrypt K key nonce pt = Some (ct, tag)" "12 + length pt + 16 \<le> cap"
  using assms
  by (auto simp: crypto_encrypt_blob_def split: if_splits prod.splits sum.splits option.splits
      dest: entropy_length gcm_lengths)

lemma decrypt_encrypt:
  assumes "crypto_encrypt_blob K key pt cap r = (Inr blob, r')" and "length pt \<le> cap'"
  shows "crypto_decrypt_blob K key blob cap' = Inr pt"
proof -
  obtain nonce ct tag where b: "blob = nonce @ ct @ tag" "length nonce = 12" "length ct = length pt" "length tag = 16"
    "wc_AesGcmEncrypt K key nonce pt = Some (ct, tag)"
    using encrypt_blob_shape [OF assms(1)] by metis
  then show ?thesis using gcm_inverse [OF b(5)] assms(2) by (simp add: crypto_decrypt_blob_def Let_def)
qed

lemma blob_length: "crypto_encrypt_blob K key pt cap r = (Inr blob, r') \<Longrightarrow> length blob = length pt + 28"
  by (erule encrypt_blob_shape) simp

end

text \<open>
  A stand-in library for the witnesses: the cipher leaves the text in the clear, and
  the tag is the sum of the bytes involved.
\<close>

definition toy_tag :: "byte list \<Rightarrow> byte list \<Rightarrow> byte list \<Rightarrow> byte list" where
  "toy_tag key nonce pt = be_bytes 16 (sum_list (map unat (key @ nonce @ pt)))"

definition toy_wc :: "nat wolfcrypt" where
  "toy_wc = \<lparr>entropy_get = \<lambda>n r. (Inr (replicate n (word_of_nat r)), r + 1),
     wc_ecc_make_key = \<lambda>r. (Some (replicate 32 (word_of_nat r)), r + 1),
     wc_ecc_make_pub = \<lambda>k. Some (4 # k @ k), wc_ecc_sign_det = \<lambda>k d. Some (k @ d),
     wc_Sha256Hash = \<lambda>d. Some (be_bytes 32 (be_nat d)),
     wc_HKDF = \<lambda>ikm salt info n. Some (be_bytes n (be_nat (ikm @ salt @ info))),
     wc_AesGcmEncrypt = \<lambda>key nonce pt. Some (pt, toy_tag key nonce pt),
     wc_AesGcmDecrypt = \<lambda>key nonce ct tag. if tag = toy_tag key nonce ct then GcmOk ct else GcmAuthFail,
     hw_id = [1, 2, 3, 4, 5, 6, 7, 8]\<rparr>"

interpretation toy: wc_laws toy_wc
  by unfold_locales (auto simp: toy_wc_def toy_tag_def)

text \<open>
  C23: A blob encrypted under the storage key is 28 bytes longer than the secret and
  decrypts to it, for every nonce the entropy source delivers.
\<close>

theorem blob_roundtrip:
  assumes "wc_laws K" and "crypto_encrypt_blob K key pt cap r = (Inr blob, r')" and "length pt \<le> cap'"
  shows "length blob = length pt + 28 \<and> crypto_decrypt_blob K key blob cap' = Inr pt"
  using wc_laws.blob_length [OF assms(1,2)] wc_laws.decrypt_encrypt [OF assms] by blast

theorem blob_roundtrip_witness:
  "crypto_decrypt_blob toy_wc [9] (projr (fst (crypto_encrypt_blob toy_wc [9] [1, 2, 3] 60 5))) 32 = Inr [1, 2, 3]"
proof -
  have "crypto_encrypt_blob toy_wc [9] [1, 2, 3] 60 5 =
      (Inr (replicate 12 5 @ [1, 2, 3] @ toy_tag [9] (replicate 12 5) [1, 2, 3]), 6)"
    by (simp add: crypto_encrypt_blob_def toy_wc_def)
  from blob_roundtrip [OF toy.wc_laws_axioms this, of 32] this show ?thesis by simp
qed

end
