(* ===== verification/Storage.thy ===== *)
theory Storage
  imports Volume Crypto
begin

text \<open>
  The persistent store, \<open>firmware/src/storage/storage.c\<close>, over the file-system
  parameter \<open>F\<close>: the helpers \<open>mkdir_p\<close>, \<open>write_file\<close>, \<open>read_file\<close> and \<open>rm_rf\<close>, mounting,
  the key slots under \<open>/lfs/keys\<close>, the issued certificates under \<open>/lfs/certs\<close>, the
  session identity, the client bonds, the configuration files, the secure wipe
  and the firmware-update sentinel.

  A read returns the bytes that fit the caller's buffer (\<open>cap\<close> is the value of \<open>*len\<close>
  before the call).  Operations that read only do not return a file-system state.
  \<open>rm_rf\<close> is recursive on the directory tree and is modelled as a partial function.
  The inline-size warnings that \<open>storage_init\<close> and \<open>write_key_blob\<close> log are left out.
\<close>

definition PATH_MAX_LEN :: nat where "PATH_MAX_LEN = 128"
definition KEY_BLOB_LEN :: nat where "KEY_BLOB_LEN = 60"

subsection \<open>Files\<close>

definition dir_prefixes :: "string \<Rightarrow> string list" where
  "dir_prefixes p = map (\<lambda>i. take i p) (filter (\<lambda>i. p ! i = CHR ''/'') [1..<length p])"

fun mkdir_each :: "'fs fs_api \<Rightarrow> string list \<Rightarrow> 'fs \<Rightarrow> errno option \<times> 'fs" where
  "mkdir_each F [] s = (None, s)"
| "mkdir_each F (q # qs) s =
    (case fs_mkdir F q s of (ret, s) \<Rightarrow>
       if ret \<noteq> None \<and> ret \<noteq> Some EEXIST then (ret, s) else mkdir_each F qs s)"

definition mkdir_p :: "'fs fs_api \<Rightarrow> string \<Rightarrow> 'fs \<Rightarrow> errno option \<times> 'fs" where
  "mkdir_p F path s = mkdir_each F (dir_prefixes (take (PATH_MAX_LEN - 1) path)) s"

definition write_file :: "'fs fs_api \<Rightarrow> string \<Rightarrow> byte list \<Rightarrow> 'fs \<Rightarrow> errno option \<times> 'fs" where
  "write_file F path data s =
    (case mkdir_p F path s of
       (Some e, s) \<Rightarrow> (Some e, s)
     | (None, s) \<Rightarrow>
    (case fs_open_w F path s of
       (Some e, s) \<Rightarrow> (Some e, s)
     | (None, s) \<Rightarrow>
         let (written, s) = fs_write F path data s;
             (_, s) = fs_close F path s
         in if written \<noteq> int (length data) then (Some EIO, s) else (None, s)))"

definition read_file :: "'fs fs_api \<Rightarrow> string \<Rightarrow> nat \<Rightarrow> 'fs \<Rightarrow> byte list res" where
  "read_file F path cap s =
    (case fs_open_r F path s of Some e \<Rightarrow> Inl e | None \<Rightarrow> fs_read F path cap s)"

definition file_exists :: "'fs fs_api \<Rightarrow> string \<Rightarrow> 'fs \<Rightarrow> bool res" where
  "file_exists F path s =
    (case fs_stat F path s of Inr _ \<Rightarrow> Inr True | Inl e \<Rightarrow> if e = ENOENT then Inr False else Inl e)"

definition unlink_quiet :: "'fs fs_api \<Rightarrow> string \<Rightarrow> 'fs \<Rightarrow> errno option \<times> 'fs" where
  "unlink_quiet F path s =
    (case fs_unlink F path s of (rc, s) \<Rightarrow> (if rc = None \<or> rc = Some ENOENT then None else rc, s))"

text \<open>
  \<open>rm_entries F path es s\<close> is the loop of \<open>rm_rf\<close> over the directory entries \<open>es\<close> of
  \<open>path\<close>; the nested case on \<open>fs_list\<close> is the recursive call, whose result is ignored.
\<close>

partial_function (option) rm_entries :: "'fs fs_api \<Rightarrow> string \<Rightarrow> (string \<times> fs_type) list \<Rightarrow> 'fs \<Rightarrow> 'fs option" where
  "rm_entries F path es s =
    (case es of
       [] \<Rightarrow> Some s
     | (n, t) # es \<Rightarrow>
         let c = take (PATH_MAX_LEN - 1) (child path n) in
         Option.bind
           (if t = FS_DIR_ENTRY_DIR then
              (case fs_list F c s of
                 Inl _ \<Rightarrow> Some s
               | Inr cs \<Rightarrow> Option.bind (rm_entries F c cs s) (\<lambda>s. Some (snd (fs_unlink F c s))))
            else Some s)
           (\<lambda>s. rm_entries F path es (snd (fs_unlink F c s))))"

declare rm_entries.simps [code]

definition rm_rf :: "'fs fs_api \<Rightarrow> string \<Rightarrow> 'fs \<Rightarrow> (errno option \<times> 'fs) option" where
  "rm_rf F path s =
    (case fs_list F path s of
       Inl e \<Rightarrow> Some (if e = ENOENT then None else Some e, s)
     | Inr es \<Rightarrow> Option.bind (rm_entries F path es s) (\<lambda>s. Some (fs_unlink F path s)))"

subsection \<open>Paths\<close>

definition keys_dir :: string where "keys_dir = ''/lfs/keys''"
definition certs_dir :: string where "certs_dir = ''/lfs/certs''"
definition clients_dir :: string where "clients_dir = ''/lfs/clients''"
definition session_dir :: string where "session_dir = ''/lfs/session''"
definition noise_dir :: string where "noise_dir = ''/lfs/noise''"

definition slot_dir :: "nat \<Rightarrow> string" where
  "slot_dir slot = child keys_dir (dec_str slot)"

definition slot_path :: "nat \<Rightarrow> string \<Rightarrow> string" where
  "slot_path slot f = child (slot_dir slot) f"

definition hex_digit :: "nat \<Rightarrow> char" where
  "hex_digit d = (if d < 10 then char_of (48 + d) else char_of (87 + d))"

fun hex_str :: "byte list \<Rightarrow> string" where
  "hex_str [] = []"
| "hex_str (b # bs) = hex_digit (unat b div 16) # hex_digit (unat b mod 16) # hex_str bs"

text \<open>
  \<open>hex_path\<close> refuses a serial that does not fit its buffer, and a path that does not
  fit \<open>out_cap = PATH_MAX_LEN\<close>.  The certificate functions build the path without the
  second check and truncate it.  The source leaves its buffer uninitialised for a
  serial of no bytes; the definitions have the empty string there.
\<close>

definition hex_path :: "byte list \<Rightarrow> string \<Rightarrow> string res" where
  "hex_path serial suffix =
    (if length serial * 2 + 1 > PATH_MAX_LEN then Inl EINVAL
     else let p = child (child certs_dir (hex_str serial)) suffix in
       if length p \<ge> PATH_MAX_LEN then Inl ENAMETOOLONG else Inr p)"

definition cert_path :: "byte list \<Rightarrow> string res" where
  "cert_path serial =
    (if length serial * 2 + 1 > PATH_MAX_LEN then Inl EINVAL
     else Inr (take (PATH_MAX_LEN - 1) (child (child certs_dir (hex_str serial)) ''cert.der'')))"

definition client_dir :: "byte list \<Rightarrow> string" where
  "client_dir i = child clients_dir (hex_str i)"

definition client_hex_path :: "byte list \<Rightarrow> string \<Rightarrow> string" where
  "client_hex_path i f = child (client_dir i) f"

definition hex_nibble :: "char \<Rightarrow> nat option" where
  "hex_nibble c =
    (let n = of_char c :: nat in
     if 48 \<le> n \<and> n \<le> 57 then Some (n - 48) else if 97 \<le> n \<and> n \<le> 102 then Some (10 + (n - 97)) else None)"

fun hex_decode :: "string \<Rightarrow> byte list option" where
  "hex_decode [] = Some []"
| "hex_decode [_] = None"
| "hex_decode (a # b # cs) =
    (case hex_nibble a of None \<Rightarrow> None | Some hi \<Rightarrow>
    (case hex_nibble b of None \<Rightarrow> None | Some lo \<Rightarrow>
    (case hex_decode cs of None \<Rightarrow> None | Some bs \<Rightarrow> Some (word_of_nat (16 * hi + lo) # bs))))"

subsection \<open>Key slots\<close>

text \<open>Secret blobs go through \<open>write_key_blob\<close>, which besides a log message is \<open>write_file\<close>.\<close>

definition write_key_blob :: "'fs fs_api \<Rightarrow> string \<Rightarrow> byte list \<Rightarrow> 'fs \<Rightarrow> errno option \<times> 'fs" where
  "write_key_blob F path blob s = write_file F path blob s"

definition storage_key_write :: "'fs fs_api \<Rightarrow> nat \<Rightarrow> byte list \<Rightarrow> 'fs \<Rightarrow> errno option \<times> 'fs" where
  "storage_key_write F slot blob s = write_key_blob F (slot_path slot ''key.bin'') blob s"

definition storage_key_read :: "'fs fs_api \<Rightarrow> nat \<Rightarrow> nat \<Rightarrow> 'fs \<Rightarrow> byte list res" where
  "storage_key_read F slot cap s = read_file F (slot_path slot ''key.bin'') cap s"

definition storage_slot_cert_write :: "'fs fs_api \<Rightarrow> nat \<Rightarrow> byte list \<Rightarrow> 'fs \<Rightarrow> errno option \<times> 'fs" where
  "storage_slot_cert_write F slot blob s = write_file F (slot_path slot ''cert.der'') blob s"

definition storage_slot_cert_read :: "'fs fs_api \<Rightarrow> nat \<Rightarrow> nat \<Rightarrow> 'fs \<Rightarrow> byte list res" where
  "storage_slot_cert_read F slot cap s = read_file F (slot_path slot ''cert.der'') cap s"

definition storage_slot_cert_exists :: "'fs fs_api \<Rightarrow> nat \<Rightarrow> 'fs \<Rightarrow> bool res" where
  "storage_slot_cert_exists F slot s = file_exists F (slot_path slot ''cert.der'') s"

definition storage_slot_chain_write :: "'fs fs_api \<Rightarrow> nat \<Rightarrow> byte list \<Rightarrow> 'fs \<Rightarrow> errno option \<times> 'fs" where
  "storage_slot_chain_write F slot blob s = write_file F (slot_path slot ''chain.der'') blob s"

definition storage_slot_chain_read :: "'fs fs_api \<Rightarrow> nat \<Rightarrow> nat \<Rightarrow> 'fs \<Rightarrow> byte list res" where
  "storage_slot_chain_read F slot cap s = read_file F (slot_path slot ''chain.der'') cap s"

definition storage_slot_chain_exists :: "'fs fs_api \<Rightarrow> nat \<Rightarrow> 'fs \<Rightarrow> bool res" where
  "storage_slot_chain_exists F slot s = file_exists F (slot_path slot ''chain.der'') s"

definition storage_slot_chain_delete :: "'fs fs_api \<Rightarrow> nat \<Rightarrow> 'fs \<Rightarrow> errno option \<times> 'fs" where
  "storage_slot_chain_delete F slot s = unlink_quiet F (slot_path slot ''chain.der'') s"

definition storage_slot_key_exists :: "'fs fs_api \<Rightarrow> nat \<Rightarrow> 'fs \<Rightarrow> bool res" where
  "storage_slot_key_exists F slot s = file_exists F (slot_path slot ''key.bin'') s"

definition storage_slot_csr_exists :: "'fs fs_api \<Rightarrow> nat \<Rightarrow> 'fs \<Rightarrow> bool res" where
  "storage_slot_csr_exists F slot s = file_exists F (slot_path slot ''csr.der'') s"

text \<open>\<open>None\<close> when \<open>rm_rf\<close> does not return.  The overwrite before it ignores errors.\<close>

definition storage_slot_delete :: "'fs fs_api \<Rightarrow> nat \<Rightarrow> 'fs \<Rightarrow> (errno option \<times> 'fs) option" where
  "storage_slot_delete F slot s =
    (let (_, s) = write_file F (slot_path slot ''key.bin'') (replicate KEY_BLOB_LEN 0xA5) s in
     Option.bind (rm_rf F (slot_dir slot) s) (\<lambda>(rc, s). Some (if rc = Some ENOENT then None else rc, s)))"

definition storage_slot_meta_write :: "'fs fs_api \<Rightarrow> nat \<Rightarrow> byte list \<Rightarrow> 'fs \<Rightarrow> errno option \<times> 'fs" where
  "storage_slot_meta_write F slot blob s = write_file F (slot_path slot ''meta.bin'') blob s"

definition storage_slot_meta_read :: "'fs fs_api \<Rightarrow> nat \<Rightarrow> nat \<Rightarrow> 'fs \<Rightarrow> byte list res" where
  "storage_slot_meta_read F slot cap s = read_file F (slot_path slot ''meta.bin'') cap s"

definition storage_slot_x509_write :: "'fs fs_api \<Rightarrow> nat \<Rightarrow> byte list \<Rightarrow> 'fs \<Rightarrow> errno option \<times> 'fs" where
  "storage_slot_x509_write F slot blob s = write_file F (slot_path slot ''x509_data.bin'') blob s"

definition storage_slot_x509_read :: "'fs fs_api \<Rightarrow> nat \<Rightarrow> nat \<Rightarrow> 'fs \<Rightarrow> byte list res" where
  "storage_slot_x509_read F slot cap s = read_file F (slot_path slot ''x509_data.bin'') cap s"

definition storage_slot_csr_write :: "'fs fs_api \<Rightarrow> nat \<Rightarrow> byte list \<Rightarrow> 'fs \<Rightarrow> errno option \<times> 'fs" where
  "storage_slot_csr_write F slot blob s = write_file F (slot_path slot ''csr.der'') blob s"

definition storage_slot_csr_read :: "'fs fs_api \<Rightarrow> nat \<Rightarrow> nat \<Rightarrow> 'fs \<Rightarrow> byte list res" where
  "storage_slot_csr_read F slot cap s = read_file F (slot_path slot ''csr.der'') cap s"

definition storage_slot_crl_number_read :: "'fs fs_api \<Rightarrow> nat \<Rightarrow> 'fs \<Rightarrow> 32 word res" where
  "storage_slot_crl_number_read F slot s =
    ok_then (read_file F (slot_path slot ''crl_number.bin'') 4 s) (\<lambda>buf.
      if length buf \<noteq> 4 then Inl EINVAL else Inr (word_of_nat (be_nat buf)))"

definition storage_slot_crl_number_write :: "'fs fs_api \<Rightarrow> nat \<Rightarrow> 32 word \<Rightarrow> 'fs \<Rightarrow> errno option \<times> 'fs" where
  "storage_slot_crl_number_write F slot v s = write_file F (slot_path slot ''crl_number.bin'') (be_bytes 4 (unat v)) s"

subsection \<open>Issued certificates\<close>

definition storage_issued_cert_write :: "'fs fs_api \<Rightarrow> byte list \<Rightarrow> byte list \<Rightarrow> 'fs \<Rightarrow> errno option \<times> 'fs" where
  "storage_issued_cert_write F serial der s =
    (case cert_path serial of Inl e \<Rightarrow> (Some e, s) | Inr p \<Rightarrow> write_file F p der s)"

definition storage_issued_cert_read :: "'fs fs_api \<Rightarrow> byte list \<Rightarrow> nat \<Rightarrow> 'fs \<Rightarrow> byte list res" where
  "storage_issued_cert_read F serial cap s = ok_then (cert_path serial) (\<lambda>p. read_file F p cap s)"

definition storage_issued_meta_write :: "'fs fs_api \<Rightarrow> byte list \<Rightarrow> byte list \<Rightarrow> 'fs \<Rightarrow> errno option \<times> 'fs" where
  "storage_issued_meta_write F serial blob s =
    (case hex_path serial ''meta.bin'' of Inl e \<Rightarrow> (Some e, s) | Inr p \<Rightarrow> write_file F p blob s)"

definition storage_issued_meta_read :: "'fs fs_api \<Rightarrow> byte list \<Rightarrow> nat \<Rightarrow> 'fs \<Rightarrow> byte list res" where
  "storage_issued_meta_read F serial cap s = ok_then (hex_path serial ''meta.bin'') (\<lambda>p. read_file F p cap s)"

definition storage_issued_cert_exists :: "'fs fs_api \<Rightarrow> byte list \<Rightarrow> 'fs \<Rightarrow> bool res" where
  "storage_issued_cert_exists F serial s = ok_then (hex_path serial ''cert.der'') (\<lambda>p. file_exists F p s)"

text \<open>
  A callback gets the serial, its own data \<open>u\<close> and the file system, and returns 0
  (\<open>None\<close>) to go on; a positive value or an error number ends the loop and is returned.  Entries that are not directories, or whose name is not the
  lower-case hex of 1 to 20 bytes, are passed over.
\<close>

datatype iter_rc = IterStop | IterErr errno

definition serial_of_name :: "string \<times> fs_type \<Rightarrow> byte list option" where
  "serial_of_name = (\<lambda>(n, t).
    if t \<noteq> FS_DIR_ENTRY_DIR \<or> length n = 0 \<or> odd (length n) \<or> length n div 2 > 20 then None
    else hex_decode n)"

fun iter_entries :: "('e \<Rightarrow> 'k option) \<Rightarrow> ('k \<Rightarrow> 'u \<Rightarrow> 'fs \<Rightarrow> iter_rc option \<times> 'u \<times> 'fs)
    \<Rightarrow> 'e list \<Rightarrow> 'u \<Rightarrow> 'fs \<Rightarrow> iter_rc option \<times> 'u \<times> 'fs" where
  "iter_entries sel cb [] u s = (None, u, s)"
| "iter_entries sel cb (e # es) u s =
    (case sel e of
       None \<Rightarrow> iter_entries sel cb es u s
     | Some k \<Rightarrow>
         (case cb k u s of
            (None, u, s) \<Rightarrow> iter_entries sel cb es u s
          | (Some rc, u, s) \<Rightarrow> (Some rc, u, s)))"

definition storage_issued_certs_iter :: "'fs fs_api \<Rightarrow> (byte list \<Rightarrow> 'u \<Rightarrow> 'fs \<Rightarrow> iter_rc option \<times> 'u \<times> 'fs)
    \<Rightarrow> 'u \<Rightarrow> 'fs \<Rightarrow> iter_rc option \<times> 'u \<times> 'fs" where
  "storage_issued_certs_iter F cb u s =
    (case fs_list F certs_dir s of
       Inl e \<Rightarrow> (if e = ENOENT then None else Some (IterErr e), u, s)
     | Inr es \<Rightarrow> iter_entries serial_of_name cb es u s)"

definition storage_count_issued_certs :: "'fs fs_api \<Rightarrow> 'fs \<Rightarrow> nat res" where
  "storage_count_issued_certs F s =
    (case fs_list F certs_dir s of
       Inl e \<Rightarrow> if e = ENOENT then Inr 0 else Inl e
     | Inr es \<Rightarrow> Inr (length (filter (\<lambda>(n, t). t = FS_DIR_ENTRY_DIR) es)))"

subsection \<open>Session identity, client bonds and configuration\<close>

definition storage_session_key_write :: "'fs fs_api \<Rightarrow> byte list \<Rightarrow> 'fs \<Rightarrow> errno option \<times> 'fs" where
  "storage_session_key_write F blob s = write_key_blob F (child session_dir ''key.bin'') blob s"

definition storage_session_key_read :: "'fs fs_api \<Rightarrow> nat \<Rightarrow> 'fs \<Rightarrow> byte list res" where
  "storage_session_key_read F cap s = read_file F (child session_dir ''key.bin'') cap s"

definition storage_session_id_key_write :: "'fs fs_api \<Rightarrow> byte list \<Rightarrow> 'fs \<Rightarrow> errno option \<times> 'fs" where
  "storage_session_id_key_write F blob s = write_key_blob F (child session_dir ''id_key.bin'') blob s"

definition storage_session_id_key_read :: "'fs fs_api \<Rightarrow> nat \<Rightarrow> 'fs \<Rightarrow> byte list res" where
  "storage_session_id_key_read F cap s = read_file F (child session_dir ''id_key.bin'') cap s"

definition storage_session_meta_write :: "'fs fs_api \<Rightarrow> byte list \<Rightarrow> 'fs \<Rightarrow> errno option \<times> 'fs" where
  "storage_session_meta_write F blob s = write_file F (child session_dir ''meta.bin'') blob s"

definition storage_session_meta_read :: "'fs fs_api \<Rightarrow> nat \<Rightarrow> 'fs \<Rightarrow> byte list res" where
  "storage_session_meta_read F cap s = read_file F (child session_dir ''meta.bin'') cap s"

definition storage_session_cert_write :: "'fs fs_api \<Rightarrow> byte list \<Rightarrow> 'fs \<Rightarrow> errno option \<times> 'fs" where
  "storage_session_cert_write F blob s = write_file F (child session_dir ''cert.der'') blob s"

definition storage_session_cert_read :: "'fs fs_api \<Rightarrow> nat \<Rightarrow> 'fs \<Rightarrow> byte list res" where
  "storage_session_cert_read F cap s = read_file F (child session_dir ''cert.der'') cap s"

definition storage_session_cert_exists :: "'fs fs_api \<Rightarrow> 'fs \<Rightarrow> bool res" where
  "storage_session_cert_exists F s = file_exists F (child session_dir ''cert.der'') s"

definition storage_session_csr_write :: "'fs fs_api \<Rightarrow> byte list \<Rightarrow> 'fs \<Rightarrow> errno option \<times> 'fs" where
  "storage_session_csr_write F blob s = write_file F (child session_dir ''csr.der'') blob s"

definition storage_session_csr_read :: "'fs fs_api \<Rightarrow> nat \<Rightarrow> 'fs \<Rightarrow> byte list res" where
  "storage_session_csr_read F cap s = read_file F (child session_dir ''csr.der'') cap s"

definition storage_session_chain_write :: "'fs fs_api \<Rightarrow> byte list \<Rightarrow> 'fs \<Rightarrow> errno option \<times> 'fs" where
  "storage_session_chain_write F blob s = write_file F (child session_dir ''chain.der'') blob s"

definition storage_session_chain_read :: "'fs fs_api \<Rightarrow> nat \<Rightarrow> 'fs \<Rightarrow> byte list res" where
  "storage_session_chain_read F cap s = read_file F (child session_dir ''chain.der'') cap s"

definition storage_session_chain_exists :: "'fs fs_api \<Rightarrow> 'fs \<Rightarrow> bool res" where
  "storage_session_chain_exists F s = file_exists F (child session_dir ''chain.der'') s"

definition storage_session_chain_delete :: "'fs fs_api \<Rightarrow> 'fs \<Rightarrow> errno option \<times> 'fs" where
  "storage_session_chain_delete F s = unlink_quiet F (child session_dir ''chain.der'') s"

definition storage_noise_keypair_write :: "'fs fs_api \<Rightarrow> 'r wolfcrypt \<Rightarrow> byte list \<Rightarrow> byte list \<Rightarrow> 'fs \<Rightarrow> 'r
    \<Rightarrow> errno option \<times> 'fs \<times> 'r" where
  "storage_noise_keypair_write F K priv pub s r =
    (case crypto_storage_key_derive K of
       Inl e \<Rightarrow> (Some e, s, r)
     | Inr storage_key \<Rightarrow>
    (case crypto_encrypt_blob K storage_key priv KEY_BLOB_LEN r of
       (Inl e, r) \<Rightarrow> (Some e, s, r)
     | (Inr enc_buf, r) \<Rightarrow>
    (case write_key_blob F (child noise_dir ''key.bin'') enc_buf s of
       (Some e, s) \<Rightarrow> (Some e, s, r)
     | (None, s) \<Rightarrow>
         let (ret, s) = write_file F (child noise_dir ''pub.bin'') pub s in (ret, s, r))))"

definition storage_noise_keypair_read :: "'fs fs_api \<Rightarrow> 'r wolfcrypt \<Rightarrow> 'fs \<Rightarrow> (byte list \<times> byte list) res" where
  "storage_noise_keypair_read F K s =
    ok_then (read_file F (child noise_dir ''pub.bin'') 32 s) (\<lambda>pub.
    ok_then (read_file F (child noise_dir ''key.bin'') KEY_BLOB_LEN s) (\<lambda>enc_buf.
    ok_then (crypto_storage_key_derive K) (\<lambda>storage_key.
    ok_then (crypto_decrypt_blob K storage_key enc_buf 32) (\<lambda>priv. Inr (priv, pub)))))"

definition storage_client_bond_pubkey_write :: "'fs fs_api \<Rightarrow> byte list \<Rightarrow> byte list \<Rightarrow> 'fs \<Rightarrow> errno option \<times> 'fs" where
  "storage_client_bond_pubkey_write F i blob s = write_file F (client_hex_path i ''pubkey.bin'') blob s"

definition storage_client_bond_pubkey_read :: "'fs fs_api \<Rightarrow> byte list \<Rightarrow> 'fs \<Rightarrow> byte list res" where
  "storage_client_bond_pubkey_read F i s = read_file F (client_hex_path i ''pubkey.bin'') 32 s"

definition storage_client_bond_meta_write :: "'fs fs_api \<Rightarrow> byte list \<Rightarrow> byte list \<Rightarrow> 'fs \<Rightarrow> errno option \<times> 'fs" where
  "storage_client_bond_meta_write F i blob s = write_file F (client_hex_path i ''meta.bin'') blob s"

definition storage_client_bond_meta_read :: "'fs fs_api \<Rightarrow> byte list \<Rightarrow> nat \<Rightarrow> 'fs \<Rightarrow> byte list res" where
  "storage_client_bond_meta_read F i cap s = read_file F (client_hex_path i ''meta.bin'') cap s"

definition storage_client_bond_psk_write :: "'fs fs_api \<Rightarrow> byte list \<Rightarrow> byte list \<Rightarrow> 'fs \<Rightarrow> errno option \<times> 'fs" where
  "storage_client_bond_psk_write F i blob s = write_file F (client_hex_path i ''psk.bin'') blob s"

definition storage_client_bond_psk_read :: "'fs fs_api \<Rightarrow> byte list \<Rightarrow> nat \<Rightarrow> 'fs \<Rightarrow> byte list res" where
  "storage_client_bond_psk_read F i cap s = read_file F (client_hex_path i ''psk.bin'') cap s"

definition storage_client_bond_psk_exists :: "'fs fs_api \<Rightarrow> byte list \<Rightarrow> 'fs \<Rightarrow> bool res" where
  "storage_client_bond_psk_exists F i s = file_exists F (client_hex_path i ''psk.bin'') s"

definition storage_client_bond_cert_write :: "'fs fs_api \<Rightarrow> byte list \<Rightarrow> byte list \<Rightarrow> 'fs \<Rightarrow> errno option \<times> 'fs" where
  "storage_client_bond_cert_write F i blob s = write_file F (client_hex_path i ''cert.der'') blob s"

definition storage_client_bond_cert_read :: "'fs fs_api \<Rightarrow> byte list \<Rightarrow> nat \<Rightarrow> 'fs \<Rightarrow> byte list res" where
  "storage_client_bond_cert_read F i cap s = read_file F (client_hex_path i ''cert.der'') cap s"

definition storage_client_bond_cert_exists :: "'fs fs_api \<Rightarrow> byte list \<Rightarrow> 'fs \<Rightarrow> bool res" where
  "storage_client_bond_cert_exists F i s = file_exists F (client_hex_path i ''cert.der'') s"

definition storage_client_bond_exists :: "'fs fs_api \<Rightarrow> byte list \<Rightarrow> 'fs \<Rightarrow> bool res" where
  "storage_client_bond_exists F i s = file_exists F (client_hex_path i ''pubkey.bin'') s"

definition storage_client_bond_delete :: "'fs fs_api \<Rightarrow> byte list \<Rightarrow> 'fs \<Rightarrow> (errno option \<times> 'fs) option" where
  "storage_client_bond_delete F i s =
    Option.bind (rm_rf F (client_dir i) s) (\<lambda>(rc, s). Some (if rc = Some ENOENT then None else rc, s))"

definition client_of_name :: "string \<times> fs_type \<Rightarrow> byte list option" where
  "client_of_name = (\<lambda>(n, t). if t \<noteq> FS_DIR_ENTRY_DIR \<or> length n \<noteq> 8 then None else hex_decode n)"

definition storage_client_bonds_iter :: "'fs fs_api \<Rightarrow> (byte list \<Rightarrow> 'u \<Rightarrow> 'fs \<Rightarrow> iter_rc option \<times> 'u \<times> 'fs)
    \<Rightarrow> 'u \<Rightarrow> 'fs \<Rightarrow> iter_rc option \<times> 'u \<times> 'fs" where
  "storage_client_bonds_iter F cb u s =
    (case fs_list F clients_dir s of
       Inl e \<Rightarrow> (if e = ENOENT then None else Some (IterErr e), u, s)
     | Inr es \<Rightarrow> iter_entries client_of_name cb es u s)"

definition storage_count_client_bonds :: "'fs fs_api \<Rightarrow> 'fs \<Rightarrow> nat res" where
  "storage_count_client_bonds F s =
    (case fs_list F clients_dir s of
       Inl e \<Rightarrow> if e = ENOENT then Inr 0 else Inl e
     | Inr es \<Rightarrow> Inr (length (filter (\<lambda>(n, t). t = FS_DIR_ENTRY_DIR \<and> length n = 8) es)))"

definition CONFIG_PATH :: string where "CONFIG_PATH = ''/lfs/config.bin''"
definition UNLOCK_SEQ_PATH :: string where "UNLOCK_SEQ_PATH = ''/lfs/config_unlock_seq.bin''"
definition UNLOCK_ATTEMPTS_PATH :: string where "UNLOCK_ATTEMPTS_PATH = ''/lfs/config_unlock_attempts.bin''"
definition FW_PENDING_PATH :: string where "FW_PENDING_PATH = ''/lfs/fw_pending''"

definition storage_config_write :: "'fs fs_api \<Rightarrow> byte list \<Rightarrow> 'fs \<Rightarrow> errno option \<times> 'fs" where
  "storage_config_write F blob s = write_file F CONFIG_PATH blob s"

definition storage_config_read :: "'fs fs_api \<Rightarrow> nat \<Rightarrow> 'fs \<Rightarrow> byte list res" where
  "storage_config_read F cap s = read_file F CONFIG_PATH cap s"

definition storage_unlock_seq_write :: "'fs fs_api \<Rightarrow> byte list \<Rightarrow> 'fs \<Rightarrow> errno option \<times> 'fs" where
  "storage_unlock_seq_write F blob s = write_file F UNLOCK_SEQ_PATH blob s"

definition storage_unlock_seq_read :: "'fs fs_api \<Rightarrow> nat \<Rightarrow> 'fs \<Rightarrow> byte list res" where
  "storage_unlock_seq_read F cap s = read_file F UNLOCK_SEQ_PATH cap s"

definition storage_unlock_attempts_write :: "'fs fs_api \<Rightarrow> 32 word \<Rightarrow> 'fs \<Rightarrow> errno option \<times> 'fs" where
  "storage_unlock_attempts_write F count s = write_file F UNLOCK_ATTEMPTS_PATH (le_bytes 4 (unat count)) s"

definition storage_unlock_attempts_read :: "'fs fs_api \<Rightarrow> 'fs \<Rightarrow> 32 word res" where
  "storage_unlock_attempts_read F s =
    ok_then (read_file F UNLOCK_ATTEMPTS_PATH 4 s) (\<lambda>buf.
      if length buf \<noteq> 4 then Inl EINVAL else Inr (word_of_nat (le_nat buf)))"

definition storage_fw_pending_set :: "'fs fs_api \<Rightarrow> 'fs \<Rightarrow> errno option \<times> 'fs" where
  "storage_fw_pending_set F s =
    (case fs_open_w F FW_PENDING_PATH s of
       (Some e, s) \<Rightarrow> (Some e, s)
     | (None, s) \<Rightarrow> (None, snd (fs_close F FW_PENDING_PATH s)))"

definition storage_fw_pending_clear :: "'fs fs_api \<Rightarrow> 'fs \<Rightarrow> errno option \<times> 'fs" where
  "storage_fw_pending_clear F s = unlink_quiet F FW_PENDING_PATH s"

definition storage_fw_pending_check :: "'fs fs_api \<Rightarrow> 'fs \<Rightarrow> bool res" where
  "storage_fw_pending_check F s = file_exists F FW_PENDING_PATH s"

subsection \<open>The volume as a whole\<close>

definition storage_volume_trusted :: "'fs vol \<Rightarrow> bool" where
  "storage_volume_trusted v \<longleftrightarrow> volume_state v \<noteq> VOLUME_MISMATCH"

definition storage_volume_may_mint :: "'fs fs_api \<Rightarrow> 'fs vol \<Rightarrow> bool" where
  "storage_volume_may_mint F v =
    (case volume_state v of VOLUME_VALID \<Rightarrow> True | VOLUME_MISMATCH \<Rightarrow> False
     | VOLUME_UNMARKED \<Rightarrow> storage_slot_key_exists F 0 (vfs v) = Inr True)"

definition storage_init_mounted :: "'fs fs_api \<Rightarrow> board \<Rightarrow> 'fs vol \<Rightarrow> errno option \<times> 'fs vol" where
  "storage_init_mounted F b v =
    (case storage_volume_verify F b v of (st, v) \<Rightarrow>
       if st = VOLUME_UNMARKED \<and> marker_adopt b then (None, snd (storage_volume_marker_write F b v))
       else (None, v))"

definition storage_init :: "'fs fs_api \<Rightarrow> board \<Rightarrow> 'fs vol \<Rightarrow> errno option \<times> 'fs vol" where
  "storage_init F b v =
    (case fs_mount F (vfs v) of
       (None, s) \<Rightarrow> storage_init_mounted F b (v\<lparr>vfs := s\<rparr>)
     | (Some e, s) \<Rightarrow>
         if e = ENODEV then (Some e, v\<lparr>vfs := s\<rparr>)
         else if e = EBUSY then (None, v\<lparr>vfs := s\<rparr>)
         else if e = EINVAL \<or> e = ENOTSUP \<or> e = ENOENT then (Some e, v\<lparr>vfs := s\<rparr>)
         else if \<not> may_format b then (Some e, v\<lparr>vfs := s\<rparr>)
         else
           (case fs_mkfs F s of
              (Some e, s) \<Rightarrow> (Some e, v\<lparr>vfs := s\<rparr>)
            | (None, s) \<Rightarrow>
           (case fs_mount F s of
              (Some e, s) \<Rightarrow> (Some e, v\<lparr>vfs := s\<rparr>)
            | (None, s) \<Rightarrow> storage_init_mounted F b (v\<lparr>vfs := s\<rparr>))))"

definition wipe_blobs :: "'fs fs_api \<Rightarrow> 'fs \<Rightarrow> 'fs" where
  "wipe_blobs F s =
    (let garbage = replicate KEY_BLOB_LEN 0xA5;
         (_, s) = write_file F (slot_path 0 ''key.bin'') garbage s;
         (_, s) = write_file F (child session_dir ''key.bin'') garbage s;
         (_, s) = write_file F (child session_dir ''id_key.bin'') garbage s
     in s)"

fun rm_all :: "'fs fs_api \<Rightarrow> string list \<Rightarrow> 'fs \<Rightarrow> 'fs option" where
  "rm_all F [] s = Some s"
| "rm_all F (p # ps) s = Option.bind (rm_rf F p s) (\<lambda>(_, s). rm_all F ps s)"

definition storage_secure_wipe :: "'fs fs_api \<Rightarrow> 'fs vol \<Rightarrow> (errno option \<times> 'fs vol) option" where
  "storage_secure_wipe F v =
    (if \<not> storage_volume_trusted v then Some (Some EPERM, v)
     else
       Option.bind (rm_all F [keys_dir, certs_dir, noise_dir, session_dir, clients_dir] (wipe_blobs F (vfs v))) (\<lambda>s.
         let (_, s) = fs_unlink F CONFIG_PATH s;
             (_, s) = fs_unlink F UNLOCK_SEQ_PATH s;
             (_, s) = fs_unlink F UNLOCK_ATTEMPTS_PATH s
         in Some (None, v\<lparr>vfs := s\<rparr>)))"

definition storage_count_slots_used :: "'fs fs_api \<Rightarrow> nat \<Rightarrow> 'fs \<Rightarrow> nat" where
  "storage_count_slots_used F max_slots s =
    length (filter (\<lambda>i. case fs_stat F (slot_path i ''key.bin'') s of Inr _ \<Rightarrow> True | Inl _ \<Rightarrow> False) [0..<max_slots])"

definition storage_free_kb :: "'fs fs_api \<Rightarrow> 'fs \<Rightarrow> 32 word res" where
  "storage_free_kb F s = ok_then (fs_statvfs F s) (\<lambda>(bfree, frsize). Inr (word_of_nat (bfree * frsize div 1024)))"


text \<open>
  \<open>short_paths v\<close>: no path of the volume is longer than the buffers of \<open>rm_rf\<close> hold.
  \<open>cleared p es q\<close>: removing the entries \<open>es\<close> of \<open>p\<close> removes \<open>q\<close>.  \<open>wiped q\<close>: the secure wipe
  removes \<open>q\<close>.  \<open>wipe_ready w\<close>: what the wipe removes with \<open>rm_rf\<close> is not a file, and
  what it removes with \<open>fs_unlink\<close> is not a directory.  \<open>blob_paths\<close> are the files it
  overwrites first.
\<close>

definition short_paths :: "(string \<Rightarrow> node option) \<Rightarrow> bool" where
  "short_paths v \<longleftrightarrow> (\<forall>q. v q \<noteq> None \<longrightarrow> length q \<le> 127)"

definition cleared :: "string \<Rightarrow> (string \<times> fs_type) list \<Rightarrow> string \<Rightarrow> bool" where
  "cleared p es q \<longleftrightarrow> (\<exists>(n, t) \<in> set es. q = child p n \<or> below (child p n) q)"

definition wiped :: "string \<Rightarrow> bool" where
  "wiped q \<longleftrightarrow> q \<in> {CONFIG_PATH, UNLOCK_SEQ_PATH, UNLOCK_ATTEMPTS_PATH}
    \<or> (\<exists>d \<in> {keys_dir, certs_dir, noise_dir, session_dir, clients_dir}. q = d \<or> below d q)"

definition wipe_ready :: "(string \<Rightarrow> node option) \<Rightarrow> bool" where
  "wipe_ready w \<longleftrightarrow> short_paths w
    \<and> (\<forall>d \<in> {keys_dir, certs_dir, noise_dir, session_dir, clients_dir}. \<not> is_file (w d))
    \<and> (\<forall>f \<in> {CONFIG_PATH, UNLOCK_SEQ_PATH, UNLOCK_ATTEMPTS_PATH}. w f \<noteq> Some Dir)"

definition blob_paths :: "string set" where
  "blob_paths = {slot_path 0 ''key.bin'', child session_dir ''key.bin'', child session_dir ''id_key.bin''}"

text \<open>
  \<open>demo_fs\<close> and \<open>demo_noise_fs\<close> are small volumes for the witnesses.  \<open>lossy_api\<close> is a volume on a medium that
  loses what is written: the bytes are accepted, and the error shows when the file
  is closed.
\<close>

definition demo_fs :: memfs where
  "demo_fs = [(''/lfs'', Dir), (''/lfs/keys'', Dir), (''/lfs/keys/0'', Dir), (''/lfs/keys/0/key.bin'', File [5, 6]),
     (''/lfs/certs'', Dir), (''/lfs/certs/0a1b'', Dir), (''/lfs/certs/0a1b/cert.der'', File [48, 0]),
     (''/lfs/certs/XY'', Dir), (''/lfs/config.bin'', File [1]), (''/lfs/volume.bin'', File [2])]"

definition demo_noise_fs :: memfs where
  "demo_noise_fs = [(''/lfs'', Dir), (''/lfs/noise'', Dir), (''/lfs/noise/key.bin'', File []), (''/lfs/noise/pub.bin'', File [])]"

definition lossy_api :: "memfs fs_api" where
  "lossy_api = mem_api\<lparr>fs_write := \<lambda>p d m. (int (length d), m), fs_close := \<lambda>p m. (Some EIO, m)\<rparr>"

subsection \<open>Paths are injective\<close>

lemma child_inject [simp]: "child p m = child p n \<longleftrightarrow> m = n"
  by (simp add: child_def)

lemma slash_split:
  assumes "a @ ''/'' @ x = b @ ''/'' @ y" and "CHR ''/'' \<notin> set a" and "CHR ''/'' \<notin> set b"
  shows "a = b \<and> x = y"
proof -
  have "takeWhile (\<lambda>c. c \<noteq> CHR ''/'') (a @ ''/'' @ x) = a" "takeWhile (\<lambda>c. c \<noteq> CHR ''/'') (b @ ''/'' @ y) = b"
    using assms(2,3) by (subst takeWhile_append2; auto)+
  with assms(1) have "a = b" by metis
  with assms(1) show ?thesis by simp
qed

lemma slot_path_inject [simp]:
  "slot_path i f = slot_path j g \<longleftrightarrow> i = j \<and> f = g"
proof
  assume "slot_path i f = slot_path j g"
  then have "dec_str i @ ''/'' @ f = dec_str j @ ''/'' @ g"
    by (simp add: slot_path_def slot_dir_def child_def keys_dir_def)
  from slash_split [OF this] show "i = j \<and> f = g" by simp
qed simp

lemma of_char_hex_digit: "d < 16 \<Longrightarrow> of_char (hex_digit d) = (if d < 10 then 48 + d else 87 + d :: nat)"
  by (simp add: hex_digit_def)

lemma hex_nibble_digit: "d < 16 \<Longrightarrow> hex_nibble (hex_digit d) = Some d"
  by (simp add: hex_nibble_def of_char_hex_digit Let_def)

lemma hex_digit_no_slash: "d < 16 \<Longrightarrow> CHR ''/'' \<noteq> hex_digit d"
proof
  assume "d < 16" and "CHR ''/'' = hex_digit d"
  then have "(of_char (CHR ''/'') :: nat) = (if d < 10 then 48 + d else 87 + d)"
    using of_char_hex_digit [of d] by simp
  then show False by (simp split: if_splits)
qed

lemma length_hex_str [simp]: "length (hex_str bs) = 2 * length bs"
  by (induction bs) auto

lemma hex_decode_hex_str [simp]: "hex_decode (hex_str bs) = Some bs"
proof (induction bs)
  case (Cons b bs)
  have "unat b div 16 < 16" "unat b mod 16 < 16" using unat_byte_less [of b] by (simp_all add: less_mult_imp_div_less)
  with Cons show ?case by (simp add: hex_nibble_digit)
qed simp

lemma hex_str_inject [simp]: "hex_str a = hex_str b \<longleftrightarrow> a = b"
  by (metis hex_decode_hex_str option.inject)

lemma hex_str_no_slash [simp]: "CHR ''/'' \<notin> set (hex_str bs)"
proof (induction bs)
  case (Cons b bs)
  have "unat b div 16 < 16" "unat b mod 16 < 16" using unat_byte_less [of b] by (simp_all add: less_mult_imp_div_less)
  with Cons show ?case by (simp add: hex_digit_no_slash)
qed simp

lemma client_path_inject [simp]: "client_hex_path i f = client_hex_path j g \<longleftrightarrow> i = j \<and> f = g"
proof
  assume "client_hex_path i f = client_hex_path j g"
  then have "hex_str i @ ''/'' @ f = hex_str j @ ''/'' @ g"
    by (simp add: client_hex_path_def client_dir_def child_def clients_dir_def)
  from slash_split [OF this] show "i = j \<and> f = g" by simp
qed simp

lemma dir_prefixes_below: "q \<in> set (dir_prefixes p) \<Longrightarrow> below q p \<and> q \<noteq> []"
proof -
  assume "q \<in> set (dir_prefixes p)"
  then obtain i where i: "1 \<le> i" "i < length p" "p ! i = CHR ''/''" "q = take i p"
    by (auto simp: dir_prefixes_def)
  then have "p = q @ ''/'' @ drop (i + 1) p" using id_take_nth_drop [of i p] by simp
  then have "below q p" unfolding below_def by blast
  moreover have "q \<noteq> []" using i by auto
  ultimately show ?thesis by blast
qed

subsection \<open>Files on a lawful file system\<close>

text \<open>The contract that the clients of the store rely on.\<close>

locale file_store =
  fixes wr :: "'k \<Rightarrow> byte list \<Rightarrow> 's \<Rightarrow> errno option \<times> 's" and rd :: "'k \<Rightarrow> nat \<Rightarrow> 's \<Rightarrow> byte list res"
    and ok :: "'s \<Rightarrow> bool"
  assumes wr_ok: "ok s \<Longrightarrow> wr k d s = (r, s') \<Longrightarrow> ok s'"
    and wr_rd: "ok s \<Longrightarrow> wr k d s = (None, s') \<Longrightarrow> rd k n s' = Inr (take n d)"
    and wr_other: "ok s \<Longrightarrow> wr k d s = (r, s') \<Longrightarrow> k' \<noteq> k \<Longrightarrow> rd k' n s = Inr x \<Longrightarrow> rd k' n s' = Inr x"
begin

lemma two_writes:
  assumes "ok s" and "wr k d s = (None, s1)" and "wr k' d' s1 = (r, s2)" and "k' \<noteq> k"
  shows "rd k n s2 = Inr (take n d)"
  using wr_other [OF wr_ok [OF assms(1,2)] assms(3), of k] wr_rd [OF assms(1,2)] assms(4) by auto

end

context fs_laws begin

lemma mkdir_each_props:
  assumes "mounted s" and "mkdir_each F qs s = (r, s')"
  shows "mounted s' \<and> (\<forall>q. view s' q = view s q \<or> (view s q = None \<and> view s' q = Some Dir \<and> q \<in> set qs))"
  using assms
proof (induction qs arbitrary: s)
  case (Cons q qs)
  obtain ret s1 where m: "fs_mkdir F q s = (ret, s1)" by (metis surj_pair)
  note law = mkdir_law [OF Cons.prems(1) m]
  have step: "\<forall>x. view s1 x = view s x \<or> (view s x = None \<and> view s1 x = Some Dir \<and> x = q)"
    using law by (cases ret) auto
  show ?case
  proof (cases "ret \<noteq> None \<and> ret \<noteq> Some EEXIST")
    case True
    with Cons.prems m law show ?thesis by auto
  next
    case False
    with Cons.prems m have "mkdir_each F qs s1 = (r, s')" by (auto split: if_splits)
    from Cons.IH [OF _ this] law
    have IH: "mounted s'" "\<And>x. view s' x = view s1 x \<or> (view s1 x = None \<and> view s' x = Some Dir \<and> x \<in> set qs)"
      by auto
    have "view s' x = view s x \<or> (view s x = None \<and> view s' x = Some Dir \<and> x \<in> set (q # qs))" for x
      using IH(2) [of x] spec [OF step, of x] by auto
    with IH(1) show ?thesis by blast
  qed
qed simp

lemma write_file_props:
  assumes "mounted s" and "write_file F p d s = (r, s')"
  shows "mounted s' \<and> (\<forall>q. q \<noteq> p \<longrightarrow> view s' q = view s q
    \<or> (view s q = None \<and> view s' q = Some Dir \<and> q \<in> set (dir_prefixes (take 127 p))))"
proof -
  obtain r1 s1 where m: "mkdir_p F p s = (r1, s1)" by (metis surj_pair)
  have M: "mounted s1" "\<And>q. view s1 q = view s q \<or> (view s q = None \<and> view s1 q = Some Dir \<and> q \<in> set (dir_prefixes (take 127 p)))"
    using mkdir_each_props [OF assms(1), of "dir_prefixes (take 127 p)"] m by (auto simp: mkdir_p_def PATH_MAX_LEN_def)
  obtain r2 s2 where o: "fs_open_w F p s1 = (r2, s2)" by (metis surj_pair)
  obtain n s3 where w: "fs_write F p d s2 = (n, s3)" by (metis surj_pair)
  obtain r4 s4 where c: "fs_close F p s3 = (r4, s4)" by (metis surj_pair)
  note O = open_w_law [OF M(1) o] and W = write_law [OF _ w] and C = close_law [OF _ c]
  have "s' = s1 \<or> s' = s2 \<or> s' = s4"
    using assms(2) m o w c by (auto simp: write_file_def Let_def split: option.splits if_splits)
  moreover have "mounted s2 \<and> (\<forall>q. q \<noteq> p \<longrightarrow> view s2 q = view s1 q)" using O by (cases r2) auto
  ultimately have S: "mounted s'" "\<And>q. q \<noteq> p \<Longrightarrow> view s' q = view s1 q" using M(1) W C by auto
  show ?thesis
  proof (intro conjI allI impI)
    fix q assume "q \<noteq> p"
    from S(2) [OF this] M(2) [of q] show "view s' q = view s q
      \<or> (view s q = None \<and> view s' q = Some Dir \<and> q \<in> set (dir_prefixes (take 127 p)))" by auto
  qed (rule S(1))
qed

lemma write_file_keeps:
  assumes "mounted s" and "write_file F p d s = (r, s')" and "q \<noteq> p" and "view s q \<noteq> None"
  shows "view s' q = view s q"
  using write_file_props [OF assms(1,2)] assms(3,4) by auto

lemma read_file_Inr:
  "mounted s \<Longrightarrow> read_file F p cap s = Inr d \<Longrightarrow> \<exists>c. view s p = Some (File c) \<and> d = take cap c"
  by (auto simp: read_file_def split: option.splits dest: read_law)

lemma read_file_none: "mounted s \<Longrightarrow> view s p = None \<Longrightarrow> read_file F p cap s = Inl ENOENT"
  by (simp add: read_file_def open_r_law)

end

context fs_reliable begin

lemma read_file_ok: "mounted s \<Longrightarrow> view s p = Some (File c) \<Longrightarrow> read_file F p cap s = Inr (take cap c)"
  using read_ok by (simp add: read_file_def)

lemma file_exists_ok: "mounted s \<Longrightarrow> file_exists F p s = Inr (view s p \<noteq> None)"
  by (cases "view s p") (auto simp: file_exists_def stat_none_law stat_ok)

lemma write_file_done:
  assumes "mounted s" and "write_file F p d s = (None, s')"
  shows "view s' p = Some (File d)"
proof -
  from assms(2) obtain s1 s2 s3 r where m: "mkdir_p F p s = (None, s1)" and
    o: "fs_open_w F p s1 = (None, s2)" and w: "fs_write F p d s2 = (int (length d), s3)" and
    c: "fs_close F p s3 = (r, s')"
    by (auto simp: write_file_def Let_def split: prod.splits option.splits if_splits)
  have M: "mounted s1" using mkdir_each_props [OF assms(1)] m by (auto simp: mkdir_p_def)
  note O = open_w_law [OF M o]
  from write_law [OF conjunct1 [OF O] w] O have "mounted s3" "is_file (view s3 p)" by auto
  with close_ok c have "fs_close F p s3 = (None, s')" by fastforce
  from commit_law [OF M o w this] show ?thesis .
qed

end

sublocale fs_reliable \<subseteq> files: file_store "write_file F" "read_file F" mounted
proof (unfold_locales, goal_cases)
  case (1 s k d r s')
  then show ?case using write_file_props by blast
next
  case (2 s k d s' n)
  then show ?case using write_file_done write_file_props read_file_ok by metis
next
  case (3 s k d r s' k' n x)
  then show ?case using read_file_Inr [of s k' n x] write_file_keeps [of s k d r s' k'] read_file_ok [of s' k']
      write_file_props [of s k d r s'] by force
qed


subsection \<open>Removing a directory tree\<close>

lemma cleared_Nil [simp]: "\<not> cleared p [] q"
  by (simp add: cleared_def)

lemma cleared_Cons [simp]: "cleared p ((n, t) # es) q \<longleftrightarrow> q = child p n \<or> below (child p n) q \<or> cleared p es q"
  by (auto simp: cleared_def)

lemma cleared_below: "cleared p es q \<Longrightarrow> below p q"
  unfolding cleared_def below_def child_def by fastforce

lemma below_child_split:
  assumes "below p q"
  obtains n where "n = takeWhile (\<lambda>c. c \<noteq> CHR ''/'') (drop (length p + 1) q)" "q = child p n \<or> below (child p n) q"
proof -
  from assms obtain r where q: "q = p @ ''/'' @ r" unfolding below_def by blast
  define n where "n = takeWhile (\<lambda>c. c \<noteq> CHR ''/'') r"
  have "r = n \<or> (\<exists>r'. r = n @ ''/'' @ r')"
  proof (cases "dropWhile (\<lambda>c. c \<noteq> CHR ''/'') r")
    case Nil
    then show ?thesis unfolding n_def by (metis append_Nil2 takeWhile_dropWhile_id)
  next
    case (Cons c r')
    then have "c = CHR ''/''" by (metis (full_types) dropWhile_eq_Cons_conv)
    with Cons show ?thesis unfolding n_def by (metis append_Cons append_Nil takeWhile_dropWhile_id)
  qed
  then have "q = child p n \<or> below (child p n) q" unfolding child_def below_def q by auto
  moreover have "n = takeWhile (\<lambda>c. c \<noteq> CHR ''/'') (drop (length p + 1) q)" by (simp add: n_def q)
  ultimately show thesis by (rule that [rotated])
qed

lemma child_not_below: "CHR ''/'' \<notin> set m \<Longrightarrow> \<not> below (child p n) (child p m)"
  by (auto simp: below_def child_def)

lemma child_not_root: "p \<noteq> [] \<Longrightarrow> child p n \<noteq> ''/lfs''"
proof
  assume p: "p \<noteq> []" and eq: "child p n = ''/lfs''"
  from p have "CHR ''/'' \<in> set (tl (child p n))" by (cases p) (auto simp: child_def)
  with eq show False by simp
qed

context fs_reliable begin

lemma below_entry:
  assumes "mounted s" and "p \<noteq> []" and "below p q" and "view s q \<noteq> None"
    and es: "\<And>n x. name_ok n \<Longrightarrow> view s (child p n) = Some x \<Longrightarrow> (n, node_type x) \<in> set es"
  shows "cleared p es q"
proof -
  from assms(3) obtain n where n: "n = takeWhile (\<lambda>c. c \<noteq> CHR ''/'') (drop (length p + 1) q)"
    "q = child p n \<or> below (child p n) q" by (rule below_child_split)
  from assms(3) obtain r where q: "q = p @ ''/'' @ r" unfolding below_def by blast
  from path_law [OF assms(1,2)] assms(4) n(1) have ok: "name_ok n" by (simp add: q)
  have "view s (child p n) \<noteq> None"
    using n(2) assms(4) path_law [OF assms(1), of "child p n"] by (auto simp: below_def child_def)
  then obtain x where "view s (child p n) = Some x" by auto
  from es [OF ok this] n(2) show ?thesis unfolding cleared_def by force
qed

lemma below_leaf:
  assumes "mounted s" and "p \<noteq> []" and "view s p \<noteq> Some Dir" and "below p q"
  shows "view s q = None"
proof (rule ccontr)
  assume "view s q \<noteq> None"
  with assms(4) obtain r where "view s (p @ ''/'' @ r) \<noteq> None" by (auto simp: below_def)
  from path_law [OF assms(1,2) this] assms(3) show False by simp
qed

lemma unlink_leaf:
  assumes "mounted s" and "view s c \<noteq> None" and "\<And>q. below c q \<Longrightarrow> view s q = None" and "c \<noteq> ''/lfs''"
  shows "mounted (snd (fs_unlink F c s))" "view (snd (fs_unlink F c s)) = (view s)(c := None)"
    "fst (fs_unlink F c s) = None"
proof -
  show r: "fst (fs_unlink F c s) = None" using assms by (rule unlink_ok)
  obtain r s' where u: "fs_unlink F c s = (r, s')" by (metis surj_pair)
  with r unlink_law [OF assms(1) u] show "mounted (snd (fs_unlink F c s))" "view (snd (fs_unlink F c s)) = (view s)(c := None)"
    by auto
qed

lemma unlink_absent:
  assumes "mounted s" and "view s c = None"
  shows "mounted (snd (fs_unlink F c s))" "view (snd (fs_unlink F c s)) = view s"
    "fst (fs_unlink F c s) = Some ENOENT"
proof -
  obtain r s' where u: "fs_unlink F c s = (r, s')" by (metis surj_pair)
  with unlink_law [OF assms(1) u] assms(2)
  show "mounted (snd (fs_unlink F c s))" "view (snd (fs_unlink F c s)) = view s" "fst (fs_unlink F c s) = Some ENOENT"
    by auto
qed

lemma rm_child:
  assumes "mounted s" and "p \<noteq> []" and "short_paths (view s)" and "name_ok n" and "view s (child p n) = Some x"
    and rec: "\<And>cs. fs_list F (child p n) s = Inr cs \<Longrightarrow> x = Dir \<Longrightarrow>
      \<exists>s'. rm_entries F (child p n) cs s = Some s' \<and> mounted s' \<and>
           view s' = (\<lambda>q. if cleared (child p n) cs q then None else view s q)"
  shows "\<exists>s'. Option.bind
           (if node_type x = FS_DIR_ENTRY_DIR then
              (case fs_list F (child p n) s of
                 Inl _ \<Rightarrow> Some s
               | Inr cs \<Rightarrow> Option.bind (rm_entries F (child p n) cs s) (\<lambda>s. Some (snd (fs_unlink F (child p n) s))))
            else Some s) (\<lambda>s. Some (snd (fs_unlink F (child p n) s))) = Some s'
      \<and> mounted s' \<and> view s' = (\<lambda>q. if q = child p n \<or> below (child p n) q then None else view s q)"
proof (cases x)
  case (File c)
  let ?c = "child p n"
  have none: "view s q = None" if "below ?c q" for q
    using below_leaf [OF assms(1) _ _ that] assms(5) File by (simp add: child_def)
  from unlink_leaf [OF assms(1) _ none child_not_root [OF assms(2)]] assms(5) none File show ?thesis
    by (auto simp: fun_eq_iff)
next
  case Dir
  let ?c = "child p n"
  from list_ok [OF assms(1)] assms(5) Dir obtain cs where cs: "fs_list F ?c s = Inr cs"
    "\<And>m y. name_ok m \<Longrightarrow> view s (child ?c m) = Some y \<Longrightarrow> (m, node_type y) \<in> set cs" by blast
  from rec [OF cs(1) Dir] obtain s1 where s1: "rm_entries F ?c cs s = Some s1" "mounted s1"
    "view s1 = (\<lambda>q. if cleared ?c cs q then None else view s q)" by blast
  have c: "?c \<noteq> []" by (simp add: child_def)
  have gone: "view s q = None" if "below ?c q" "\<not> cleared ?c cs q" for q
    using below_entry [OF assms(1) c that(1) _ cs(2)] that(2) by blast
  have v1: "view s1 q = (if below ?c q then None else view s q)" for q
    using gone [of q] cleared_below [of ?c cs q] by (auto simp: s1(3))
  have c1: "view s1 ?c \<noteq> None" using assms(5) by (simp add: v1 below_def child_def)
  note u = unlink_leaf [OF s1(2) c1 _ child_not_root [OF assms(2)]]
  have u2: "mounted (snd (fs_unlink F ?c s1))" "view (snd (fs_unlink F ?c s1)) = (view s1)(?c := None)"
    using u v1 by simp_all
  from unlink_absent [OF u2(1), of ?c] u2 v1 s1(1) cs(1) Dir show ?thesis by (auto simp: fun_eq_iff)
qed

lemma rm_entries_correct:
  assumes "mounted s" and "p \<noteq> []" and "short_paths (view s)" and "distinct (map fst es)"
    and "\<And>n t. (n, t) \<in> set es \<Longrightarrow> name_ok n \<and> (\<exists>x. view s (child p n) = Some x \<and> t = node_type x)"
  shows "\<exists>s'. rm_entries F p es s = Some s' \<and> mounted s' \<and> view s' = (\<lambda>q. if cleared p es q then None else view s q)"
  using assms
proof (induction "128 - length p" arbitrary: p es s rule: less_induct)
  case less
  note outer = less.hyps
  from less.prems show ?case
  proof (induction es arbitrary: s)
    case Nil
    then show ?case by (subst rm_entries.simps) simp
  next
    case (Cons e es)
    obtain n t where e: "e = (n, t)" by (cases e)
    from Cons.prems(5) [of n t] e obtain x where n: "name_ok n" "view s (child p n) = Some x" "t = node_type x" by auto
    have len: "length (child p n) \<le> 127" using Cons.prems(3) n(2) by (auto simp: short_paths_def)
    have "\<exists>s'. rm_entries F (child p n) cs s = Some s' \<and> mounted s' \<and>
           view s' = (\<lambda>q. if cleared (child p n) cs q then None else view s q)"
      if "fs_list F (child p n) s = Inr cs" "x = Dir" for cs
      using that list_some_law [OF Cons.prems(1) that(1)] Cons.prems len
      by (intro outer) (auto simp: child_def)
    from rm_child [OF Cons.prems(1,2,3) n(1,2) this] n(3) obtain s1 where
      s1: "Option.bind (if t = FS_DIR_ENTRY_DIR then
              (case fs_list F (child p n) s of
                 Inl _ \<Rightarrow> Some s
               | Inr cs \<Rightarrow> Option.bind (rm_entries F (child p n) cs s) (\<lambda>s. Some (snd (fs_unlink F (child p n) s))))
            else Some s) (\<lambda>s. Some (snd (fs_unlink F (child p n) s))) = Some s1"
      "mounted s1" "view s1 = (\<lambda>q. if q = child p n \<or> below (child p n) q then None else view s q)" by auto
    have run: "rm_entries F p (e # es) s = rm_entries F p es s1"
    proof -
      have tk: "take (PATH_MAX_LEN - 1) (child p n) = child p n" using len by (simp add: PATH_MAX_LEN_def)
      show ?thesis
        using s1(1) e by (subst rm_entries.simps) (auto simp only: tk Let_def bind_eq_Some_conv list.case prod.case bind.bind_lunit)
    qed
    have keep: "view s1 (child p m) = view s (child p m)" if "(m, t') \<in> set es" for m t'
    proof -
      from that Cons.prems(4) e have "m \<noteq> n" by force
      moreover from Cons.prems(5) [of m t'] that have "CHR ''/'' \<notin> set m" by (auto simp: name_ok_def)
      ultimately show ?thesis using child_not_below by (simp add: s1(3))
    qed
    have "\<exists>s'. rm_entries F p es s1 = Some s' \<and> mounted s' \<and> view s' = (\<lambda>q. if cleared p es q then None else view s1 q)"
      using Cons.prems keep by (intro Cons.IH [OF s1(2)]) (auto simp: short_paths_def s1(3))
    then show ?case unfolding run by (auto simp: s1(3) e fun_eq_iff)
  qed
qed

lemma rm_rf_correct:
  assumes "mounted s" and "p \<noteq> []" and "p \<noteq> ''/lfs''" and "short_paths (view s)" and "\<not> is_file (view s p)"
  shows "\<exists>s'. rm_rf F p s = Some (None, s') \<and> mounted s' \<and> view s' = (\<lambda>q. if q = p \<or> below p q then None else view s q)"
proof (cases "view s p")
  case None
  have "view s q = None" if "below p q" for q
    using below_leaf [OF assms(1,2) _ that] None by simp
  with None assms(1) show ?thesis by (auto simp: rm_rf_def list_none_law fun_eq_iff)
next
  case (Some x)
  with assms(5) have dir: "view s p = Some Dir" by (cases x) (auto simp: is_file_def)
  from list_ok [OF assms(1) dir] obtain es where es: "fs_list F p s = Inr es"
    "\<And>n y. name_ok n \<Longrightarrow> view s (child p n) = Some y \<Longrightarrow> (n, node_type y) \<in> set es" by blast
  from rm_entries_correct [OF assms(1,2,4), of es] list_some_law [OF assms(1) es(1)] obtain s1 where
    s1: "rm_entries F p es s = Some s1" "mounted s1" "view s1 = (\<lambda>q. if cleared p es q then None else view s q)"
    by fastforce
  have gone: "view s q = None" if "below p q" "\<not> cleared p es q" for q
    using below_entry [OF assms(1,2) that(1) _ es(2)] that(2) by blast
  have v1: "view s1 q = (if below p q then None else view s q)" for q
    using gone [of q] cleared_below [of p es q] by (auto simp: s1(3))
  have "view s1 p \<noteq> None" using dir by (simp add: v1 below_def)
  from unlink_leaf [OF s1(2) this _ assms(3)] v1 es(1) s1(1) show ?thesis
    by (auto simp: rm_rf_def fun_eq_iff prod_eq_iff)
qed

end

subsection \<open>Slots and the wipe\<close>

lemma below_child:
  assumes "CHR ''/'' \<notin> set f"
  shows "below q (child d f) \<longleftrightarrow> q = d \<or> below q d"
proof
  assume "below q (child d f)"
  then obtain r where "q @ ''/'' @ r = d @ ''/'' @ f" unfolding below_def child_def by metis
  then consider us where "q = d @ us" "us @ ''/'' @ r = ''/'' @ f" | us where "d = q @ us" "''/'' @ r = us @ ''/'' @ f"
    using append_eq_append_conv2 [of q "''/'' @ r" d "''/'' @ f"] by metis
  then show "q = d \<or> below q d"
  proof cases
    case 1
    with assms show ?thesis by (cases us) auto
  next
    case 2
    then show ?thesis by (cases us) (auto simp: below_def)
  qed
qed (auto simp: below_def child_def)

lemma dirs_child:
  "keys_dir = child ''/lfs'' ''keys''" "certs_dir = child ''/lfs'' ''certs''" "noise_dir = child ''/lfs'' ''noise''"
  "session_dir = child ''/lfs'' ''session''" "clients_dir = child ''/lfs'' ''clients''"
  by (simp_all add: child_def keys_dir_def certs_dir_def noise_dir_def session_dir_def clients_dir_def)

lemma below_root: "below q ''/lfs'' \<longleftrightarrow> q = []"
  using below_child [of "''lfs''" q "[]"] by (auto simp: child_def below_def)

lemma length_dec_str: "n < 10 ^ k \<Longrightarrow> 0 < k \<Longrightarrow> length (dec_str n) \<le> k"
proof (induction k arbitrary: n)
  case (Suc k)
  show ?case
  proof (cases "n < 10")
    case False
    with Suc.prems have "0 < k" by (cases k) simp_all
    moreover from Suc.prems have "n div 10 < 10 ^ k" by (simp add: less_mult_imp_div_less mult.commute)
    ultimately show ?thesis using Suc.IH [of "n div 10"] False by (simp add: dec_str.simps [of n])
  qed (simp add: dec_str.simps [of n])
qed simp

lemmas dirs_defs = keys_dir_def certs_dir_def noise_dir_def session_dir_def clients_dir_def
lemmas file_defs = CONFIG_PATH_def UNLOCK_SEQ_PATH_def UNLOCK_ATTEMPTS_PATH_def

lemma wiped_child:
  "wiped keys_dir" "wiped session_dir" "wiped (child keys_dir f)" "wiped (child session_dir f)"
  "wiped (child (child keys_dir f) g)"
  by (simp_all add: wiped_def below_def child_def)

lemma blob_path_prefix:
  assumes "p \<in> blob_paths" and "below q p"
  shows "wiped q \<or> q = ''/lfs'' \<or> q = []"
proof -
  have "q = child keys_dir (dec_str 0) \<or> q = keys_dir \<or> q = session_dir \<or> q = ''/lfs'' \<or> q = []"
    using assms unfolding blob_paths_def slot_path_def slot_dir_def
    by (auto simp: below_child) (auto simp: dirs_child below_child below_root)
  then show ?thesis using wiped_child by blast
qed

lemma blob_path_facts:
  assumes "p \<in> blob_paths"
  shows "length p \<le> 127 \<and> wiped p \<and> p \<notin> {keys_dir, certs_dir, noise_dir, session_dir, clients_dir}
    \<and> p \<notin> {CONFIG_PATH, UNLOCK_SEQ_PATH, UNLOCK_ATTEMPTS_PATH}
    \<and> \<not> below CONFIG_PATH p \<and> \<not> below UNLOCK_SEQ_PATH p \<and> \<not> below UNLOCK_ATTEMPTS_PATH p"
proof -
  have d: "dec_str 0 = ''0''" by (simp add: dec_str.simps digit_char_def char_of_eq_iff take_bit_eq_mod)
  have "p = ''/lfs/keys/0/key.bin'' \<or> p = ''/lfs/session/key.bin'' \<or> p = ''/lfs/session/id_key.bin''"
    using assms by (auto simp: blob_paths_def slot_path_def slot_dir_def child_def d keys_dir_def session_dir_def)
  moreover have "wiped p" using assms wiped_child by (auto simp: blob_paths_def slot_path_def slot_dir_def)
  ultimately show ?thesis by (elim disjE) (simp_all add: dirs_defs file_defs below_def)
qed

context fs_laws begin

lemma write_file_frame:
  assumes "mounted s" and "write_file F p d s = (r, s')" and "q \<noteq> p" and "\<not> below q p \<or> q = ''/lfs'' \<or> q = []"
  shows "view s' q = view s q"
proof -
  have "below q p \<and> q \<noteq> []" if "q \<in> set (dir_prefixes (take 127 p))"
  proof -
    from dir_prefixes_below [OF that] obtain r where "take 127 p = q @ ''/'' @ r" unfolding below_def by blast
    then have "p = q @ ''/'' @ (r @ drop 127 p)" by (metis append.assoc append_take_drop_id)
    with dir_prefixes_below [OF that] show ?thesis unfolding below_def by blast
  qed
  then show ?thesis using write_file_props [OF assms(1,2)] assms(3,4) root_law [OF assms(1)] by auto
qed

lemma write_file_short:
  assumes "mounted s" and "write_file F p d s = (r, s')" and "short_paths (view s)" and "length p \<le> 127"
  shows "short_paths (view s')"
  unfolding short_paths_def
proof (intro allI impI)
  fix q
  assume q: "view s' q \<noteq> None"
  show "length q \<le> 127"
  proof (cases "q = p \<or> below q p")
    case True
    then show ?thesis using assms(4) by (auto simp: below_def)
  next
    case False
    then show ?thesis using q write_file_frame [OF assms(1,2)] assms(3) by (auto simp: short_paths_def)
  qed
qed

lemma write_file_nofile:
  assumes "mounted s" and "write_file F p d s = (r, s')" and "q \<noteq> p" and "\<not> is_file (view s q)"
  shows "\<not> is_file (view s' q)"
  using write_file_props [OF assms(1,2)] assms(3,4) by (auto simp: is_file_def)

end

context fs_reliable begin

lemma slot_delete_view:
  assumes "mounted s" and "short_paths (view s)" and "slot < 2 ^ 32" and "\<not> is_file (view s (slot_dir slot))"
  shows "\<exists>s'. storage_slot_delete F slot s = Some (None, s') \<and> mounted s' \<and>
    (\<forall>q. q \<noteq> keys_dir \<longrightarrow> view s' q = (if q = slot_dir slot \<or> below (slot_dir slot) q then None else view s q)) \<and>
    (view s keys_dir \<noteq> None \<longrightarrow> view s' keys_dir = view s keys_dir)"
proof -
  let ?d = "slot_dir slot" and ?p = "slot_path slot ''key.bin''"
  obtain r s1 where w: "write_file F ?p (replicate KEY_BLOB_LEN 0xA5) s = (r, s1)" by (metis surj_pair)
  have len: "length ?p \<le> 127" using length_dec_str [of slot 10] assms(3)
    by (simp add: slot_path_def slot_dir_def child_def keys_dir_def)
  have ne: "?d \<noteq> ?p" "?d \<noteq> []" "?d \<noteq> ''/lfs''" "keys_dir \<noteq> ?p" "keys_dir \<noteq> ?d" "\<not> below ?d keys_dir"
    by (simp_all add: slot_path_def slot_dir_def child_def keys_dir_def below_def)
  have m1: "mounted s1" using write_file_props [OF assms(1) w] by blast
  from rm_rf_correct [OF m1 ne(2,3) write_file_short [OF assms(1) w assms(2) len]
    write_file_nofile [OF assms(1) w ne(1) assms(4)]]
  obtain s' where s': "rm_rf F ?d s1 = Some (None, s')" "mounted s'"
    "view s' = (\<lambda>q. if q = ?d \<or> below ?d q then None else view s1 q)" by blast
  have "view s1 q = view s q" if "q \<noteq> keys_dir" "q \<noteq> ?d" "\<not> below ?d q" for q
  proof (rule write_file_frame [OF assms(1) w])
    show "q \<noteq> ?p" using that(3) by (auto simp: slot_path_def below_def child_def)
    show "\<not> below q ?p \<or> q = ''/lfs'' \<or> q = []"
      using that(1,2) root_law [OF assms(1)] by (auto simp: slot_path_def slot_dir_def below_child dirs_child below_root)
  qed
  moreover have "view s keys_dir \<noteq> None \<Longrightarrow> view s1 keys_dir = view s keys_dir"
    using write_file_keeps [OF assms(1) w ne(4)] .
  ultimately show ?thesis using s' w ne by (simp add: storage_slot_delete_def)
qed

lemma rm_all_correct:
  assumes "mounted s" and "short_paths (view s)" and "\<forall>d \<in> set ds. d \<noteq> [] \<and> d \<noteq> ''/lfs'' \<and> \<not> is_file (view s d)"
  shows "\<exists>s'. rm_all F ds s = Some s' \<and> mounted s' \<and>
    view s' = (\<lambda>q. if \<exists>d \<in> set ds. q = d \<or> below d q then None else view s q)"
  using assms
proof (induction ds arbitrary: s)
  case (Cons d ds)
  from rm_rf_correct [OF Cons.prems(1) _ _ Cons.prems(2), of d] Cons.prems(3) obtain s1 where
    s1: "rm_rf F d s = Some (None, s1)" "mounted s1" "view s1 = (\<lambda>q. if q = d \<or> below d q then None else view s q)"
    by auto
  have "short_paths (view s1)" using Cons.prems(2) by (simp add: s1(3) short_paths_def)
  moreover have "\<forall>x \<in> set ds. x \<noteq> [] \<and> x \<noteq> ''/lfs'' \<and> \<not> is_file (view s1 x)"
    using Cons.prems(3) by (simp add: s1(3) is_file_def)
  ultimately obtain s' where "rm_all F ds s1 = Some s'" "mounted s'"
    "view s' = (\<lambda>q. if \<exists>d \<in> set ds. q = d \<or> below d q then None else view s1 q)"
    using Cons.IH [OF s1(2)] by blast
  with s1 show ?case by (auto simp: fun_eq_iff)
qed simp

lemma unlink_file:
  assumes "mounted s" and "f \<noteq> []" and "view s f \<noteq> Some Dir"
  shows "mounted (snd (fs_unlink F f s)) \<and> view (snd (fs_unlink F f s)) = (view s)(f := None)"
proof (cases "view s f")
  case None
  with unlink_absent [OF assms(1), of f] show ?thesis by auto
next
  case (Some x)
  have "f \<noteq> ''/lfs''" using root_law [OF assms(1)] assms(3) by auto
  with Some unlink_leaf [OF assms(1) _ below_leaf [OF assms], of f] show ?thesis by simp
qed

lemma wipe_write:
  assumes "mounted s" and "wipe_ready (view s)" and "write_file F p d s = (r, s')"
    and p: "p = slot_path 0 ''key.bin'' \<or> p = child session_dir ''key.bin'' \<or> p = child session_dir ''id_key.bin''"
  shows "mounted s' \<and> wipe_ready (view s') \<and> (\<forall>q. \<not> wiped q \<longrightarrow> view s' q = view s q)"
proof -
  have p': "p \<in> blob_paths" using p by (auto simp: blob_paths_def)
  note pre = blob_path_prefix [OF p'] and bp = blob_path_facts [OF p']
  have out: "view s' q = view s q" if "\<not> wiped q" for q
  proof (rule write_file_frame [OF assms(1,3)])
    show "q \<noteq> p" using bp that by blast
    show "\<not> below q p \<or> q = ''/lfs'' \<or> q = []" using pre [of q] that by blast
  qed
  have fil: "view s' q = view s q" if "q \<in> {CONFIG_PATH, UNLOCK_SEQ_PATH, UNLOCK_ATTEMPTS_PATH}" for q
    using bp that by (intro write_file_frame [OF assms(1,3)]) auto
  have dir: "\<not> is_file (view s' q)" if "q \<in> {keys_dir, certs_dir, noise_dir, session_dir, clients_dir}" for q
    using bp assms(2) that unfolding wipe_ready_def by (intro write_file_nofile [OF assms(1,3)]) auto
  have "short_paths (view s')"
    using assms(2) unfolding wipe_ready_def by (blast intro: write_file_short [OF assms(1,3)] conjunct1 [OF bp])
  moreover have "\<forall>f \<in> {CONFIG_PATH, UNLOCK_SEQ_PATH, UNLOCK_ATTEMPTS_PATH}. view s' f \<noteq> Some Dir"
    using assms(2) fil unfolding wipe_ready_def by simp
  ultimately have "wipe_ready (view s')" unfolding wipe_ready_def using dir by blast
  with out conjunct1 [OF write_file_props [OF assms(1,3)]] show ?thesis by simp
qed

lemma wipe_blobs_view:
  assumes "mounted s" and "wipe_ready (view s)"
  shows "mounted (wipe_blobs F s) \<and> wipe_ready (view (wipe_blobs F s)) \<and> (\<forall>q. \<not> wiped q \<longrightarrow> view (wipe_blobs F s) q = view s q)"
proof -
  let ?g = "replicate KEY_BLOB_LEN (0xA5 :: byte)"
  obtain r1 s1 where 1: "write_file F (slot_path 0 ''key.bin'') ?g s = (r1, s1)" by (metis surj_pair)
  obtain r2 s2 where 2: "write_file F (child session_dir ''key.bin'') ?g s1 = (r2, s2)" by (metis surj_pair)
  obtain r3 s3 where 3: "write_file F (child session_dir ''id_key.bin'') ?g s2 = (r3, s3)" by (metis surj_pair)
  have a: "mounted s1 \<and> wipe_ready (view s1) \<and> (\<forall>q. \<not> wiped q \<longrightarrow> view s1 q = view s q)"
    by (rule wipe_write [OF assms 1]) simp
  then have b: "mounted s2 \<and> wipe_ready (view s2) \<and> (\<forall>q. \<not> wiped q \<longrightarrow> view s2 q = view s1 q)"
    by (intro wipe_write [OF _ _ 2]) simp_all
  then have "mounted s3 \<and> wipe_ready (view s3) \<and> (\<forall>q. \<not> wiped q \<longrightarrow> view s3 q = view s2 q)"
    by (intro wipe_write [OF _ _ 3]) simp_all
  moreover have "wipe_blobs F s = s3" by (simp add: wipe_blobs_def 1 2 3)
  ultimately show ?thesis using a b by simp
qed

lemma secure_wipe_view:
  assumes "mounted (vfs v)" and "wipe_ready (view (vfs v))" and "storage_volume_trusted v"
  shows "\<exists>s'. storage_secure_wipe F v = Some (None, v\<lparr>vfs := s'\<rparr>) \<and> mounted s' \<and>
    view s' = (\<lambda>q. if wiped q then None else view (vfs v) q)"
proof -
  let ?ds = "[keys_dir, certs_dir, noise_dir, session_dir, clients_dir]" and ?s = "wipe_blobs F (vfs v)"
  note w = wipe_blobs_view [OF assms(1,2)]
  have "\<forall>d \<in> set ?ds. d \<noteq> [] \<and> d \<noteq> ''/lfs'' \<and> \<not> is_file (view ?s d)"
    using w by (simp add: wipe_ready_def) (simp add: dirs_defs)
  from rm_all_correct [OF _ _ this] w obtain s1 where s1: "rm_all F ?ds ?s = Some s1" "mounted s1"
    "view s1 = (\<lambda>q. if \<exists>d \<in> set ?ds. q = d \<or> below d q then None else view ?s q)"
    unfolding wipe_ready_def by blast
  have f: "view s1 q \<noteq> Some Dir" if "q \<in> {CONFIG_PATH, UNLOCK_SEQ_PATH, UNLOCK_ATTEMPTS_PATH}" for q
    using w that unfolding wipe_ready_def s1(3) by auto
  have ne: "CONFIG_PATH \<noteq> []" "UNLOCK_SEQ_PATH \<noteq> []" "UNLOCK_ATTEMPTS_PATH \<noteq> []" by (simp_all add: file_defs)
  define s2 where "s2 = snd (fs_unlink F CONFIG_PATH s1)"
  define s3 where "s3 = snd (fs_unlink F UNLOCK_SEQ_PATH s2)"
  define s4 where "s4 = snd (fs_unlink F UNLOCK_ATTEMPTS_PATH s3)"
  have 2: "mounted s2 \<and> view s2 = (view s1)(CONFIG_PATH := None)"
    unfolding s2_def using unlink_file [OF s1(2) ne(1)] f by blast
  then have 3: "mounted s3 \<and> view s3 = (view s2)(UNLOCK_SEQ_PATH := None)"
    unfolding s3_def using unlink_file [OF _ ne(2), of s2] f by simp
  then have 4: "mounted s4 \<and> view s4 = (view s3)(UNLOCK_ATTEMPTS_PATH := None)"
    unfolding s4_def using unlink_file [OF _ ne(3), of s3] f 2 by simp
  have "view s4 q = (if wiped q then None else view (vfs v) q)" for q
  proof (cases "wiped q")
    case True
    then show ?thesis using 2 3 4 by (auto simp: s1(3) wiped_def)
  next
    case False
    then have "view ?s q = view (vfs v) q" using w by blast
    with False show ?thesis using 2 3 4 by (auto simp: s1(3) wiped_def)
  qed
  moreover have "storage_secure_wipe F v = Some (None, v\<lparr>vfs := s4\<rparr>)"
    using assms(3) by (simp del: rm_all.simps add: storage_secure_wipe_def s1(1) s2_def s3_def s4_def split_beta Let_def)
  ultimately show ?thesis using 4 by (intro exI [of _ s4]) (simp add: fun_eq_iff)
qed

end

subsection \<open>Iterating over the issued certificates\<close>

lemma hex_nibble_Some: "hex_nibble c = Some d \<Longrightarrow> d < 16 \<and> c = hex_digit d"
proof -
  assume "hex_nibble c = Some d"
  then have "d < 16 \<and> (of_char c :: nat) = (if d < 10 then 48 + d else 87 + d)"
    by (auto simp: hex_nibble_def Let_def split: if_splits)
  moreover have "c = char_of (of_char c :: nat)" by simp
  ultimately show ?thesis unfolding hex_digit_def by metis
qed

lemma hex_decode_Some: "hex_decode n = Some bs \<Longrightarrow> n = hex_str bs"
proof (induction n arbitrary: bs rule: hex_decode.induct)
  case (3 a b cs)
  from "3.prems" obtain hi lo r where h: "hex_nibble a = Some hi" "hex_nibble b = Some lo" "hex_decode cs = Some r"
    "bs = word_of_nat (16 * hi + lo) # r"
    by (auto split: option.splits)
  note d = hex_nibble_Some [OF h(1)] hex_nibble_Some [OF h(2)]
  then have "16 * hi + lo < 256" by simp
  then have "unat (word_of_nat (16 * hi + lo) :: byte) = 16 * hi + lo" by (simp only: unat_of_nat) simp
  with d h "3.IH" show ?case by simp
qed simp_all

lemma serial_of_name_iff:
  "serial_of_name (n, t) = Some serial \<longleftrightarrow> t = FS_DIR_ENTRY_DIR \<and> n = hex_str serial \<and> 1 \<le> length serial \<and> length serial \<le> 20"
proof -
  have "hex_decode n = Some serial \<longleftrightarrow> n = hex_str serial" using hex_decode_Some by auto
  then show ?thesis by (auto simp: serial_of_name_def Suc_le_eq)
qed

lemma client_of_name_iff:
  "client_of_name (n, t) = Some i \<longleftrightarrow> t = FS_DIR_ENTRY_DIR \<and> n = hex_str i \<and> length i = 4"
  by (auto simp: client_of_name_def split: if_splits dest: hex_decode_Some)

lemma iter_entries_selected: "iter_entries sel cb es u s = iter_entries Some cb (List.map_filter sel es) u s"
  by (induction es arbitrary: u s) (auto simp: List.map_filter_simps split: option.splits prod.splits)

lemma in_selected: "k \<in> set (List.map_filter sel es) \<longleftrightarrow> (\<exists>n t. (n, t) \<in> set es \<and> sel (n, t) = Some k)"
  by (induction es) (auto simp: List.map_filter_simps split: option.splits)

lemma distinct_selected:
  assumes "distinct (map fst es)" and "\<And>n t k. sel (n, t) = Some k \<Longrightarrow> n = f k"
  shows "distinct (List.map_filter sel es)"
  using assms(1)
proof (induction es)
  case (Cons e es)
  obtain n t where e: "e = (n, t)" by (cases e)
  have "k \<notin> set (List.map_filter sel es)" if "sel (n, t) = Some k" for k
  proof
    assume "k \<in> set (List.map_filter sel es)"
    then obtain m t' where "(m, t') \<in> set es" "sel (m, t') = Some k" by (auto simp: in_selected)
    moreover from this(2) that have "m = n" using assms(2) by metis
    ultimately show False using Cons.prems e by force
  qed
  with Cons e show ?case by (auto simp: List.map_filter_simps split: option.splits)
qed (simp add: List.map_filter_simps)

lemma node_type_Dir: "FS_DIR_ENTRY_DIR = node_type x \<longleftrightarrow> x = Dir"
  by (cases x) simp_all

context fs_reliable begin

lemma selected_entries:
  assumes "mounted s" and "\<not> is_file (view s p)" and "p \<noteq> []"
    and sel: "\<And>n t k. sel (n, t) = Some k \<longleftrightarrow> t = FS_DIR_ENTRY_DIR \<and> n = hex_str k \<and> P k"
    and P: "\<And>k. P k \<Longrightarrow> k \<noteq> []"
  shows "\<exists>ks. distinct ks \<and> set ks = {k. P k \<and> view s (child p (hex_str k)) = Some Dir} \<and>
    (\<forall>f. (case fs_list F p s of Inl e \<Rightarrow> if e = ENOENT then f [] else g e | Inr es \<Rightarrow> f (List.map_filter sel es)) = f ks)"
proof (cases "view s p")
  case None
  have "view s (child p (hex_str k)) \<noteq> Some Dir" for k
    using path_law [OF assms(1,3), of "hex_str k"] None by (auto simp: child_def)
  with list_none_law [OF assms(1) None] show ?thesis by (intro exI [of _ "[]"]) simp
next
  case (Some x)
  with assms(2) have dir: "view s p = Some Dir" by (cases x) (auto simp: is_file_def)
  from list_ok [OF assms(1) dir] obtain es where es: "fs_list F p s = Inr es"
    "\<And>n y. name_ok n \<Longrightarrow> view s (child p n) = Some y \<Longrightarrow> (n, node_type y) \<in> set es" by blast
  note law = list_some_law [OF assms(1) es(1)]
  have "name_ok (hex_str k)" if "P k" for k using P [OF that] hex_str_no_slash [of k] by (cases k) (simp_all add: name_ok_def)
  then have "(hex_str k, FS_DIR_ENTRY_DIR) \<in> set es \<longleftrightarrow> view s (child p (hex_str k)) = Some Dir" if "P k" for k
    using that es(2) [of "hex_str k" Dir] law node_type_Dir by fastforce
  then have "set (List.map_filter sel es) = {k. P k \<and> view s (child p (hex_str k)) = Some Dir}"
    by (auto simp: in_selected sel)
  moreover have "distinct (List.map_filter sel es)"
    using law by (intro distinct_selected [of _ _ hex_str]) (auto simp: sel)
  ultimately show ?thesis using es(1) by (intro exI [of _ "List.map_filter sel es"]) simp
qed

lemma issued_iter:
  assumes "mounted s" and "\<not> is_file (view s certs_dir)"
  shows "\<exists>ks. distinct ks
    \<and> set ks = {serial. (1 \<le> length serial \<and> length serial \<le> 20) \<and> view s (child certs_dir (hex_str serial)) = Some Dir}
    \<and> storage_issued_certs_iter F cb u s = iter_entries Some cb ks u s"
proof -
  have ne: "certs_dir \<noteq> []" by (simp add: certs_dir_def)
  have sel: "serial_of_name (n, t) = Some k \<longleftrightarrow>
      t = FS_DIR_ENTRY_DIR \<and> n = hex_str k \<and> (1 \<le> length k \<and> length k \<le> 20)" for n t k
    by (rule serial_of_name_iff)
  have "1 \<le> length k \<and> length k \<le> 20 \<Longrightarrow> k \<noteq> []" for k :: "byte list" by auto
  from selected_entries [OF assms ne sel this, where g = "\<lambda>e. (Some (IterErr e), u, s)"] obtain ks where
    ks: "distinct ks" "set ks = {k. (1 \<le> length k \<and> length k \<le> 20) \<and> view s (child certs_dir (hex_str k)) = Some Dir}"
    "\<And>f. (case fs_list F certs_dir s of Inl e \<Rightarrow> if e = ENOENT then f [] else (Some (IterErr e), u, s)
       | Inr es \<Rightarrow> f (List.map_filter serial_of_name es)) = f ks" by auto
  have "storage_issued_certs_iter F cb u s = iter_entries Some cb ks u s"
    using ks(3) [of "\<lambda>ks. iter_entries Some cb ks u s"]
    by (auto simp: storage_issued_certs_iter_def iter_entries_selected [of serial_of_name] split: sum.splits if_splits)
  with ks show ?thesis by blast
qed

end

subsection \<open>A medium that loses what is written\<close>

interpretation lossy: fs_laws lossy_api mem_inv map_of
proof (unfold_locales, goal_cases)
  case (1 s)
  then show ?case by (rule mem.root_law)
next
  case (2 s p rest)
  then show ?case by (rule mem.path_law)
next
  case (3 s p r s')
  then show ?case using mem.mkdir_law [of s p r s'] by (simp add: lossy_api_def)
next
  case (4 s p r s')
  then show ?case using mem.open_w_law [of s p r s'] by (simp add: lossy_api_def)
next
  case (5 s p d k s')
  then show ?case by (simp add: lossy_api_def)
next
  case (6 s p r s')
  then show ?case by (simp add: lossy_api_def)
next
  case (7 s p s1 d s2 s3)
  then show ?case by (simp add: lossy_api_def)
next
  case (8 s p)
  then show ?case using mem.open_r_law [of s p] by (simp add: lossy_api_def)
next
  case (9 s p m d)
  then show ?case using mem.read_law [of s p m d] by (simp add: lossy_api_def)
next
  case (10 s p)
  then show ?case using mem.stat_none_law [of s p] by (simp add: lossy_api_def)
next
  case (11 s p t)
  then show ?case using mem.stat_some_law [of s p t] by (simp add: lossy_api_def)
next
  case (12 s p r s')
  then show ?case using mem.unlink_law [of s p r s'] by (simp add: lossy_api_def)
next
  case (13 s p)
  then show ?case using mem.list_none_law [of s p] by (simp add: lossy_api_def)
next
  case (14 s p es)
  then show ?case using mem.list_some_law [of s p es] by (simp add: lossy_api_def)
qed

context fs_reliable begin

lemmas stored = files.wr_rd and kept = files.wr_other and stays_mounted = files.wr_ok

lemma noise_keypair_stored:
  assumes "wc_laws K" and "mounted s" and "length priv \<le> 32" and "length pub \<le> 32"
    and "storage_noise_keypair_write F K priv pub s r = (None, s', r')"
  shows "storage_noise_keypair_read F K s' = Inr (priv, pub)"
proof -
  let ?k = "child noise_dir ''key.bin''" and ?p = "child noise_dir ''pub.bin''"
  from assms(5) obtain key blob s1 where key: "crypto_storage_key_derive K = Inr key"
    and enc: "crypto_encrypt_blob K key priv KEY_BLOB_LEN r = (Inr blob, r')"
    and w1: "write_file F ?k blob s = (None, s1)" and w2: "write_file F ?p pub s1 = (None, s')"
    by (auto simp: storage_noise_keypair_write_def write_key_blob_def split: sum.splits prod.splits option.splits)
  have "?p \<noteq> ?k" by simp
  with files.two_writes [OF assms(2) w1 w2] have "read_file F ?k KEY_BLOB_LEN s' = Inr (take KEY_BLOB_LEN blob)" by blast
  moreover have "length blob \<le> KEY_BLOB_LEN"
    using wc_laws.blob_length [OF assms(1) enc] assms(3) by (simp add: KEY_BLOB_LEN_def)
  moreover have "read_file F ?p 32 s' = Inr pub" using stored [OF stays_mounted [OF assms(2) w1] w2, of 32] assms(4) by simp
  ultimately show ?thesis
    using wc_laws.decrypt_encrypt [OF assms(1) enc assms(3)] key by (simp add: storage_noise_keypair_read_def res_simps)
qed

end

subsection \<open>Properties\<close>

lemma mkdir_each_cong: "fs_mkdir F = fs_mkdir G \<Longrightarrow> mkdir_each F qs s = mkdir_each G qs s"
  by (induction qs arbitrary: s) (auto split: prod.splits)

lemma mem_mkdir_existing: "\<forall>q \<in> set qs. map_of m q \<noteq> None \<Longrightarrow> mkdir_each mem_api qs m = (None, m)"
  by (induction qs) (auto simp: mem_mkdir_def)

lemma mem_write_file:
  assumes "path_ok m p" and "map_of m p \<noteq> Some Dir" and "length p \<le> 127"
  shows "write_file mem_api p d m = (None, AList.update p (File d) (AList.update p (File []) m))"
proof -
  have "map_of m q = Some Dir" if "q \<in> set (dir_prefixes p)" for q
    using dir_prefixes_below [OF that] assms(1) by (auto simp: below_def dest: path_okD [rotated])
  then have "mkdir_p mem_api p m = (None, m)"
    using assms(3) mem_mkdir_existing [of "dir_prefixes p" m] by (simp add: mkdir_p_def PATH_MAX_LEN_def)
  then show ?thesis using assms by (simp add: write_file_def mem_open_w_def mem_write_def update_conv' Let_def)
qed

lemma slot_dir_0: "slot_dir 0 = ''/lfs/keys/0''"
  by (simp add: slot_dir_def keys_dir_def child_def dec_str.simps digit_char_def char_of_eq_iff take_bit_eq_mod)

lemma demo_fs_inv: "mem_inv demo_fs"
  by (simp add: demo_fs_def mem_inv_def path_ok_def comp_ok_def name_ok_def upt_rec)

lemma demo_fs_ready: "wipe_ready (map_of demo_fs)"
  by (auto simp: demo_fs_def wipe_ready_def short_paths_def is_file_def dirs_defs file_defs)

text \<open>
  A key blob is stored.  When \<open>storage_key_write\<close> returns 0, the slot reads back
  the blob, cut to the caller's buffer; and whatever it returns, every file that
  could be read before, of this or another slot or elsewhere on the volume, still
  reads the same.
\<close>

theorem key_write_read:
  assumes "fs_reliable F mounted view" and "mounted s" and "storage_key_write F slot blob s = (r, s')"
  shows "(r = None \<longrightarrow> storage_key_read F slot cap s' = Inr (take cap blob))
    \<and> (slot' \<noteq> slot \<longrightarrow> storage_key_read F slot' cap s = Inr x \<longrightarrow> storage_key_read F slot' cap s' = Inr x)
    \<and> (q \<noteq> slot_path slot ''key.bin'' \<longrightarrow> read_file F q cap s = Inr x \<longrightarrow> read_file F q cap s' = Inr x)"
proof -
  have w: "write_file F (slot_path slot ''key.bin'') blob s = (r, s')"
    using assms(3) by (simp add: storage_key_write_def write_key_blob_def)
  have "storage_key_read F slot' cap s' = Inr x" if "slot' \<noteq> slot" "storage_key_read F slot' cap s = Inr x"
    using fs_reliable.kept [OF assms(1,2) w, of "slot_path slot' ''key.bin''"] that by (simp add: storage_key_read_def)
  moreover have "storage_key_read F slot cap s' = Inr (take cap blob)" if "r = None"
    using fs_reliable.stored [OF assms(1,2)] w that by (simp add: storage_key_read_def)
  ultimately show ?thesis using fs_reliable.kept [OF assms(1,2) w, of q] by simp
qed

theorem key_write_read_witness:
  "let s' = snd (storage_key_write mem_api 0 [9, 8, 7] demo_fs) in
   storage_key_read mem_api 0 2 s' = Inr [9, 8] \<and> read_file mem_api ''/lfs/config.bin'' 2 s' = Inr [1]"
proof -
  let ?w = "storage_key_write mem_api 0 [9, 8, 7] demo_fs"
  have s0: "slot_path 0 ''key.bin'' = ''/lfs/keys/0/key.bin''" by (simp add: slot_path_def slot_dir_0 child_def)
  have f: "map_of demo_fs ''/lfs/keys/0/key.bin'' = Some (File [5, 6])" by (simp add: demo_fs_def)
  have ok: "fst ?w = None"
    using mem_write_file [OF mem_inv_path [OF demo_fs_inv f]] f
    by (simp add: storage_key_write_def write_key_blob_def s0)
  have "?w = (fst ?w, snd ?w)" by simp
  note kw = key_write_read [OF memr.fs_reliable_axioms demo_fs_inv this, where cap = 2]
  have "read_file mem_api ''/lfs/config.bin'' 2 demo_fs = Inr [1]"
    by (simp add: read_file_def mem_defs demo_fs_def)
  with kw [where q = "''/lfs/config.bin''" and x = "[1]"] ok show ?thesis by (simp add: Let_def s0)
qed

text \<open>
  C24: \<open>storage_slot_delete\<close> removes the directory of the slot with all that is below
  it, and nothing else: it returns 0, and every other path keeps its content.  Only
  the directory of all slots may appear, if it was missing.
\<close>

theorem slot_delete_exact:
  assumes "fs_reliable F mounted view" and "mounted s" and "short_paths (view s)" and "slot < 2 ^ 32"
    and "\<not> is_file (view s (slot_dir slot))"
  shows "\<exists>s'. storage_slot_delete F slot s = Some (None, s') \<and> mounted s' \<and>
    (\<forall>q. q \<noteq> keys_dir \<longrightarrow> view s' q = (if q = slot_dir slot \<or> below (slot_dir slot) q then None else view s q)) \<and>
    (view s keys_dir \<noteq> None \<longrightarrow> view s' keys_dir = view s keys_dir)"
  by (rule fs_reliable.slot_delete_view [OF assms])

theorem slot_delete_exact_witness:
  "\<exists>s'. storage_slot_delete mem_api 0 demo_fs = Some (None, s') \<and> map_of s' ''/lfs/keys/0/key.bin'' = None
     \<and> map_of s' ''/lfs/keys'' = Some Dir \<and> map_of s' ''/lfs/config.bin'' = Some (File [1])"
proof -
  have "short_paths (map_of demo_fs)" "\<not> is_file (map_of demo_fs (slot_dir 0))"
    using demo_fs_ready by (simp_all add: wipe_ready_def slot_dir_0 demo_fs_def is_file_def)
  from slot_delete_exact [OF memr.fs_reliable_axioms demo_fs_inv this(1) _ this(2)] obtain s' where
    s': "storage_slot_delete mem_api 0 demo_fs = Some (None, s')"
    "\<And>q. q \<noteq> keys_dir \<Longrightarrow> map_of s' q = (if q = slot_dir 0 \<or> below (slot_dir 0) q then None else map_of demo_fs q)"
    "map_of demo_fs keys_dir \<noteq> None \<Longrightarrow> map_of s' keys_dir = map_of demo_fs keys_dir" by auto
  from s'(2) [of "''/lfs/keys/0/key.bin''"] s'(2) [of "''/lfs/config.bin''"] s'(3)
  have "map_of s' ''/lfs/keys/0/key.bin'' = None \<and> map_of s' ''/lfs/keys'' = Some Dir
      \<and> map_of s' ''/lfs/config.bin'' = Some (File [1])"
    by (simp add: slot_dir_0 keys_dir_def below_def demo_fs_def)
  with s'(1) show ?thesis by blast
qed

text \<open>
  C13: The secure wipe.  On a volume that is trusted it returns 0 after removing every
  key, issued certificate, noise key, session and client file and the three
  configuration files, with their directories, and leaves every other path as it
  was, the volume marker among them.  On a volume that belongs to another build or
  die it returns \<open>-EPERM\<close> and touches nothing.
\<close>

theorem secure_wipe_exact:
  assumes "fs_reliable F mounted view" and "mounted (vfs v)" and "wipe_ready (view (vfs v))"
  shows "(volume_state v = VOLUME_MISMATCH \<longrightarrow> storage_secure_wipe F v = Some (Some EPERM, v))
    \<and> (volume_state v \<noteq> VOLUME_MISMATCH \<longrightarrow>
        (\<exists>s'. storage_secure_wipe F v = Some (None, v\<lparr>vfs := s'\<rparr>) \<and> mounted s'
          \<and> view s' = (\<lambda>q. if wiped q then None else view (vfs v) q)
          \<and> view s' VOLUME_MARKER_PATH = view (vfs v) VOLUME_MARKER_PATH))"
proof -
  have "\<not> wiped VOLUME_MARKER_PATH"
    by (simp add: wiped_def VOLUME_MARKER_PATH_def file_defs dirs_defs below_def)
  moreover have "storage_volume_trusted v \<longleftrightarrow> volume_state v \<noteq> VOLUME_MISMATCH"
    by (simp add: storage_volume_trusted_def)
  moreover from this have "volume_state v = VOLUME_MISMATCH \<longrightarrow> storage_secure_wipe F v = Some (Some EPERM, v)"
    by (simp add: storage_secure_wipe_def)
  ultimately show ?thesis using fs_reliable.secure_wipe_view [OF assms] by force
qed

theorem secure_wipe_exact_witness:
  "\<exists>s'. storage_secure_wipe mem_api \<lparr>vfs = demo_fs, volume_state = VOLUME_VALID\<rparr> =
      Some (None, \<lparr>vfs = s', volume_state = VOLUME_VALID\<rparr>)
    \<and> map_of s' ''/lfs/keys/0/key.bin'' = None \<and> map_of s' ''/lfs/volume.bin'' = Some (File [2])"
proof -
  let ?v = "\<lparr>vfs = demo_fs, volume_state = VOLUME_VALID\<rparr>"
  have "\<exists>s'. storage_secure_wipe mem_api ?v = Some (None, ?v\<lparr>vfs := s'\<rparr>) \<and> mem_inv s'
      \<and> map_of s' = (\<lambda>q. if wiped q then None else map_of (vfs ?v) q)
      \<and> map_of s' VOLUME_MARKER_PATH = map_of (vfs ?v) VOLUME_MARKER_PATH"
    using demo_fs_inv demo_fs_ready
    by (intro mp [OF conjunct2 [OF secure_wipe_exact [OF memr.fs_reliable_axioms, of ?v]]]) simp_all
  then obtain s' where s': "storage_secure_wipe mem_api ?v = Some (None, ?v\<lparr>vfs := s'\<rparr>)"
    "map_of s' = (\<lambda>q. if wiped q then None else map_of (vfs ?v) q)"
    "map_of s' VOLUME_MARKER_PATH = map_of (vfs ?v) VOLUME_MARKER_PATH" by blast
  have "wiped ''/lfs/keys/0/key.bin''" by (simp add: wiped_def keys_dir_def below_def)
  with s'(2) have "map_of s' ''/lfs/keys/0/key.bin'' = None" by simp
  moreover have "map_of s' ''/lfs/volume.bin'' = Some (File [2])"
    using s'(3) unfolding VOLUME_MARKER_PATH_def by (simp add: demo_fs_def)
  ultimately show ?thesis using s'(1) by (intro exI [of _ s']) simp
qed

text \<open>
  C25: \<open>storage_init\<close> never formats a volume behind the user's back.  Unless the build
  allows formatting and the mount failed with an error that can mean a corrupt or
  blank volume, what \<open>fs_mkfs\<close> would do has no influence on the result or on the
  volume: a missing driver, a volume already mounted, a bad configuration and every
  build without the switch leave the data alone.  (That \<open>fs_mount\<close> itself does not
  format is the mount flag \<open>FS_MOUNT_FLAG_NO_FORMAT\<close>, a matter of the parameter.)
\<close>

theorem storage_init_no_format:
  assumes "\<not> may_format b \<or> fst (fs_mount F (vfs v)) \<in> {None, Some ENODEV, Some EBUSY, Some EINVAL, Some ENOTSUP, Some ENOENT}"
  shows "storage_init (F\<lparr>fs_mkfs := f\<rparr>) b v = storage_init F b v"
proof -
  let ?G = "F\<lparr>fs_mkfs := f\<rparr>"
  have "marker_read ?G s = marker_read F s" for s by (simp add: marker_read_def split: option.split)
  moreover have "storage_volume_marker_write ?G b w = storage_volume_marker_write F b w" for w
    by (simp add: storage_volume_marker_write_def cong: sum.case_cong option.case_cong prod.case_cong)
  ultimately have m: "storage_init_mounted ?G b w = storage_init_mounted F b w" for w
    by (simp add: storage_init_mounted_def storage_volume_verify_def marker_check_def Let_def)
  obtain r s where r: "fs_mount F (vfs v) = (r, s)" by (cases "fs_mount F (vfs v)")
  show ?thesis
  proof (cases "may_format b")
    case True
    with assms r have "r \<in> {None, Some ENODEV, Some EBUSY, Some EINVAL, Some ENOTSUP, Some ENOENT}" by simp
    then show ?thesis by (elim insertE emptyE) (simp_all add: storage_init_def r m)
  next
    case False
    then show ?thesis by (cases r) (simp_all add: storage_init_def r m)
  qed
qed

theorem storage_init_no_format_witness:
  "let F = mem_api\<lparr>fs_mount := \<lambda>m. (Some EIO, m)\<rparr>; v = \<lparr>vfs = demo_fs, volume_state = VOLUME_UNMARKED\<rparr> in
   storage_init (F\<lparr>fs_mkfs := \<lambda>m. (None, [])\<rparr>) demo_board v = storage_init F demo_board v"
  unfolding Let_def by (rule storage_init_no_format) (simp add: demo_board_def)

text \<open>
  The iteration over the issued certificates is complete and exact.  It calls the
  callback, in some order and until the callback fails, once for each serial of 1
  to 20 bytes whose hex name is a directory below \<open>/lfs/certs\<close>, and for nothing else.
\<close>

theorem issued_iter_exact:
  assumes "fs_reliable F mounted view" and "mounted s" and "\<not> is_file (view s certs_dir)"
  shows "\<exists>ks. distinct ks
    \<and> set ks = {serial. (1 \<le> length serial \<and> length serial \<le> 20) \<and> view s (child certs_dir (hex_str serial)) = Some Dir}
    \<and> storage_issued_certs_iter F cb u s = iter_entries Some cb ks u s"
  by (rule fs_reliable.issued_iter [OF assms])

theorem issued_iter_exact_witness:
  "\<exists>ks. distinct ks \<and> [0x0A, 0x1B] \<in> set ks \<and> [] \<notin> set ks
     \<and> storage_issued_certs_iter mem_api (\<lambda>k u s. (None, u @ [k], s)) [] demo_fs
       = iter_entries Some (\<lambda>k u s. (None, u @ [k], s)) ks [] demo_fs"
proof -
  have "map_of demo_fs (child certs_dir (hex_str [0x0A, 0x1B])) = Some Dir"
    by (simp add: child_def certs_dir_def hex_digit_def char_of_eq_iff take_bit_eq_mod demo_fs_def)
  moreover have "\<not> is_file (map_of demo_fs certs_dir)" by (simp add: certs_dir_def demo_fs_def is_file_def)
  ultimately show ?thesis
    using issued_iter_exact [OF memr.fs_reliable_axioms demo_fs_inv, of "\<lambda>k u s. (None, u @ [k], s)" "[]"] by force
qed

text \<open>
  C26: The static Noise key pair survives a reboot: when \<open>storage_noise_keypair_write\<close>
  returns 0, \<open>storage_noise_keypair_read\<close> decrypts the private key and returns the pair.
\<close>

theorem noise_keypair_roundtrip:
  assumes "fs_reliable F mounted view" and "wc_laws K" and "mounted s" and "length priv = 32" and "length pub = 32"
    and "storage_noise_keypair_write F K priv pub s r = (None, s', r')"
  shows "storage_noise_keypair_read F K s' = Inr (priv, pub)"
  using fs_reliable.noise_keypair_stored [OF assms(1-3) _ _ assms(6)] assms(4,5) by simp

theorem noise_keypair_roundtrip_witness:
  "let p = replicate 32 7; q = replicate 32 9; s' = fst (snd (storage_noise_keypair_write mem_api toy_wc p q demo_noise_fs 3))
   in storage_noise_keypair_read mem_api toy_wc s' = Inr (p, q)"
proof -
  let ?p = "replicate 32 (7 :: byte)" and ?q = "replicate 32 (9 :: byte)"
  let ?kp = "child noise_dir ''key.bin''" and ?pp = "child noise_dir ''pub.bin''"
  have inv: "mem_inv demo_noise_fs"
    by (simp add: demo_noise_fs_def mem_inv_def path_ok_def comp_ok_def name_ok_def upt_rec)
  have f: "map_of demo_noise_fs ?kp = Some (File [])" "map_of demo_noise_fs ?pp = Some (File [])"
    by (simp_all add: demo_noise_fs_def child_def noise_dir_def)
  have len: "length ?kp \<le> 127" "length ?pp \<le> 127" by (simp_all add: child_def noise_dir_def)
  obtain key where key: "crypto_storage_key_derive toy_wc = Inr key"
    by (simp add: crypto_storage_key_derive_def crypto_hkdf_sha256_def toy_wc_def eio_def)
  obtain blob r' where blob: "crypto_encrypt_blob toy_wc key ?p KEY_BLOB_LEN 3 = (Inr blob, r')"
    by (simp add: crypto_encrypt_blob_def toy_wc_def KEY_BLOB_LEN_def)
  obtain s1 where s1: "write_file mem_api ?kp blob demo_noise_fs = (None, s1)"
    using mem_write_file [OF mem_inv_path [OF inv f(1)]] f(1) len by simp
  have m1: "mem_inv s1" using memr.stays_mounted [OF inv s1] .
  have "map_of s1 ?pp = Some (File [])" using mem.write_file_keeps [OF inv s1] f(2) by simp
  then obtain s2 where "write_file mem_api ?pp ?q s1 = (None, s2)"
    using mem_write_file [OF mem_inv_path [OF m1]] len by simp
  with key blob s1 have w: "storage_noise_keypair_write mem_api toy_wc ?p ?q demo_noise_fs 3 = (None, s2, r')"
    by (simp add: storage_noise_keypair_write_def write_key_blob_def)
  from noise_keypair_roundtrip [OF memr.fs_reliable_axioms toy.wc_laws_axioms inv _ _ w] w show ?thesis
    by (simp add: Let_def)
qed


end
