(* ===== verification/Gesture.thy ===== *)
theory Gesture
  imports Storage
begin

text \<open>
  The tap state machine, \<open>firmware/src/gesture/gesture.c\<close>: the accumulators of the three
  tap alphabets, unlocking with its rate limit, changing the unlock sequence, and
  the confirm, reset and pairing prompts.

  The static variables are the record \<open>gesture\<close>; the Kconfig values are the record
  \<open>gconf\<close>; \<open>k_uptime_get()\<close> is the argument \<open>now\<close>.  A buffer with its counter is the list
  of the bytes that count.  The delayable work items are their due times, the calls
  of the LED driver and of the callbacks are traces.  Every operation runs under
  \<open>gesture_mutex\<close>; \<open>gesture_report_tap\<close> takes it twice, and the event relation at the end
  has the two halves as separate events.  A callback runs with the mutex released;
  what it does to this module are further events.
\<close>

datatype cantil_state = CANTIL_STATE_LOCKED | CANTIL_STATE_UNLOCKED | CANTIL_STATE_PAIRING
  | CANTIL_STATE_CHANGE_SEQ_CONFIRM | CANTIL_STATE_CHANGE_SEQ_VERIFY
  | CANTIL_STATE_AWAITING_CONFIRM | CANTIL_STATE_AWAITING_RESET | CANTIL_STATE_AWAITING_PAIR

datatype cantil_tap = CANTIL_TAP_SINGLE | CANTIL_TAP_DOUBLE

datatype cantil_confirm_result = CANTIL_CONFIRM_OK | CANTIL_CONFIRM_DENIED | CANTIL_CONFIRM_TIMEOUT

datatype led_pattern = LED_PATTERN_OFF | LED_PATTERN_LOCKED | LED_PATTERN_LOCKED_DEFAULT_SEQ | LED_PATTERN_LOCKED_CONNECTED
  | LED_PATTERN_UNLOCKED | LED_PATTERN_PAIRING | LED_PATTERN_PAIRING_PROMPT | LED_PATTERN_PASSKEY_PROMPT
  | LED_PATTERN_CONFIRM_PROMPT | LED_PATTERN_RESET_PROMPT | LED_PATTERN_RESET_WIPING | LED_PATTERN_THINKING
  | LED_PATTERN_IDENTITY_MISMATCH | LED_PATTERN_FW_INVALID | LED_PATTERN_POST | LED_PATTERN_TAP_ACK | LED_PATTERN_DIGIT_ACK
  | LED_PATTERN_LOCKING | LED_PATTERN_READY | LED_PATTERN_VERIFY | LED_PATTERN_MUST_CHANGE_SEQ | LED_PATTERN_UNLOCKED_BLINK
  | LED_PATTERN_PAIRING_SUCCESS | LED_PATTERN_CONFIRMED | LED_PATTERN_RESET_COMPLETE | LED_PATTERN_FAIL
  | LED_PATTERN_SEQ_ERROR | LED_PATTERN_BUSY_REJECT | LED_PATTERN_FW_APPLIED

datatype alphabet = COUNT_COLOR | STDT_BINARY | STDT_PLAIN

datatype 'cb confirm_cb = rehearsal_cb | Host 'cb

record gconf =
  alphabet :: alphabet
  palette_size :: byte
  rate_limit_threshold :: "32 word"
  reset_requires_unlock :: bool
  gesture_rehearsal :: bool
  inactivity_timeout_sec :: int
  digit_timeout_ms :: int
  seq_timeout_ms :: int
  confirm_timeout_sec :: int
  reset_timeout_sec :: int
  pair_timeout_sec :: int

record ('cb, 'fs) gesture =
  gstate :: cantil_state
  digit_buf :: "byte list"
  cur_taps :: byte
  silence_phase :: nat
  bit_buf :: "byte list"
  unlock_seq :: "byte list"
  using_default_seq :: bool
  forced_change_active :: bool
  new_seq :: "byte list"
  last_activity_ms :: int
  failure_count :: "32 word"
  lockout_until_ms :: int
  pending_cb :: "'cb confirm_cb option"
  pre_await_state :: cantil_state
  silence_due :: "int option"
  confirm_due :: "int option"
  reset_due :: "int option"
  pair_due :: "int option"
  led_idle :: led_pattern
  oneshots :: "led_pattern list"
  delivered :: "('cb confirm_cb \<times> cantil_confirm_result) list"
  gfs :: 'fs

definition SEQ_MAX_LEN :: nat where "SEQ_MAX_LEN = 16"
definition DIGIT_INVALID :: byte where "DIGIT_INVALID = 0xFF"

definition SEQ_UNLOCK_DEFAULT :: "gconf \<Rightarrow> byte list" where
  "SEQ_UNLOCK_DEFAULT c =
    (case alphabet c of COUNT_COLOR \<Rightarrow> [1, 1, 1, 1] | STDT_BINARY \<Rightarrow> [0, 0, 0, 0] | STDT_PLAIN \<Rightarrow> [1, 2, 1, 2])"

definition SEQ_LOCK :: "gconf \<Rightarrow> byte list" where
  "SEQ_LOCK c = (case alphabet c of COUNT_COLOR \<Rightarrow> [1] | STDT_BINARY \<Rightarrow> [0] | STDT_PLAIN \<Rightarrow> [1])"

definition SEQ_PAIRING_TRIGGER :: "gconf \<Rightarrow> byte list" where
  "SEQ_PAIRING_TRIGGER c = (case alphabet c of COUNT_COLOR \<Rightarrow> [2, 2] | STDT_BINARY \<Rightarrow> [1, 1] | STDT_PLAIN \<Rightarrow> [2, 2, 1, 1])"

definition SEQ_CHANGE_SEQ_TRIGGER :: "gconf \<Rightarrow> byte list" where
  "SEQ_CHANGE_SEQ_TRIGGER c =
    (case alphabet c of COUNT_COLOR \<Rightarrow> [3, 3, 3] | STDT_BINARY \<Rightarrow> [2, 2, 2] | STDT_PLAIN \<Rightarrow> [2, 1, 2, 1])"

definition SEQ_CONFIRM :: "gconf \<Rightarrow> byte list" where
  "SEQ_CONFIRM c = (case alphabet c of COUNT_COLOR \<Rightarrow> [3, 3, 3] | STDT_BINARY \<Rightarrow> [3, 3, 3] | STDT_PLAIN \<Rightarrow> [2, 2, 2])"

definition SEQ_REHEARSE_PROTECT :: "gconf \<Rightarrow> byte list" where
  "SEQ_REHEARSE_PROTECT c = (case alphabet c of COUNT_COLOR \<Rightarrow> [4, 4] | STDT_BINARY \<Rightarrow> [4, 4] | STDT_PLAIN \<Rightarrow> [2, 2, 2, 2])"

definition SEQ_REHEARSE_RESET :: "gconf \<Rightarrow> byte list" where
  "SEQ_REHEARSE_RESET c = (case alphabet c of COUNT_COLOR \<Rightarrow> [5, 5] | STDT_BINARY \<Rightarrow> [5, 5] | STDT_PLAIN \<Rightarrow> [1, 1, 1, 1])"

definition led_play_oneshot :: "led_pattern \<Rightarrow> ('cb, 'fs) gesture \<Rightarrow> ('cb, 'fs) gesture" where
  "led_play_oneshot p g = g\<lparr>oneshots := oneshots g @ [p]\<rparr>"

definition led_set_idle :: "led_pattern \<Rightarrow> ('cb, 'fs) gesture \<Rightarrow> ('cb, 'fs) gesture" where
  "led_set_idle p g = g\<lparr>led_idle := p\<rparr>"

subsection \<open>Rate limit\<close>

definition lockout_seconds_for_count :: "gconf \<Rightarrow> 32 word \<Rightarrow> 32 word" where
  "lockout_seconds_for_count c n =
    (let over = n - rate_limit_threshold c in
     if over = 1 then 10 else if over = 2 then 30 else if over = 3 then 120 else if over = 4 then 600 else 3600)"

definition unlock_in_lockout :: "int \<Rightarrow> ('cb, 'fs) gesture \<Rightarrow> bool" where
  "unlock_in_lockout now g \<longleftrightarrow> lockout_until_ms g \<noteq> 0 \<and> now < lockout_until_ms g"

definition note_unlock_failure :: "'fs fs_api \<Rightarrow> gconf \<Rightarrow> int \<Rightarrow> ('cb, 'fs) gesture \<Rightarrow> ('cb, 'fs) gesture" where
  "note_unlock_failure F c now g =
    (let n = failure_count g + 1;
         (_, s) = storage_unlock_attempts_write F n (gfs g);
         g = g\<lparr>failure_count := n, gfs := s\<rparr>
     in if n > rate_limit_threshold c
        then g\<lparr>lockout_until_ms := now + int (unat (lockout_seconds_for_count c n)) * 1000\<rparr>
        else g)"

definition note_unlock_success :: "'fs fs_api \<Rightarrow> ('cb, 'fs) gesture \<Rightarrow> ('cb, 'fs) gesture" where
  "note_unlock_success F g =
    (if failure_count g \<noteq> 0
     then g\<lparr>failure_count := 0, lockout_until_ms := 0, gfs := snd (storage_unlock_attempts_write F 0 (gfs g))\<rparr>
     else g)"

subsection \<open>Helpers\<close>

definition reset_accumulator :: "gconf \<Rightarrow> ('cb, 'fs) gesture \<Rightarrow> ('cb, 'fs) gesture" where
  "reset_accumulator c g =
    (case alphabet c of
       COUNT_COLOR \<Rightarrow> g\<lparr>digit_buf := [], cur_taps := 0, silence_phase := 0\<rparr>
     | STDT_BINARY \<Rightarrow> g\<lparr>digit_buf := [], bit_buf := []\<rparr>
     | STDT_PLAIN \<Rightarrow> g\<lparr>digit_buf := []\<rparr>)"

definition seq_match :: "byte list \<Rightarrow> byte list \<Rightarrow> bool" where
  "seq_match a b \<longleftrightarrow> length a = length b \<and> a = b"

definition is_factory_default :: "gconf \<Rightarrow> byte list \<Rightarrow> bool" where
  "is_factory_default c s \<longleftrightarrow> seq_match s (SEQ_UNLOCK_DEFAULT c)"

definition seq_has_invalid :: "byte list \<Rightarrow> bool" where
  "seq_has_invalid s \<longleftrightarrow> list_ex (\<lambda>d. d = DIGIT_INVALID) s"

definition idle_for_state :: "('cb, 'fs) gesture \<Rightarrow> cantil_state \<Rightarrow> led_pattern" where
  "idle_for_state g s =
    (case s of
       CANTIL_STATE_LOCKED \<Rightarrow> if using_default_seq g then LED_PATTERN_LOCKED_DEFAULT_SEQ else LED_PATTERN_LOCKED
     | CANTIL_STATE_UNLOCKED \<Rightarrow> LED_PATTERN_UNLOCKED
     | CANTIL_STATE_PAIRING \<Rightarrow> LED_PATTERN_PAIRING
     | CANTIL_STATE_AWAITING_PAIR \<Rightarrow> LED_PATTERN_PAIRING_PROMPT
     | CANTIL_STATE_AWAITING_CONFIRM \<Rightarrow> LED_PATTERN_CONFIRM_PROMPT
     | CANTIL_STATE_AWAITING_RESET \<Rightarrow> LED_PATTERN_RESET_PROMPT
     | CANTIL_STATE_CHANGE_SEQ_CONFIRM \<Rightarrow> LED_PATTERN_UNLOCKED
     | CANTIL_STATE_CHANGE_SEQ_VERIFY \<Rightarrow> LED_PATTERN_UNLOCKED)"

definition transition :: "cantil_state \<Rightarrow> ('cb, 'fs) gesture \<Rightarrow> ('cb, 'fs) gesture" where
  "transition nxt g = led_set_idle (idle_for_state g nxt) (g\<lparr>gstate := nxt\<rparr>)"

definition deliver_confirm :: "cantil_confirm_result \<Rightarrow> ('cb, 'fs) gesture \<Rightarrow> ('cb, 'fs) gesture" where
  "deliver_confirm r g =
    (case pending_cb g of
       None \<Rightarrow> g
     | Some cb \<Rightarrow> g\<lparr>pending_cb := None, delivered := delivered g @ [(cb, r)]\<rparr>)"

subsection \<open>Timeouts\<close>

definition confirm_timeout_fn :: "('cb, 'fs) gesture \<Rightarrow> ('cb, 'fs) gesture" where
  "confirm_timeout_fn g =
    (if gstate g = CANTIL_STATE_AWAITING_CONFIRM
     then deliver_confirm CANTIL_CONFIRM_TIMEOUT (led_play_oneshot LED_PATTERN_FAIL (transition CANTIL_STATE_UNLOCKED g))
     else g)"

definition reset_timeout_fn :: "('cb, 'fs) gesture \<Rightarrow> ('cb, 'fs) gesture" where
  "reset_timeout_fn g =
    (if gstate g = CANTIL_STATE_AWAITING_RESET
     then deliver_confirm CANTIL_CONFIRM_TIMEOUT (led_play_oneshot LED_PATTERN_FAIL (transition (pre_await_state g) g))
     else g)"

definition pair_timeout_fn :: "('cb, 'fs) gesture \<Rightarrow> ('cb, 'fs) gesture" where
  "pair_timeout_fn g =
    (if gstate g = CANTIL_STATE_AWAITING_PAIR
     then deliver_confirm CANTIL_CONFIRM_TIMEOUT (led_play_oneshot LED_PATTERN_FAIL (transition (pre_await_state g) g))
     else g)"

subsection \<open>Closing digits and sequences\<close>

definition close_digit_locked :: "gconf \<Rightarrow> ('cb, 'fs) gesture \<Rightarrow> ('cb, 'fs) gesture" where
  "close_digit_locked c g =
    (if cur_taps g = 0 \<or> length (digit_buf g) \<ge> SEQ_MAX_LEN then g\<lparr>cur_taps := 0\<rparr>
     else
       let digit = (if cur_taps g > palette_size c then DIGIT_INVALID else cur_taps g) in
       led_play_oneshot LED_PATTERN_DIGIT_ACK (g\<lparr>digit_buf := digit_buf g @ [digit], cur_taps := 0\<rparr>))"

text \<open>
  The codes of the complete triples of bits, then \<open>DIGIT_INVALID\<close> for one or two bits that
  are left over; at most \<open>SEQ_MAX_LEN\<close> digits.
\<close>

definition triple_code :: "byte \<Rightarrow> byte \<Rightarrow> byte \<Rightarrow> byte" where
  "triple_code b0 b1 b2 =
    (let code = or (or (push_bit 2 b0) (push_bit 1 b1)) b2 in if code = 7 then DIGIT_INVALID else code)"

fun binary_digits :: "nat \<Rightarrow> byte list \<Rightarrow> byte list" where
  "binary_digits 0 bs = []"
| "binary_digits (Suc n) [] = []"
| "binary_digits (Suc n) (b0 # b1 # b2 # bs) = triple_code b0 b1 b2 # binary_digits n bs"
| "binary_digits (Suc n) bs = [DIGIT_INVALID]"

definition close_sequence_binary_locked :: "('cb, 'fs) gesture \<Rightarrow> ('cb, 'fs) gesture" where
  "close_sequence_binary_locked g =
    (if bit_buf g = [] then g\<lparr>digit_buf := []\<rparr>
     else g\<lparr>digit_buf := binary_digits SEQ_MAX_LEN (bit_buf g), bit_buf := []\<rparr>)"

subsection \<open>A complete sequence\<close>

definition process_locked :: "'fs fs_api \<Rightarrow> gconf \<Rightarrow> int \<Rightarrow> bool \<Rightarrow> ('cb, 'fs) gesture \<Rightarrow> ('cb, 'fs) gesture" where
  "process_locked F c now has_invalid g =
    (if \<not> has_invalid \<and> seq_match (digit_buf g) (unlock_seq g) then
       let g = note_unlock_success F g in
       if using_default_seq g then
         transition CANTIL_STATE_CHANGE_SEQ_CONFIRM
           (led_play_oneshot LED_PATTERN_MUST_CHANGE_SEQ (g\<lparr>forced_change_active := True\<rparr>))
       else led_play_oneshot LED_PATTERN_UNLOCKED_BLINK (transition CANTIL_STATE_UNLOCKED g)
     else
       led_play_oneshot (if has_invalid then LED_PATTERN_SEQ_ERROR else LED_PATTERN_FAIL) (note_unlock_failure F c now g))"

definition process_unlocked :: "gconf \<Rightarrow> int \<Rightarrow> bool \<Rightarrow> ('cb, 'fs) gesture \<Rightarrow> ('cb, 'fs) gesture" where
  "process_unlocked c now has_invalid g =
    (if has_invalid then led_play_oneshot LED_PATTERN_SEQ_ERROR g
     else if seq_match (digit_buf g) (SEQ_LOCK c) then
       transition CANTIL_STATE_LOCKED (led_play_oneshot LED_PATTERN_LOCKING g)
     else if seq_match (digit_buf g) (SEQ_PAIRING_TRIGGER c) then transition CANTIL_STATE_PAIRING g
     else if seq_match (digit_buf g) (SEQ_CHANGE_SEQ_TRIGGER c) then
       led_play_oneshot LED_PATTERN_READY (transition CANTIL_STATE_CHANGE_SEQ_CONFIRM g)
     else if gesture_rehearsal c \<and> seq_match (digit_buf g) (SEQ_REHEARSE_PROTECT c) then
       (transition CANTIL_STATE_AWAITING_CONFIRM (g\<lparr>pending_cb := Some rehearsal_cb\<rparr>))
         \<lparr>confirm_due := Some (now + confirm_timeout_sec c * 1000)\<rparr>
     else if gesture_rehearsal c \<and> seq_match (digit_buf g) (SEQ_REHEARSE_RESET c) then
       (transition CANTIL_STATE_AWAITING_RESET (g\<lparr>pending_cb := Some rehearsal_cb\<rparr>))
         \<lparr>reset_due := Some (now + reset_timeout_sec c * 1000)\<rparr>
     else led_play_oneshot LED_PATTERN_FAIL g)"

definition process_change_confirm :: "bool \<Rightarrow> ('cb, 'fs) gesture \<Rightarrow> ('cb, 'fs) gesture" where
  "process_change_confirm has_invalid g =
    (if has_invalid then led_play_oneshot LED_PATTERN_SEQ_ERROR g
     else if length (digit_buf g) > 0 \<and> length (digit_buf g) \<le> SEQ_MAX_LEN then
       led_play_oneshot LED_PATTERN_VERIFY (transition CANTIL_STATE_CHANGE_SEQ_VERIFY (g\<lparr>new_seq := digit_buf g\<rparr>))
     else g)"

definition process_change_verify :: "'fs fs_api \<Rightarrow> gconf \<Rightarrow> bool \<Rightarrow> ('cb, 'fs) gesture \<Rightarrow> ('cb, 'fs) gesture" where
  "process_change_verify F c has_invalid g =
    (if \<not> has_invalid \<and> seq_match (digit_buf g) (new_seq g) then
       let g = g\<lparr>unlock_seq := new_seq g, using_default_seq := is_factory_default c (new_seq g),
                 forced_change_active := False, gfs := snd (storage_unlock_seq_write F (new_seq g) (gfs g))\<rparr>
       in led_play_oneshot LED_PATTERN_UNLOCKED_BLINK (transition CANTIL_STATE_UNLOCKED g)
     else if forced_change_active g then
       led_play_oneshot LED_PATTERN_FAIL (transition CANTIL_STATE_LOCKED (g\<lparr>forced_change_active := False\<rparr>))
     else led_play_oneshot LED_PATTERN_FAIL (transition CANTIL_STATE_UNLOCKED g))"

definition process_awaiting_confirm :: "gconf \<Rightarrow> bool \<Rightarrow> ('cb, 'fs) gesture \<Rightarrow> ('cb, 'fs) gesture" where
  "process_awaiting_confirm c has_invalid g =
    (let g = g\<lparr>confirm_due := None\<rparr> in
     if \<not> has_invalid \<and> seq_match (digit_buf g) (SEQ_CONFIRM c) then
       deliver_confirm CANTIL_CONFIRM_OK (led_play_oneshot LED_PATTERN_CONFIRMED (transition CANTIL_STATE_UNLOCKED g))
     else
       deliver_confirm CANTIL_CONFIRM_DENIED (led_play_oneshot LED_PATTERN_FAIL (transition CANTIL_STATE_UNLOCKED g)))"

definition process_awaiting_reset :: "bool \<Rightarrow> ('cb, 'fs) gesture \<Rightarrow> ('cb, 'fs) gesture" where
  "process_awaiting_reset has_invalid g =
    (let g = g\<lparr>reset_due := None\<rparr> in
     if \<not> has_invalid \<and> seq_match (digit_buf g) (unlock_seq g) then
       deliver_confirm CANTIL_CONFIRM_OK (led_play_oneshot LED_PATTERN_CONFIRMED (transition (pre_await_state g) g))
     else
       deliver_confirm CANTIL_CONFIRM_DENIED (led_play_oneshot LED_PATTERN_FAIL (transition (pre_await_state g) g)))"

definition process_awaiting_pair :: "gconf \<Rightarrow> bool \<Rightarrow> ('cb, 'fs) gesture \<Rightarrow> ('cb, 'fs) gesture" where
  "process_awaiting_pair c has_invalid g =
    (let g = g\<lparr>pair_due := None\<rparr> in
     if \<not> has_invalid \<and> seq_match (digit_buf g) (SEQ_PAIRING_TRIGGER c) then
       deliver_confirm CANTIL_CONFIRM_OK (led_play_oneshot LED_PATTERN_PAIRING_SUCCESS (transition (pre_await_state g) g))
     else
       deliver_confirm CANTIL_CONFIRM_DENIED (led_play_oneshot LED_PATTERN_FAIL (transition (pre_await_state g) g)))"

definition process_sequence :: "'fs fs_api \<Rightarrow> gconf \<Rightarrow> int \<Rightarrow> ('cb, 'fs) gesture \<Rightarrow> ('cb, 'fs) gesture" where
  "process_sequence F c now g =
    (let has_invalid = seq_has_invalid (digit_buf g);
         g = led_set_idle (idle_for_state g (gstate g)) g
     in case gstate g of
          CANTIL_STATE_LOCKED \<Rightarrow> process_locked F c now has_invalid g
        | CANTIL_STATE_UNLOCKED \<Rightarrow> process_unlocked c now has_invalid g
        | CANTIL_STATE_CHANGE_SEQ_CONFIRM \<Rightarrow> process_change_confirm has_invalid g
        | CANTIL_STATE_CHANGE_SEQ_VERIFY \<Rightarrow> process_change_verify F c has_invalid g
        | CANTIL_STATE_AWAITING_CONFIRM \<Rightarrow> process_awaiting_confirm c has_invalid g
        | CANTIL_STATE_AWAITING_RESET \<Rightarrow> process_awaiting_reset has_invalid g
        | CANTIL_STATE_AWAITING_PAIR \<Rightarrow> process_awaiting_pair c has_invalid g
        | CANTIL_STATE_PAIRING \<Rightarrow> g)"

definition silence_timeout_fn :: "'fs fs_api \<Rightarrow> gconf \<Rightarrow> int \<Rightarrow> ('cb, 'fs) gesture \<Rightarrow> ('cb, 'fs) gesture" where
  "silence_timeout_fn F c now g =
    (case alphabet c of
       COUNT_COLOR \<Rightarrow>
         if silence_phase g = 1 then
           (close_digit_locked c g)\<lparr>silence_phase := 2, silence_due := Some (now + seq_timeout_ms c)\<rparr>
         else
           let g = g\<lparr>silence_phase := 0\<rparr> in
           if length (digit_buf g) > 0 then reset_accumulator c (process_sequence F c now g) else g
     | STDT_BINARY \<Rightarrow>
         let g = close_sequence_binary_locked g;
             g = (if length (digit_buf g) > 0 then process_sequence F c now g else g)
         in reset_accumulator c g
     | STDT_PLAIN \<Rightarrow>
         if length (digit_buf g) > 0 then reset_accumulator c (process_sequence F c now g) else g)"

subsection \<open>Interface\<close>

text \<open>\<open>tap_imu_init\<close> and \<open>tap_mic_init\<close> start the drivers; their results are only logged.\<close>

definition gesture_init :: "'fs fs_api \<Rightarrow> gconf \<Rightarrow> int \<Rightarrow> ('cb, 'fs) gesture \<Rightarrow> ('cb, 'fs) gesture" where
  "gesture_init F c now g =
    (let sq = (case storage_unlock_seq_read F SEQ_MAX_LEN (gfs g) of
                 Inr stored \<Rightarrow> if length stored > 0 \<and> length stored \<le> SEQ_MAX_LEN then stored else SEQ_UNLOCK_DEFAULT c
               | Inl _ \<Rightarrow> SEQ_UNLOCK_DEFAULT c);
         n = (case storage_unlock_attempts_read F (gfs g) of Inr persisted \<Rightarrow> persisted | Inl _ \<Rightarrow> 0)
     in reset_accumulator c
          (g\<lparr>unlock_seq := sq, using_default_seq := is_factory_default c sq, forced_change_active := False,
             failure_count := n, lockout_until_ms := 0, last_activity_ms := now\<rparr>))"

definition tap_dropped :: "int \<Rightarrow> ('cb, 'fs) gesture \<Rightarrow> bool" where
  "tap_dropped now g \<longleftrightarrow> gstate g = CANTIL_STATE_LOCKED \<and> unlock_in_lockout now g"

definition tap_accumulate :: "gconf \<Rightarrow> int \<Rightarrow> cantil_tap \<Rightarrow> ('cb, 'fs) gesture \<Rightarrow> ('cb, 'fs) gesture" where
  "tap_accumulate c now tap g =
    (case alphabet c of
       COUNT_COLOR \<Rightarrow>
         let inc = (if tap = CANTIL_TAP_DOUBLE then 2 else 1);
             g = (if unat (cur_taps g) + inc \<le> 0xFF then g\<lparr>cur_taps := cur_taps g + word_of_nat inc\<rparr> else g)
         in g\<lparr>silence_phase := 1, silence_due := Some (now + digit_timeout_ms c)\<rparr>
     | STDT_BINARY \<Rightarrow>
         let g = (if length (bit_buf g) < SEQ_MAX_LEN * 3
                  then g\<lparr>bit_buf := bit_buf g @ [if tap = CANTIL_TAP_DOUBLE then 1 else 0]\<rparr> else g)
         in g\<lparr>silence_due := Some (now + seq_timeout_ms c)\<rparr>
     | STDT_PLAIN \<Rightarrow>
         let g = (if length (digit_buf g) < SEQ_MAX_LEN
                  then g\<lparr>digit_buf := digit_buf g @ [if tap = CANTIL_TAP_DOUBLE then 2 else 1]\<rparr> else g)
         in g\<lparr>silence_due := Some (now + seq_timeout_ms c)\<rparr>)"

definition tap_ack :: "('cb, 'fs) gesture \<Rightarrow> ('cb, 'fs) gesture" where
  "tap_ack g = led_play_oneshot LED_PATTERN_TAP_ACK (led_set_idle LED_PATTERN_OFF g)"

definition gesture_report_tap :: "gconf \<Rightarrow> int \<Rightarrow> cantil_tap \<Rightarrow> ('cb, 'fs) gesture \<Rightarrow> ('cb, 'fs) gesture" where
  "gesture_report_tap c now tap g =
    (if tap_dropped now g then led_play_oneshot LED_PATTERN_BUSY_REJECT g
     else tap_accumulate c now tap (tap_ack g))"

definition gesture_report_raw_tap :: "gconf \<Rightarrow> int \<Rightarrow> ('cb, 'fs) gesture \<Rightarrow> ('cb, 'fs) gesture" where
  "gesture_report_raw_tap c now g = gesture_report_tap c now CANTIL_TAP_SINGLE g"

definition gesture_get_state :: "gconf \<Rightarrow> int \<Rightarrow> ('cb, 'fs) gesture \<Rightarrow> cantil_state \<times> ('cb, 'fs) gesture" where
  "gesture_get_state c now g =
    (if gstate g = CANTIL_STATE_UNLOCKED \<and> now - last_activity_ms g \<ge> inactivity_timeout_sec c * 1000
     then (CANTIL_STATE_LOCKED, led_set_idle LED_PATTERN_LOCKED (g\<lparr>gstate := CANTIL_STATE_LOCKED\<rparr>))
     else (gstate g, g))"

definition gesture_reset_inactivity_timer :: "int \<Rightarrow> ('cb, 'fs) gesture \<Rightarrow> ('cb, 'fs) gesture" where
  "gesture_reset_inactivity_timer now g = g\<lparr>last_activity_ms := now\<rparr>"

text \<open>The sequence is \<open>None\<close> for a null pointer; \<open>len\<close> bytes of it are copied.\<close>

definition gesture_set_unlock_seq :: "'fs fs_api \<Rightarrow> gconf \<Rightarrow> byte list option \<Rightarrow> byte \<Rightarrow> ('cb, 'fs) gesture
    \<Rightarrow> errno option \<times> ('cb, 'fs) gesture" where
  "gesture_set_unlock_seq F c sq len g =
    (case sq of
       None \<Rightarrow> (Some EINVAL, g)
     | Some sq \<Rightarrow>
         if len = 0 \<or> unat len > SEQ_MAX_LEN then (Some EINVAL, g)
         else if gstate g \<noteq> CANTIL_STATE_UNLOCKED then (Some EBUSY, g)
         else
           let sq = take (unat len) sq;
               (wr, s) = storage_unlock_seq_write F sq (gfs g)
           in (wr, g\<lparr>unlock_seq := sq, using_default_seq := is_factory_default c sq, gfs := s\<rparr>))"

definition gesture_request_confirm :: "gconf \<Rightarrow> int \<Rightarrow> 'cb \<Rightarrow> ('cb, 'fs) gesture \<Rightarrow> errno option \<times> ('cb, 'fs) gesture" where
  "gesture_request_confirm c now cb g =
    (if gstate g \<noteq> CANTIL_STATE_UNLOCKED then (Some EBUSY, g)
     else if pending_cb g \<noteq> None then (Some EALREADY, g)
     else (None, (transition CANTIL_STATE_AWAITING_CONFIRM (reset_accumulator c (g\<lparr>pending_cb := Some (Host cb)\<rparr>)))
       \<lparr>confirm_due := Some (now + confirm_timeout_sec c * 1000)\<rparr>))"

definition gesture_request_reset :: "gconf \<Rightarrow> int \<Rightarrow> 'cb \<Rightarrow> ('cb, 'fs) gesture \<Rightarrow> errno option \<times> ('cb, 'fs) gesture" where
  "gesture_request_reset c now cb g =
    (if reset_requires_unlock c \<and> gstate g \<noteq> CANTIL_STATE_UNLOCKED then (Some EBUSY, g)
     else if \<not> reset_requires_unlock c \<and> gstate g \<noteq> CANTIL_STATE_UNLOCKED \<and> gstate g \<noteq> CANTIL_STATE_LOCKED
     then (Some EBUSY, g)
     else if pending_cb g \<noteq> None then (Some EALREADY, g)
     else (None, (transition CANTIL_STATE_AWAITING_RESET
         (reset_accumulator c (g\<lparr>pending_cb := Some (Host cb), pre_await_state := gstate g\<rparr>)))
       \<lparr>reset_due := Some (now + reset_timeout_sec c * 1000)\<rparr>))"

definition gesture_request_pair_confirm :: "gconf \<Rightarrow> int \<Rightarrow> 'cb \<Rightarrow> ('cb, 'fs) gesture
    \<Rightarrow> errno option \<times> ('cb, 'fs) gesture" where
  "gesture_request_pair_confirm c now cb g =
    (if gstate g \<noteq> CANTIL_STATE_UNLOCKED \<and> gstate g \<noteq> CANTIL_STATE_LOCKED then (Some EBUSY, g)
     else if pending_cb g \<noteq> None then (Some EALREADY, g)
     else (None, (transition CANTIL_STATE_AWAITING_PAIR
         (reset_accumulator c (g\<lparr>pending_cb := Some (Host cb), pre_await_state := gstate g\<rparr>)))
       \<lparr>pair_due := Some (now + pair_timeout_sec c * 1000)\<rparr>))"

subsection \<open>The device as a transition system\<close>

text \<open>
  \<open>power_on\<close> are the static initialisers.  An event is one critical section: the passing
  of time, the two halves of \<open>gesture_report_tap\<close>, a work item that is due, a call from
  the host side, or a power cycle, which keeps the file system only.  \<open>do_event\<close> is
  \<open>None\<close> where the event is not possible.  A caller of \<open>gesture_set_unlock_seq\<close> passes at
  least \<open>len\<close> bytes.
\<close>

definition power_on :: "'fs \<Rightarrow> ('cb, 'fs) gesture" where
  "power_on s =
    \<lparr>gstate = CANTIL_STATE_LOCKED, digit_buf = [], cur_taps = 0, silence_phase = 0, bit_buf = [], unlock_seq = [],
     using_default_seq = False, forced_change_active = False, new_seq = [], last_activity_ms = 0, failure_count = 0,
     lockout_until_ms = 0, pending_cb = None, pre_await_state = CANTIL_STATE_LOCKED, silence_due = None,
     confirm_due = None, reset_due = None, pair_due = None, led_idle = LED_PATTERN_OFF, oneshots = [],
     delivered = [], gfs = s\<rparr>"

record ('cb, 'fs) device =
  clock :: int
  gest :: "('cb, 'fs) gesture"
  in_flight :: "cantil_tap list"

definition boot :: "'fs fs_api \<Rightarrow> gconf \<Rightarrow> 'fs \<Rightarrow> ('cb, 'fs) device" where
  "boot F c s = \<lparr>clock = 0, gest = gesture_init F c 0 (power_on s), in_flight = []\<rparr>"

datatype 'cb event = Elapse int | Tap_Begin cantil_tap | Tap_End | Silence | Confirm_Timeout | Reset_Timeout | Pair_Timeout
  | Get_State | Activity | Set_Unlock_Seq "byte list option" byte | Request_Confirm 'cb | Request_Reset 'cb
  | Request_Pair 'cb | Reboot

definition fire :: "int option \<Rightarrow> ('cb, 'fs) gesture \<Rightarrow> ('cb, 'fs) device \<Rightarrow> ('cb, 'fs) device option" where
  "fire due g d = (case due of Some t \<Rightarrow> if t \<le> clock d then Some (d\<lparr>gest := g\<rparr>) else None | None \<Rightarrow> None)"

fun do_event :: "'fs fs_api \<Rightarrow> gconf \<Rightarrow> 'cb event \<Rightarrow> ('cb, 'fs) device \<Rightarrow> ('cb, 'fs) device option" where
  "do_event F c (Elapse ms) d = (if ms \<ge> 0 then Some (d\<lparr>clock := clock d + ms\<rparr>) else None)"
| "do_event F c (Tap_Begin tap) d =
    Some (if tap_dropped (clock d) (gest d) then d\<lparr>gest := led_play_oneshot LED_PATTERN_BUSY_REJECT (gest d)\<rparr>
          else d\<lparr>gest := tap_ack (gest d), in_flight := in_flight d @ [tap]\<rparr>)"
| "do_event F c Tap_End d =
    (case in_flight d of [] \<Rightarrow> None
     | tap # taps \<Rightarrow> Some (d\<lparr>gest := tap_accumulate c (clock d) tap (gest d), in_flight := taps\<rparr>))"
| "do_event F c Silence d =
    fire (silence_due (gest d)) (silence_timeout_fn F c (clock d) ((gest d)\<lparr>silence_due := None\<rparr>)) d"
| "do_event F c Confirm_Timeout d = fire (confirm_due (gest d)) (confirm_timeout_fn ((gest d)\<lparr>confirm_due := None\<rparr>)) d"
| "do_event F c Reset_Timeout d = fire (reset_due (gest d)) (reset_timeout_fn ((gest d)\<lparr>reset_due := None\<rparr>)) d"
| "do_event F c Pair_Timeout d = fire (pair_due (gest d)) (pair_timeout_fn ((gest d)\<lparr>pair_due := None\<rparr>)) d"
| "do_event F c Get_State d = Some (d\<lparr>gest := snd (gesture_get_state c (clock d) (gest d))\<rparr>)"
| "do_event F c Activity d = Some (d\<lparr>gest := gesture_reset_inactivity_timer (clock d) (gest d)\<rparr>)"
| "do_event F c (Set_Unlock_Seq sq len) d =
    (if (case sq of None \<Rightarrow> True | Some bs \<Rightarrow> unat len \<le> length bs)
     then Some (d\<lparr>gest := snd (gesture_set_unlock_seq F c sq len (gest d))\<rparr>) else None)"
| "do_event F c (Request_Confirm cb) d = Some (d\<lparr>gest := snd (gesture_request_confirm c (clock d) cb (gest d))\<rparr>)"
| "do_event F c (Request_Reset cb) d = Some (d\<lparr>gest := snd (gesture_request_reset c (clock d) cb (gest d))\<rparr>)"
| "do_event F c (Request_Pair cb) d = Some (d\<lparr>gest := snd (gesture_request_pair_confirm c (clock d) cb (gest d))\<rparr>)"
| "do_event F c Reboot d = Some (boot F c (gfs (gest d)))"

fun run :: "'fs fs_api \<Rightarrow> gconf \<Rightarrow> 'cb event list \<Rightarrow> ('cb, 'fs) device \<Rightarrow> ('cb, 'fs) device option" where
  "run F c [] d = Some d"
| "run F c (e # es) d = Option.bind (do_event F c e d) (run F c es)"

inductive reachable :: "'fs fs_api \<Rightarrow> gconf \<Rightarrow> ('cb, 'fs) device \<Rightarrow> bool" for F :: "'fs fs_api" and c :: gconf where
  reachable_boot: "reachable F c (boot F c s)"
| reachable_event: "reachable F c d \<Longrightarrow> do_event F c e d = Some d' \<Longrightarrow> reachable F c d'"

fun awaiting :: "cantil_state \<Rightarrow> bool" where
  "awaiting CANTIL_STATE_AWAITING_CONFIRM = True"
| "awaiting CANTIL_STATE_AWAITING_RESET = True"
| "awaiting CANTIL_STATE_AWAITING_PAIR = True"
| "awaiting _ = False"

definition gesture_inv :: "gconf \<Rightarrow> ('cb, 'fs) gesture \<Rightarrow> bool" where
  "gesture_inv c g \<longleftrightarrow> length (digit_buf g) \<le> SEQ_MAX_LEN \<and> length (bit_buf g) \<le> SEQ_MAX_LEN * 3
    \<and> unlock_seq g \<noteq> [] \<and> length (unlock_seq g) \<le> SEQ_MAX_LEN \<and> length (new_seq g) \<le> SEQ_MAX_LEN
    \<and> (gstate g = CANTIL_STATE_CHANGE_SEQ_VERIFY \<longrightarrow> new_seq g \<noteq> []) \<and> silence_phase g \<le> 2
    \<and> using_default_seq g = is_factory_default c (unlock_seq g)
    \<and> (pending_cb g \<noteq> None \<longleftrightarrow> awaiting (gstate g))
    \<and> (forced_change_active g \<longrightarrow> gstate g \<in> {CANTIL_STATE_CHANGE_SEQ_CONFIRM, CANTIL_STATE_CHANGE_SEQ_VERIFY})
    \<and> pre_await_state g \<in> {CANTIL_STATE_LOCKED, CANTIL_STATE_UNLOCKED}"

text \<open>The device is open when the owner's sequence has been entered and it was not locked since.\<close>

definition open_state :: "('cb, 'fs) gesture \<Rightarrow> bool" where
  "open_state g \<longleftrightarrow> gstate g \<in> {CANTIL_STATE_UNLOCKED, CANTIL_STATE_PAIRING, CANTIL_STATE_CHANGE_SEQ_CONFIRM,
      CANTIL_STATE_CHANGE_SEQ_VERIFY, CANTIL_STATE_AWAITING_CONFIRM}
    \<or> gstate g \<in> {CANTIL_STATE_AWAITING_RESET, CANTIL_STATE_AWAITING_PAIR} \<and> pre_await_state g = CANTIL_STATE_UNLOCKED"

text \<open>The digits that a firing of the silence timer hands to \<open>process_sequence\<close>, if it does.\<close>

definition closed_digits :: "gconf \<Rightarrow> ('cb, 'fs) gesture \<Rightarrow> byte list" where
  "closed_digits c g =
    (case alphabet c of
       COUNT_COLOR \<Rightarrow> if silence_phase g = 1 then [] else digit_buf g
     | STDT_BINARY \<Rightarrow> binary_digits SEQ_MAX_LEN (bit_buf g)
     | STDT_PLAIN \<Rightarrow> digit_buf g)"

subsection \<open>Notions for the statements\<close>

text \<open>What a firing of the silence timer does is \<open>process_sequence\<close> on the closed digits, if there are any.\<close>

definition closed :: "gconf \<Rightarrow> ('cb, 'fs) gesture \<Rightarrow> ('cb, 'fs) gesture" where
  "closed c g = g\<lparr>digit_buf := closed_digits c g, bit_buf := (if alphabet c = STDT_BINARY then [] else bit_buf g),
     silence_phase := (if alphabet c = COUNT_COLOR then 0 else silence_phase g)\<rparr>"

text \<open>\<open>answered d\<close>: the callbacks answered so far, then the one that waits for its answer.\<close>

definition answered :: "('cb, 'fs) gesture \<Rightarrow> 'cb confirm_cb list" where
  "answered g = map fst (delivered g) @ (case pending_cb g of None \<Rightarrow> [] | Some cb \<Rightarrow> [cb])"

fun accepted :: "gconf \<Rightarrow> 'cb event \<Rightarrow> ('cb, 'fs) device \<Rightarrow> 'cb confirm_cb list" where
  "accepted c (Request_Confirm cb) d = (if fst (gesture_request_confirm c (clock d) cb (gest d)) = None then [Host cb] else [])"
| "accepted c (Request_Reset cb) d = (if fst (gesture_request_reset c (clock d) cb (gest d)) = None then [Host cb] else [])"
| "accepted c (Request_Pair cb) d = (if fst (gesture_request_pair_confirm c (clock d) cb (gest d)) = None then [Host cb] else [])"
| "accepted c e d = []"

fun all_accepted :: "'fs fs_api \<Rightarrow> gconf \<Rightarrow> 'cb event list \<Rightarrow> ('cb, 'fs) device \<Rightarrow> 'cb confirm_cb list" where
  "all_accepted F c [] d = []"
| "all_accepted F c (e # es) d =
    (case do_event F c e d of None \<Rightarrow> [] | Some d' \<Rightarrow> accepted c e d @ all_accepted F c es d')"

text \<open>The sequence that answers the prompt of a state with OK.\<close>

definition answer_seq :: "gconf \<Rightarrow> ('cb, 'fs) gesture \<Rightarrow> byte list option" where
  "answer_seq c g =
    (case gstate g of CANTIL_STATE_AWAITING_CONFIRM \<Rightarrow> Some (SEQ_CONFIRM c)
     | CANTIL_STATE_AWAITING_RESET \<Rightarrow> Some (unlock_seq g)
     | CANTIL_STATE_AWAITING_PAIR \<Rightarrow> Some (SEQ_PAIRING_TRIGGER c) | _ \<Rightarrow> None)"

definition answers :: "('cb, 'fs) gesture \<Rightarrow> cantil_confirm_result \<Rightarrow> ('cb, 'fs) gesture \<Rightarrow> bool" where
  "answers g r g' \<longleftrightarrow> (\<exists>cb. pending_cb g = Some cb \<and> pending_cb g' = None \<and> delivered g' = delivered g @ [(cb, r)])"

definition same_answers :: "('cb, 'fs) gesture \<Rightarrow> ('cb, 'fs) gesture \<Rightarrow> bool" where
  "same_answers g g' \<longleftrightarrow> pending_cb g' = pending_cb g \<and> delivered g' = delivered g"

definition good_answer :: "gconf \<Rightarrow> 'cb event \<Rightarrow> ('cb, 'fs) gesture \<Rightarrow> ('cb, 'fs) gesture \<Rightarrow> bool" where
  "good_answer c e g g' \<longleftrightarrow> same_answers g g' \<or> (\<exists>r. answers g r g' \<and>
    (r = CANTIL_CONFIRM_OK \<longrightarrow> e = Silence \<and> answer_seq c g = Some (closed_digits c g) \<and> \<not> seq_has_invalid (closed_digits c g)))"

definition tap_events :: "cantil_tap \<Rightarrow> 'cb event list" where
  "tap_events t = [Tap_Begin t, Tap_End]"

definition digit_ok :: "gconf \<Rightarrow> byte \<Rightarrow> bool" where
  "digit_ok c x \<longleftrightarrow> x \<noteq> DIGIT_INVALID \<and>
    (case alphabet c of COUNT_COLOR \<Rightarrow> 0 < x \<and> x \<le> palette_size c | STDT_BINARY \<Rightarrow> x < 7 | STDT_PLAIN \<Rightarrow> x = 1 \<or> x = 2)"

definition digit_events :: "gconf \<Rightarrow> byte \<Rightarrow> 'cb event list" where
  "digit_events c x =
    (case alphabet c of
       COUNT_COLOR \<Rightarrow> concat (replicate (unat x) (tap_events CANTIL_TAP_SINGLE)) @ [Elapse (digit_timeout_ms c), Silence]
     | STDT_BINARY \<Rightarrow> concat (map (\<lambda>i. tap_events (if bit x i then CANTIL_TAP_DOUBLE else CANTIL_TAP_SINGLE)) [2, 1, 0])
     | STDT_PLAIN \<Rightarrow> tap_events (if x = 2 then CANTIL_TAP_DOUBLE else CANTIL_TAP_SINGLE))"

definition type_events :: "gconf \<Rightarrow> byte list \<Rightarrow> 'cb event list" where
  "type_events c ds = concat (map (digit_events c) ds) @ [Elapse (seq_timeout_ms c), Silence]"

text \<open>\<open>same_core g g'\<close>: the states differ at most in the accumulators, the silence timer and the LED.\<close>

definition same_core :: "('cb, 'fs) gesture \<Rightarrow> ('cb, 'fs) gesture \<Rightarrow> bool" where
  "same_core g g' \<longleftrightarrow> gstate g' = gstate g \<and> unlock_seq g' = unlock_seq g \<and> using_default_seq g' = using_default_seq g
    \<and> forced_change_active g' = forced_change_active g \<and> new_seq g' = new_seq g \<and> last_activity_ms g' = last_activity_ms g
    \<and> failure_count g' = failure_count g \<and> lockout_until_ms g' = lockout_until_ms g \<and> pending_cb g' = pending_cb g
    \<and> pre_await_state g' = pre_await_state g \<and> delivered g' = delivered g \<and> gfs g' = gfs g"

text \<open>Taps are accepted, and none is half way in.\<close>

definition listening :: "('cb, 'fs) device \<Rightarrow> bool" where
  "listening d \<longleftrightarrow> in_flight d = [] \<and>
    (gstate (gest d) \<noteq> CANTIL_STATE_LOCKED \<or> lockout_until_ms (gest d) = 0 \<or> lockout_until_ms (gest d) \<le> clock d)"

definition timeouts_ok :: "gconf \<Rightarrow> bool" where
  "timeouts_ok c \<longleftrightarrow> 0 \<le> digit_timeout_ms c \<and> 0 \<le> seq_timeout_ms c"

definition digit_bits :: "byte \<Rightarrow> byte list" where
  "digit_bits x = map (\<lambda>i. of_bool (bit x i)) [2, 1, 0]"

text \<open>What the accumulator holds after the digits \<open>ds\<close>.\<close>

definition typed :: "gconf \<Rightarrow> byte list \<Rightarrow> ('cb, 'fs) device \<Rightarrow> bool" where
  "typed c ds d \<longleftrightarrow> listening d \<and>
    (ds \<noteq> [] \<longrightarrow> silence_due (gest d) = Some (clock d + seq_timeout_ms c)) \<and>
    (case alphabet c of
       COUNT_COLOR \<Rightarrow> digit_buf (gest d) = ds \<and> cur_taps (gest d) = 0 \<and> silence_phase (gest d) \<noteq> 1
     | STDT_BINARY \<Rightarrow> bit_buf (gest d) = concat (map digit_bits ds)
     | STDT_PLAIN \<Rightarrow> digit_buf (gest d) = ds)"

definition demo_conf :: gconf where
  "demo_conf = \<lparr>alphabet = COUNT_COLOR, palette_size = 6, rate_limit_threshold = 3, reset_requires_unlock = False,
     gesture_rehearsal = False, inactivity_timeout_sec = 300, digit_timeout_ms = 1500, seq_timeout_ms = 1500,
     confirm_timeout_sec = 10, reset_timeout_sec = 30, pair_timeout_sec = 30\<rparr>"

definition demo_gesture_fs :: memfs where
  "demo_gesture_fs = [(''/lfs'', Dir), (''/lfs/config_unlock_seq.bin'', File [2, 1]),
     (''/lfs/config_unlock_attempts.bin'', File [9, 0, 0, 0])]"

definition bypass_events :: "unit event list" where
  "bypass_events = type_events demo_conf [1]
    @ [Request_Pair (), Elapse 26000] @ digit_events demo_conf 2 @ digit_events demo_conf 1
    @ [Elapse 1000, Pair_Timeout, Elapse 500, Silence]"

end
