(* ===== verification/Gesture_Proofs.thy ===== *)
theory Gesture_Proofs
  imports Gesture
begin

text \<open>
  The proofs about the tap state machine: its invariant, what opens the device, the
  answers to requests, what typing a sequence does in each state, and the properties.
\<close>

subsection \<open>What the operations leave alone\<close>

lemmas small_defs = led_play_oneshot_def led_set_idle_def transition_def

lemma length_binary_digits: "length (binary_digits n bs) \<le> n"
  by (induction n bs rule: binary_digits.induct) auto

lemma default_length [simp]: "SEQ_UNLOCK_DEFAULT c \<noteq> [] \<and> length (SEQ_UNLOCK_DEFAULT c) \<le> SEQ_MAX_LEN"
  by (simp add: SEQ_UNLOCK_DEFAULT_def SEQ_MAX_LEN_def split: alphabet.split)

lemma reset_accumulator_simps [simp]:
  "gstate (reset_accumulator c g) = gstate g" "unlock_seq (reset_accumulator c g) = unlock_seq g"
  "using_default_seq (reset_accumulator c g) = using_default_seq g" "digit_buf (reset_accumulator c g) = []"
  "forced_change_active (reset_accumulator c g) = forced_change_active g" "new_seq (reset_accumulator c g) = new_seq g"
  "pending_cb (reset_accumulator c g) = pending_cb g" "pre_await_state (reset_accumulator c g) = pre_await_state g"
  "delivered (reset_accumulator c g) = delivered g" "failure_count (reset_accumulator c g) = failure_count g"
  "lockout_until_ms (reset_accumulator c g) = lockout_until_ms g" "gfs (reset_accumulator c g) = gfs g"
  "last_activity_ms (reset_accumulator c g) = last_activity_ms g"
  by (simp_all add: reset_accumulator_def split: alphabet.split)

lemma inv_reset_accumulator: "gesture_inv c g \<Longrightarrow> gesture_inv c (reset_accumulator c g)"
  by (simp add: gesture_inv_def reset_accumulator_def split: alphabet.split)

lemma inv_tap: "gesture_inv c g \<Longrightarrow> gesture_inv c (tap_accumulate c now tap g)"
  by (auto simp: gesture_inv_def tap_accumulate_def Let_def split: alphabet.split)

lemma inv_note_failure: "gesture_inv c g \<Longrightarrow> gesture_inv c (note_unlock_failure F c now g)"
  by (auto simp: gesture_inv_def note_unlock_failure_def Let_def split_beta)

lemma inv_note_success: "gesture_inv c g \<Longrightarrow> gesture_inv c (note_unlock_success F g)"
  by (auto simp: gesture_inv_def note_unlock_success_def)

lemma inv_led [simp]: "gesture_inv c (led_play_oneshot p g) = gesture_inv c g" "gesture_inv c (led_set_idle p g) = gesture_inv c g"
  by (simp_all add: gesture_inv_def small_defs)

lemma inv_process_locked: "gesture_inv c g \<Longrightarrow> gstate g = CANTIL_STATE_LOCKED \<Longrightarrow> gesture_inv c (process_locked F c now h g)"
  using inv_note_failure [of c g F now]
  by (auto simp: process_locked_def Let_def) (auto simp: gesture_inv_def note_unlock_success_def small_defs)

lemma inv_process_unlocked:
  "gesture_inv c g \<Longrightarrow> gstate g = CANTIL_STATE_UNLOCKED \<Longrightarrow> gesture_inv c (process_unlocked c now h g)"
  by (auto simp: process_unlocked_def) (auto simp: gesture_inv_def small_defs)

lemma inv_process_change_confirm:
  "gesture_inv c g \<Longrightarrow> gstate g = CANTIL_STATE_CHANGE_SEQ_CONFIRM \<Longrightarrow> gesture_inv c (process_change_confirm h g)"
  by (auto simp: process_change_confirm_def) (auto simp: gesture_inv_def small_defs)

lemma inv_process_change_verify:
  "gesture_inv c g \<Longrightarrow> gstate g = CANTIL_STATE_CHANGE_SEQ_VERIFY \<Longrightarrow> gesture_inv c (process_change_verify F c h g)"
  by (auto simp: process_change_verify_def Let_def) (auto simp: gesture_inv_def small_defs)

lemma inv_deliver:
  assumes "gesture_inv c g" and "awaiting (gstate g)" and "x = CANTIL_STATE_LOCKED \<or> x = CANTIL_STATE_UNLOCKED"
  shows "gesture_inv c (deliver_confirm r (led_play_oneshot p (transition x g)))"
  using assms by (cases "pending_cb g") (auto simp: gesture_inv_def deliver_confirm_def small_defs)

lemma inv_due [simp]:
  "gesture_inv c (g\<lparr>confirm_due := x\<rparr>) = gesture_inv c g" "gesture_inv c (g\<lparr>reset_due := x\<rparr>) = gesture_inv c g"
  "gesture_inv c (g\<lparr>pair_due := x\<rparr>) = gesture_inv c g" "gesture_inv c (g\<lparr>silence_due := x\<rparr>) = gesture_inv c g"
  "gesture_inv c (g\<lparr>last_activity_ms := t\<rparr>) = gesture_inv c g"
  by (simp_all add: gesture_inv_def)

lemma pre_await_cases: "gesture_inv c g \<Longrightarrow> pre_await_state g = CANTIL_STATE_LOCKED \<or> pre_await_state g = CANTIL_STATE_UNLOCKED"
  by (simp add: gesture_inv_def)

lemma led_set_idle_simps [simp]:
  "gstate (led_set_idle p g) = gstate g" "digit_buf (led_set_idle p g) = digit_buf g"
  "pre_await_state (led_set_idle p g) = pre_await_state g" "unlock_seq (led_set_idle p g) = unlock_seq g"
  "pending_cb (led_set_idle p g) = pending_cb g" "delivered (led_set_idle p g) = delivered g"
  "using_default_seq (led_set_idle p g) = using_default_seq g" "failure_count (led_set_idle p g) = failure_count g"
  by (simp_all add: led_set_idle_def)

lemma inv_process_sequence: "gesture_inv c g \<Longrightarrow> gesture_inv c (process_sequence F c now g)"
  using pre_await_cases [of c g]
  by (cases "gstate g")
    (auto simp: process_sequence_def Let_def process_awaiting_confirm_def
      process_awaiting_reset_def process_awaiting_pair_def
      intro!: inv_process_locked inv_process_unlocked inv_process_change_confirm inv_process_change_verify inv_deliver)

lemma inv_close_digit: "gesture_inv c g \<Longrightarrow> gesture_inv c (close_digit_locked c g)"
  by (auto simp: close_digit_locked_def Let_def) (auto simp: gesture_inv_def)

lemma inv_close_binary: "gesture_inv c g \<Longrightarrow> gesture_inv c (close_sequence_binary_locked g)"
  by (auto simp: close_sequence_binary_locked_def gesture_inv_def length_binary_digits)

lemma inv_phase: "gesture_inv c g \<Longrightarrow> n \<le> 2 \<Longrightarrow> gesture_inv c (g\<lparr>silence_phase := n\<rparr>)"
  by (simp add: gesture_inv_def)

lemma inv_silence: "gesture_inv c g \<Longrightarrow> gesture_inv c (silence_timeout_fn F c now g)"
  by (auto simp: silence_timeout_fn_def Let_def split: alphabet.split
      intro!: inv_reset_accumulator inv_process_sequence inv_close_digit inv_close_binary inv_phase)

lemma inv_timeouts:
  assumes "gesture_inv c g"
  shows "gesture_inv c (confirm_timeout_fn g)" "gesture_inv c (reset_timeout_fn g)" "gesture_inv c (pair_timeout_fn g)"
  using assms pre_await_cases [OF assms]
  by (auto simp: confirm_timeout_fn_def reset_timeout_fn_def pair_timeout_fn_def intro!: inv_deliver)

lemma inv_get_state: "gesture_inv c g \<Longrightarrow> gesture_inv c (snd (gesture_get_state c now g))"
  by (auto simp: gesture_get_state_def) (auto simp: gesture_inv_def)

lemma inv_set_unlock_seq:
  assumes "gesture_inv c g" and "case sq of None \<Rightarrow> True | Some bs \<Rightarrow> unat len \<le> length bs"
  shows "gesture_inv c (snd (gesture_set_unlock_seq F c sq len g))"
proof -
  have "take (unat len) bs \<noteq> []" if "sq = Some bs" "len \<noteq> 0" for bs
    using that assms(2) by (auto simp: unat_eq_0)
  with assms(1) show ?thesis
    by (auto simp: gesture_set_unlock_seq_def gesture_inv_def Let_def split_beta split: option.splits)
qed

lemma inv_acc_simps:
  "length (bit_buf g) \<le> SEQ_MAX_LEN * 3 \<Longrightarrow> length (bit_buf (reset_accumulator c g)) \<le> SEQ_MAX_LEN * 3"
  "silence_phase g \<le> 2 \<Longrightarrow> silence_phase (reset_accumulator c g) \<le> 2"
  by (simp_all add: reset_accumulator_def split: alphabet.split)

lemma inv_prompt:
  assumes "gesture_inv c g" and "awaiting x" and "gstate g = CANTIL_STATE_LOCKED \<or> gstate g = CANTIL_STATE_UNLOCKED"
  shows "gesture_inv c (transition x (reset_accumulator c (g\<lparr>pending_cb := Some cb\<rparr>)))"
    "y = CANTIL_STATE_LOCKED \<or> y = CANTIL_STATE_UNLOCKED \<Longrightarrow>
     gesture_inv c (transition x (reset_accumulator c (g\<lparr>pending_cb := Some cb, pre_await_state := y\<rparr>)))"
  using assms by (auto simp: gesture_inv_def small_defs inv_acc_simps)

lemma inv_requests:
  assumes "gesture_inv c g"
  shows "gesture_inv c (snd (gesture_request_confirm c now cb g))" "gesture_inv c (snd (gesture_request_reset c now cb g))"
    "gesture_inv c (snd (gesture_request_pair_confirm c now cb g))"
  using assms
  by (simp_all add: gesture_request_confirm_def gesture_request_reset_def gesture_request_pair_confirm_def)
    (auto intro: inv_prompt)

lemma inv_boot: "gesture_inv c (gest (boot F c s))"
proof -
  have "pre_await_state (power_on s) = CANTIL_STATE_LOCKED" by (simp add: power_on_def)
  then show ?thesis
    unfolding boot_def gesture_init_def Let_def
    by (auto simp: gesture_inv_def power_on_def reset_accumulator_def split: sum.splits alphabet.splits)
qed

lemma inv_event: "gesture_inv c (gest d) \<Longrightarrow> do_event F c e d = Some d' \<Longrightarrow> gesture_inv c (gest d')"
  using inv_boot [of c F "gfs (gest d)"]
  by (cases e)
    (auto simp: fire_def tap_ack_def gesture_reset_inactivity_timer_def
      intro!: inv_tap inv_silence inv_timeouts inv_get_state inv_set_unlock_seq inv_requests
      split: if_splits list.splits option.splits)

lemma inv_reachable: "reachable F c d \<Longrightarrow> gesture_inv c (gest d)"
  by (induction rule: reachable.induct) (auto intro: inv_boot inv_event)

subsection \<open>Opening the device\<close>

lemma seq_match_iff [simp]: "seq_match a b \<longleftrightarrow> a = b"
  by (auto simp: seq_match_def)

lemma open_process:
  assumes "gesture_inv c g" and "\<not> open_state g" and "open_state (process_sequence F c now g)"
  shows "gstate g = CANTIL_STATE_LOCKED \<and> digit_buf g = unlock_seq g \<and> \<not> seq_has_invalid (digit_buf g)"
proof -
  have s: "gstate g = CANTIL_STATE_LOCKED \<or> (gstate g = CANTIL_STATE_AWAITING_RESET \<or> gstate g = CANTIL_STATE_AWAITING_PAIR)
      \<and> pre_await_state g = CANTIL_STATE_LOCKED"
    using assms(1,2) by (cases "gstate g") (auto simp: open_state_def gesture_inv_def)
  have "\<not> open_state (deliver_confirm r (led_play_oneshot p (transition CANTIL_STATE_LOCKED h)))" for r p and h :: "('a, 'b) gesture"
    by (simp add: open_state_def deliver_confirm_def small_defs split: option.split)
  moreover have "\<not> open_state (led_play_oneshot p (note_unlock_failure F c now h))" if "gstate h = CANTIL_STATE_LOCKED" for p and h :: "('a, 'b) gesture"
    using that by (simp add: open_state_def note_unlock_failure_def small_defs Let_def split_beta)
  ultimately show ?thesis
    using s assms(3)
    by (auto simp: process_sequence_def Let_def process_locked_def process_awaiting_reset_def process_awaiting_pair_def
        split: if_splits)
qed

lemma binary_digits_Nil [simp]: "binary_digits SEQ_MAX_LEN bs = [] \<longleftrightarrow> bs = []"
proof -
  have "binary_digits (Suc n) bs = [] \<longleftrightarrow> bs = []" for n
    by (cases "(Suc n, bs)" rule: binary_digits.cases) auto
  from this [of 15] show ?thesis by (simp add: SEQ_MAX_LEN_def)
qed

lemma closed_simps [simp]:
  "gstate (closed c g) = gstate g" "digit_buf (closed c g) = closed_digits c g" "unlock_seq (closed c g) = unlock_seq g"
  "pre_await_state (closed c g) = pre_await_state g" "pending_cb (closed c g) = pending_cb g"
  "delivered (closed c g) = delivered g" "open_state (closed c g) = open_state g"
  by (simp_all add: closed_def open_state_def)

lemma closed_digits_due [simp]: "closed_digits c (g\<lparr>silence_due := x\<rparr>) = closed_digits c g"
  by (simp add: closed_digits_def split: alphabet.split)

lemma silence_closed:
  "closed_digits c g \<noteq> [] \<Longrightarrow> silence_timeout_fn F c now g = reset_accumulator c (process_sequence F c now (closed c g))"
  by (cases "alphabet c")
    (auto simp: silence_timeout_fn_def closed_digits_def closed_def Let_def close_sequence_binary_locked_def)

lemma silence_idle:
  assumes "closed_digits c g = []"
  shows "gstate (silence_timeout_fn F c now g) = gstate g" "pre_await_state (silence_timeout_fn F c now g) = pre_await_state g"
    "delivered (silence_timeout_fn F c now g) = delivered g" "pending_cb (silence_timeout_fn F c now g) = pending_cb g"
  using assms
  by (auto simp: silence_timeout_fn_def closed_digits_def Let_def close_sequence_binary_locked_def close_digit_locked_def
      led_play_oneshot_def split: alphabet.splits if_splits)

lemma inv_closed: "gesture_inv c g \<Longrightarrow> gesture_inv c (closed c g)"
  by (auto simp: closed_def gesture_inv_def closed_digits_def length_binary_digits split: alphabet.split)

lemma open_silence:
  assumes "gesture_inv c g" and "\<not> open_state g" and "open_state (silence_timeout_fn F c now g)"
  shows "gstate g = CANTIL_STATE_LOCKED \<and> closed_digits c g = unlock_seq g \<and> \<not> seq_has_invalid (unlock_seq g)"
proof (cases "closed_digits c g = []")
  case True
  with silence_idle [OF True, of F now] assms(2,3) show ?thesis by (simp add: open_state_def)
next
  case False
  have "open_state (reset_accumulator c h) = open_state h" for h :: "('a, 'b) gesture" by (simp add: open_state_def)
  with assms(3) have "open_state (process_sequence F c now (closed c g))" unfolding silence_closed [OF False] by simp
  from open_process [OF inv_closed [OF assms(1)] _ this] assms(2) show ?thesis by auto
qed

lemma open_other:
  "open_state (tap_accumulate c now tap g) = open_state g" "open_state (led_play_oneshot p g) = open_state g"
  "open_state (led_set_idle p g) = open_state g"
  by (simp_all add: open_state_def tap_accumulate_def small_defs Let_def split: alphabet.split)

lemma boot_locked: "\<not> open_state (gest (boot F c s))"
  by (simp add: boot_def gesture_init_def power_on_def open_state_def Let_def)

lemma open_timeouts:
  assumes "gesture_inv c g" and "\<not> open_state g"
  shows "\<not> open_state (confirm_timeout_fn g)" "\<not> open_state (reset_timeout_fn g)" "\<not> open_state (pair_timeout_fn g)"
  using assms pre_await_cases [OF assms(1)]
  by (auto simp: confirm_timeout_fn_def reset_timeout_fn_def pair_timeout_fn_def deliver_confirm_def open_state_def small_defs
      split: option.split)

lemma open_calls:
  assumes "\<not> open_state g"
  shows "\<not> open_state (snd (gesture_get_state c now g))" "\<not> open_state (snd (gesture_set_unlock_seq F c sq len g))"
    "\<not> open_state (snd (gesture_request_confirm c now cb g))" "\<not> open_state (snd (gesture_request_reset c now cb g))"
    "\<not> open_state (snd (gesture_request_pair_confirm c now cb g))"
  using assms
  by (auto simp: gesture_get_state_def gesture_set_unlock_seq_def gesture_request_confirm_def gesture_request_reset_def
      gesture_request_pair_confirm_def open_state_def small_defs Let_def split_beta split: option.split)

lemma open_due [simp]:
  "open_state (g\<lparr>confirm_due := x\<rparr>) = open_state g" "open_state (g\<lparr>reset_due := x\<rparr>) = open_state g"
  "open_state (g\<lparr>pair_due := x\<rparr>) = open_state g" "open_state (g\<lparr>silence_due := x\<rparr>) = open_state g"
  "open_state (g\<lparr>last_activity_ms := t\<rparr>) = open_state g"
  by (simp_all add: open_state_def)

lemma fire_Some: "fire due g d = Some d' \<longleftrightarrow> (\<exists>t. due = Some t \<and> t \<le> clock d \<and> d' = d\<lparr>gest := g\<rparr>)"
  by (auto simp: fire_def split: option.splits)

lemma open_event:
  assumes "gesture_inv c (gest d)" and "do_event F c e d = Some d'" and "\<not> open_state (gest d)" and "open_state (gest d')"
  shows "e = Silence \<and> gstate (gest d) = CANTIL_STATE_LOCKED \<and> closed_digits c (gest d) = unlock_seq (gest d)
    \<and> \<not> seq_has_invalid (unlock_seq (gest d))"
proof (cases e)
  case Silence
  with assms show ?thesis
    using open_silence [of c "(gest d)\<lparr>silence_due := None\<rparr>" F "clock d"] by (auto simp: fire_Some)
next
  case Confirm_Timeout
  with assms show ?thesis using open_timeouts(1) [of c "(gest d)\<lparr>confirm_due := None\<rparr>"] by (auto simp: fire_Some)
next
  case Reset_Timeout
  with assms show ?thesis using open_timeouts(2) [of c "(gest d)\<lparr>reset_due := None\<rparr>"] by (auto simp: fire_Some)
next
  case Pair_Timeout
  with assms show ?thesis using open_timeouts(3) [of c "(gest d)\<lparr>pair_due := None\<rparr>"] by (auto simp: fire_Some)
next
  case Reboot
  with assms show ?thesis by (auto simp: boot_locked)
next
  case (Tap_Begin tap)
  with assms show ?thesis by (auto simp: open_other tap_ack_def split: if_splits)
next
  case Tap_End
  with assms show ?thesis by (auto simp: open_other split: list.splits)
next
  case Activity
  with assms show ?thesis by (auto simp: gesture_reset_inactivity_timer_def)
qed (use assms open_calls [OF assms(3)] in \<open>auto split: if_splits\<close>)

subsection \<open>Answers to requests\<close>

lemma answers_deliver:
  "pending_cb g \<noteq> None \<Longrightarrow> answers g r (deliver_confirm r (led_play_oneshot p (transition x g)))"
  by (auto simp: answers_def deliver_confirm_def small_defs)

lemma process_answers:
  assumes "gesture_inv c g" and "awaiting (gstate g) \<or> \<not> gesture_rehearsal c"
  shows "if awaiting (gstate g)
    then answers g (if answer_seq c g = Some (digit_buf g) \<and> \<not> seq_has_invalid (digit_buf g)
                    then CANTIL_CONFIRM_OK else CANTIL_CONFIRM_DENIED) (process_sequence F c now g)
    else same_answers g (process_sequence F c now g)"
proof (cases "awaiting (gstate g)")
  case True
  then have "pending_cb g \<noteq> None" using assms(1) by (simp add: gesture_inv_def)
  then have a: "answers g r (deliver_confirm r (led_play_oneshot p (transition x ((led_set_idle q g)\<lparr>confirm_due := None\<rparr>))))"
    "answers g r (deliver_confirm r (led_play_oneshot p (transition x ((led_set_idle q g)\<lparr>reset_due := None\<rparr>))))"
    "answers g r (deliver_confirm r (led_play_oneshot p (transition x ((led_set_idle q g)\<lparr>pair_due := None\<rparr>))))" for r p x q
    by (auto simp: answers_def deliver_confirm_def small_defs)
  show ?thesis
    using True a by (cases "gstate g")
      (auto simp: process_sequence_def Let_def process_awaiting_confirm_def process_awaiting_reset_def
        process_awaiting_pair_def answer_seq_def)
next
  case False
  then show ?thesis
    using assms(2) by (cases "gstate g")
      (simp_all add: process_sequence_def Let_def process_locked_def process_unlocked_def process_change_confirm_def
        process_change_verify_def same_answers_def small_defs note_unlock_failure_def note_unlock_success_def split_beta)
qed

lemma silence_answers:
  assumes "gesture_inv c g" and "awaiting (gstate g) \<or> \<not> gesture_rehearsal c"
  shows "if closed_digits c g \<noteq> [] \<and> awaiting (gstate g)
    then answers g (if answer_seq c g = Some (closed_digits c g) \<and> \<not> seq_has_invalid (closed_digits c g)
                    then CANTIL_CONFIRM_OK else CANTIL_CONFIRM_DENIED) (silence_timeout_fn F c now g)
    else same_answers g (silence_timeout_fn F c now g)"
proof (cases "closed_digits c g = []")
  case True
  then show ?thesis using silence_idle [OF True, of F now] by (simp add: same_answers_def)
next
  case False
  have "answer_seq c (closed c g) = answer_seq c g" by (simp add: answer_seq_def split: cantil_state.split)
  then show ?thesis
    using process_answers [OF inv_closed [OF assms(1)], of F now] assms(2) False
    by (cases "awaiting (gstate g)") (simp_all add: silence_closed [OF False] answers_def same_answers_def)
qed

lemma timeouts_answer:
  assumes "gesture_inv c g"
  shows "if gstate g = CANTIL_STATE_AWAITING_CONFIRM then answers g CANTIL_CONFIRM_TIMEOUT (confirm_timeout_fn g)
      else confirm_timeout_fn g = g"
    "if gstate g = CANTIL_STATE_AWAITING_RESET then answers g CANTIL_CONFIRM_TIMEOUT (reset_timeout_fn g)
      else reset_timeout_fn g = g"
    "if gstate g = CANTIL_STATE_AWAITING_PAIR then answers g CANTIL_CONFIRM_TIMEOUT (pair_timeout_fn g)
      else pair_timeout_fn g = g"
proof -
  have "awaiting (gstate g) \<Longrightarrow> pending_cb g \<noteq> None" using assms by (simp add: gesture_inv_def)
  then show "if gstate g = CANTIL_STATE_AWAITING_CONFIRM then answers g CANTIL_CONFIRM_TIMEOUT (confirm_timeout_fn g)
      else confirm_timeout_fn g = g"
    "if gstate g = CANTIL_STATE_AWAITING_RESET then answers g CANTIL_CONFIRM_TIMEOUT (reset_timeout_fn g)
      else reset_timeout_fn g = g"
    "if gstate g = CANTIL_STATE_AWAITING_PAIR then answers g CANTIL_CONFIRM_TIMEOUT (pair_timeout_fn g)
      else pair_timeout_fn g = g"
    by (auto simp: confirm_timeout_fn_def reset_timeout_fn_def pair_timeout_fn_def intro: answers_deliver)
qed

lemma answer_due [simp]:
  "answers (g\<lparr>silence_due := x\<rparr>) r g' = answers g r g'" "same_answers (g\<lparr>silence_due := x\<rparr>) g' = same_answers g g'"
  "answers (g\<lparr>confirm_due := x\<rparr>) r g' = answers g r g'" "answers (g\<lparr>reset_due := x\<rparr>) r g' = answers g r g'"
  "answers (g\<lparr>pair_due := x\<rparr>) r g' = answers g r g'" "answer_seq c (g\<lparr>silence_due := x\<rparr>) = answer_seq c g"
  by (simp_all add: answers_def same_answers_def answer_seq_def split: cantil_state.split)

lemma timeout_good:
  assumes "gesture_inv c (gest d)" and "do_event F c e d = Some d'"
    and "e \<in> {Silence, Confirm_Timeout, Reset_Timeout, Pair_Timeout}"
    and "awaiting (gstate (gest d)) \<or> \<not> gesture_rehearsal c"
  shows "good_answer c e (gest d) (gest d')"
proof -
  let ?g = "gest d"
  note s = silence_answers [of c "?g\<lparr>silence_due := None\<rparr>" F "clock d"]
  note t = timeouts_answer(1) [of c "?g\<lparr>confirm_due := None\<rparr>"] timeouts_answer(2) [of c "?g\<lparr>reset_due := None\<rparr>"]
    timeouts_answer(3) [of c "?g\<lparr>pair_due := None\<rparr>"]
  from assms(3) consider "e = Silence" | "e = Confirm_Timeout" | "e = Reset_Timeout" | "e = Pair_Timeout" by auto
  then show ?thesis
  proof cases
    case 1
    with s assms show ?thesis unfolding good_answer_def by (auto simp: fire_Some split: if_splits)
  qed (use t assms in \<open>auto simp: fire_Some good_answer_def same_answers_def split: if_splits\<close>)
qed

lemma other_good:
  assumes "do_event F c e d = Some d'" and "accepted c e d = []" and "e \<noteq> Reboot"
    and "e \<notin> {Silence, Confirm_Timeout, Reset_Timeout, Pair_Timeout}"
  shows "same_answers (gest d) (gest d')"
  using assms
  by (cases e) (auto simp: same_answers_def tap_ack_def small_defs tap_accumulate_def gesture_get_state_def
      gesture_set_unlock_seq_def gesture_reset_inactivity_timer_def gesture_request_confirm_def gesture_request_reset_def
      gesture_request_pair_confirm_def Let_def split_beta split: if_splits list.splits option.splits alphabet.splits)

lemma accepted_good:
  assumes "do_event F c e d = Some d'" and "accepted c e d \<noteq> []"
  shows "\<exists>cb. accepted c e d = [cb] \<and> pending_cb (gest d) = None \<and> pending_cb (gest d') = Some cb
    \<and> delivered (gest d') = delivered (gest d) \<and> awaiting (gstate (gest d'))"
  using assms
  by (cases e) (auto simp: gesture_request_confirm_def gesture_request_reset_def gesture_request_pair_confirm_def small_defs
      split: if_splits)

lemma answered_event:
  assumes "gesture_inv c (gest d)" and "do_event F c e d = Some d'" and "e \<noteq> Reboot" and "\<not> gesture_rehearsal c"
  shows "answered (gest d') = answered (gest d) @ accepted c e d"
proof (cases "accepted c e d = []")
  case True
  have "good_answer c e (gest d) (gest d')"
    using timeout_good [OF assms(1,2)] assms(4) other_good [OF assms(2) True assms(3)] by (auto simp: good_answer_def)
  with True show ?thesis by (auto simp: good_answer_def answered_def same_answers_def answers_def)
next
  case False
  with accepted_good [OF assms(2)] show ?thesis by (auto simp: answered_def)
qed

lemma answered_run:
  "gesture_inv c (gest d) \<Longrightarrow> run F c es d = Some d' \<Longrightarrow> Reboot \<notin> set es \<Longrightarrow> \<not> gesture_rehearsal c \<Longrightarrow>
   answered (gest d') = answered (gest d) @ all_accepted F c es d"
proof (induction es arbitrary: d)
  case (Cons e es)
  from Cons.prems(2) obtain d1 where d1: "do_event F c e d = Some d1" "run F c es d1 = Some d'"
    by (auto simp: bind_eq_Some_conv)
  from answered_event [OF Cons.prems(1) d1(1)] Cons.IH [OF inv_event [OF Cons.prems(1) d1(1)] d1(2)] Cons.prems(3,4) d1(1)
  show ?case by auto
qed simp

subsection \<open>Typing a sequence\<close>

lemma same_core_refl [simp]: "same_core g g"
  by (simp add: same_core_def)

lemma same_core_trans: "same_core g g' \<Longrightarrow> same_core g' g'' \<Longrightarrow> same_core g g''"
  by (simp add: same_core_def)

lemma run_append: "run F c (es @ fs) d = Option.bind (run F c es d) (run F c fs)"
  by (induction es arbitrary: d) (auto split: Option.bind_splits)

lemma listening_core: "listening d \<Longrightarrow> same_core (gest d) (gest d') \<Longrightarrow> clock d \<le> clock d' \<Longrightarrow> in_flight d' = [] \<Longrightarrow> listening d'"
  by (auto simp: listening_def same_core_def)

lemma tap_step:
  assumes "listening d"
  shows "\<exists>d'. run F c (tap_events t) d = Some d' \<and> listening d' \<and> clock d' = clock d \<and> same_core (gest d) (gest d') \<and>
    gest d' = tap_accumulate c (clock d) t (tap_ack (gest d))"
proof -
  let ?d = "d\<lparr>gest := tap_accumulate c (clock d) t (tap_ack (gest d)), in_flight := []\<rparr>"
  have "\<not> tap_dropped (clock d) (gest d)" using assms by (auto simp: listening_def tap_dropped_def unlock_in_lockout_def)
  then have "run F c (tap_events t) d = Some ?d" using assms by (simp add: tap_events_def listening_def)
  moreover have "same_core (gest d) (gest ?d)"
    by (simp add: same_core_def tap_accumulate_def tap_ack_def small_defs Let_def split: alphabet.split)
  moreover from this assms have "listening ?d" by (auto intro: listening_core)
  ultimately show ?thesis by auto
qed

lemma tap_ack_acc [simp]:
  "digit_buf (tap_ack g) = digit_buf g" "cur_taps (tap_ack g) = cur_taps g" "silence_phase (tap_ack g) = silence_phase g"
  "bit_buf (tap_ack g) = bit_buf g"
  by (simp_all add: tap_ack_def small_defs)

lemma taps_count_color:
  assumes "alphabet c = COUNT_COLOR" and "listening d" and "unat (cur_taps (gest d)) + n < 256" and "0 < n"
  shows "\<exists>d'. run F c (concat (replicate n (tap_events CANTIL_TAP_SINGLE))) d = Some d' \<and> listening d' \<and> clock d' = clock d \<and>
    same_core (gest d) (gest d') \<and> digit_buf (gest d') = digit_buf (gest d) \<and>
    cur_taps (gest d') = cur_taps (gest d) + word_of_nat n \<and> silence_phase (gest d') = 1 \<and>
    silence_due (gest d') = Some (clock d + digit_timeout_ms c)"
  using assms(2-)
proof (induction n arbitrary: d)
  case (Suc n)
  from tap_step [OF Suc.prems(1), of F c CANTIL_TAP_SINGLE] obtain d1 where
    d1: "run F c (tap_events CANTIL_TAP_SINGLE) d = Some d1" "listening d1" "clock d1 = clock d"
      "same_core (gest d) (gest d1)" "gest d1 = tap_accumulate c (clock d) CANTIL_TAP_SINGLE (tap_ack (gest d))" by blast
  have acc: "digit_buf (gest d1) = digit_buf (gest d)" "cur_taps (gest d1) = cur_taps (gest d) + 1"
    "silence_phase (gest d1) = 1" "silence_due (gest d1) = Some (clock d + digit_timeout_ms c)"
    using Suc.prems(2) by (simp_all add: d1(5) tap_accumulate_def assms(1) Let_def)
  show ?case
  proof (cases "n = 0")
    case True
    with d1 acc show ?thesis by simp
  next
    case False
    have "unat (cur_taps (gest d1)) = unat (cur_taps (gest d)) + 1"
      using Suc.prems(2) unfolding acc(2) by (subst unat_add_lem [THEN iffD1]) simp_all
    with Suc.prems(2) have "unat (cur_taps (gest d1)) + n < 256" by simp
    from Suc.IH [OF d1(2) this] False obtain d' where
      d': "run F c (concat (replicate n (tap_events CANTIL_TAP_SINGLE))) d1 = Some d'" "listening d'" "clock d' = clock d1"
        "same_core (gest d1) (gest d')" "digit_buf (gest d') = digit_buf (gest d1)"
        "cur_taps (gest d') = cur_taps (gest d1) + word_of_nat n" "silence_phase (gest d') = 1"
        "silence_due (gest d') = Some (clock d1 + digit_timeout_ms c)" by auto
    have "same_core (gest d) (gest d')" using d1(4) d'(4) by (rule same_core_trans)
    with d1 d' acc show ?thesis by (simp add: run_append)
  qed
qed simp

lemma byte_less_7: "(x :: byte) < 7 \<Longrightarrow> x \<in> {0, 1, 2, 3, 4, 5, 6}"
proof -
  assume "x < 7"
  then have "unat x \<in> {0, 1, 2, 3, 4, 5, 6}" by (auto simp: word_less_nat_alt)
  then have "word_of_nat (unat x) \<in> (word_of_nat ` {0, 1, 2, 3, 4, 5, 6} :: byte set)" by blast
  then show ?thesis by simp
qed

lemma binary_digits_bits: "x < 7 \<Longrightarrow> binary_digits (Suc n) (digit_bits x @ bs) = x # binary_digits n bs"
  by (drule byte_less_7) (auto simp: digit_bits_def triple_code_def Let_def)

lemma binary_digits_typed:
  "\<forall>x \<in> set ds. x < 7 \<Longrightarrow> length ds \<le> n \<Longrightarrow> binary_digits n (concat (map digit_bits ds)) = ds"
proof (induction ds arbitrary: n)
  case (Cons x ds)
  then show ?case by (cases n) (simp_all add: binary_digits_bits)
next
  case Nil
  then show ?case by (cases n) simp_all
qed

lemma length_typed_bits: "length (concat (map digit_bits ds)) = 3 * length ds"
  by (induction ds) (simp_all add: digit_bits_def)

lemma type_digit_color:
  assumes "alphabet c = COUNT_COLOR" and "typed c ds d" and "digit_ok c x" and "length ds < SEQ_MAX_LEN" and "timeouts_ok c"
  shows "\<exists>d'. run F c (digit_events c x) d = Some d' \<and> typed c (ds @ [x]) d' \<and> clock d \<le> clock d' \<and> same_core (gest d) (gest d')"
proof -
  have d: "listening d" "digit_buf (gest d) = ds" "cur_taps (gest d) = 0" using assms(1,2) by (simp_all add: typed_def)
  have x: "0 < unat x" "x \<le> palette_size c" using assms(1,3) by (simp_all add: digit_ok_def word_less_nat_alt)
  have "unat (cur_taps (gest d)) + unat x < 256" using d(3) unat_byte_less [of x] by simp
  from taps_count_color [OF assms(1) d(1) this x(1), of F] obtain d1 where
    d1: "run F c (concat (replicate (unat x) (tap_events CANTIL_TAP_SINGLE))) d = Some d1" "listening d1" "clock d1 = clock d"
      "same_core (gest d) (gest d1)" "digit_buf (gest d1) = ds" "cur_taps (gest d1) = x" "silence_phase (gest d1) = 1"
      "silence_due (gest d1) = Some (clock d + digit_timeout_ms c)"
    using d by auto
  let ?t = "clock d + digit_timeout_ms c"
  let ?g = "silence_timeout_fn F c ?t ((gest d1)\<lparr>silence_due := None\<rparr>)"
  let ?d = "d1\<lparr>clock := ?t, gest := ?g\<rparr>"
  have run: "run F c [Elapse (digit_timeout_ms c), Silence] d1 = Some ?d"
    using assms(5) d1(3,8) by (simp add: timeouts_ok_def fire_def)
  have g: "same_core (gest d1) ?g" "digit_buf ?g = ds @ [x]" "cur_taps ?g = 0" "silence_phase ?g = 2"
    "silence_due ?g = Some (?t + seq_timeout_ms c)"
    using d1(5-7) x assms(1,4)
    by (auto simp: silence_timeout_fn_def close_digit_locked_def same_core_def small_defs Let_def)
  have "listening ?d" by (rule listening_core [OF d1(2)]) (use g(1) d1(2,3) assms(5) in \<open>simp_all add: listening_def timeouts_ok_def\<close>)
  then have "typed c (ds @ [x]) ?d" using g assms(1) by (simp add: typed_def)
  moreover have "same_core (gest d) ?g" using d1(4) g(1) by (rule same_core_trans)
  ultimately show ?thesis using d1(1) run assms(1,5) by (simp add: digit_events_def run_append timeouts_ok_def)
qed

lemma type_digit_plain:
  assumes "alphabet c = STDT_PLAIN" and "typed c ds d" and "digit_ok c x" and "length ds < SEQ_MAX_LEN"
  shows "\<exists>d'. run F c (digit_events c x) d = Some d' \<and> typed c (ds @ [x]) d' \<and> clock d \<le> clock d' \<and> same_core (gest d) (gest d')"
proof -
  have d: "listening d" "digit_buf (gest d) = ds" using assms(1,2) by (simp_all add: typed_def)
  have x: "x = 1 \<or> x = 2" using assms(1,3) by (simp add: digit_ok_def)
  from tap_step [OF d(1), of F c "if x = 2 then CANTIL_TAP_DOUBLE else CANTIL_TAP_SINGLE"] x d(2) assms(1,4) show ?thesis
    by (auto simp: digit_events_def typed_def tap_accumulate_def Let_def)
qed

lemma tap_binary:
  assumes "alphabet c = STDT_BINARY" and "listening d" and "length (bit_buf (gest d)) < SEQ_MAX_LEN * 3"
  shows "\<exists>d'. run F c (tap_events (if b then CANTIL_TAP_DOUBLE else CANTIL_TAP_SINGLE)) d = Some d' \<and> listening d' \<and>
    clock d' = clock d \<and> same_core (gest d) (gest d') \<and> bit_buf (gest d') = bit_buf (gest d) @ [of_bool b] \<and>
    silence_due (gest d') = Some (clock d + seq_timeout_ms c)"
  using tap_step [OF assms(2), of F c "if b then CANTIL_TAP_DOUBLE else CANTIL_TAP_SINGLE"] assms(1,3)
  by (auto simp: tap_accumulate_def Let_def)

lemma type_digit_binary:
  assumes "alphabet c = STDT_BINARY" and "typed c ds d" and "length ds < SEQ_MAX_LEN"
  shows "\<exists>d'. run F c (digit_events c x) d = Some d' \<and> typed c (ds @ [x]) d' \<and> clock d \<le> clock d' \<and> same_core (gest d) (gest d')"
proof -
  have d: "listening d" "bit_buf (gest d) = concat (map digit_bits ds)" using assms(1,2) by (simp_all add: typed_def)
  have len: "length (bit_buf (gest d)) + 2 < SEQ_MAX_LEN * 3" using assms(3) length_typed_bits [of ds] d(2) by simp
  from tap_binary [OF assms(1) d(1), of F "bit x 2"] len obtain d1 where
    d1: "run F c (tap_events (if bit x 2 then CANTIL_TAP_DOUBLE else CANTIL_TAP_SINGLE)) d = Some d1" "listening d1"
      "clock d1 = clock d" "same_core (gest d) (gest d1)" "bit_buf (gest d1) = bit_buf (gest d) @ [of_bool (bit x 2)]" by auto
  from tap_binary [OF assms(1) d1(2), of F "bit x 1"] len d1(5) obtain d2 where
    d2: "run F c (tap_events (if bit x 1 then CANTIL_TAP_DOUBLE else CANTIL_TAP_SINGLE)) d1 = Some d2" "listening d2"
      "clock d2 = clock d1" "same_core (gest d1) (gest d2)" "bit_buf (gest d2) = bit_buf (gest d1) @ [of_bool (bit x 1)]" by auto
  from tap_binary [OF assms(1) d2(2), of F "bit x 0"] len d1(5) d2(5) obtain d3 where
    d3: "run F c (tap_events (if bit x 0 then CANTIL_TAP_DOUBLE else CANTIL_TAP_SINGLE)) d2 = Some d3" "listening d3"
      "clock d3 = clock d2" "same_core (gest d2) (gest d3)" "bit_buf (gest d3) = bit_buf (gest d2) @ [of_bool (bit x 0)]"
      "silence_due (gest d3) = Some (clock d2 + seq_timeout_ms c)" by auto
  have "same_core (gest d) (gest d3)" using d1(4) d2(4) d3(4) by (blast intro: same_core_trans)
  then show ?thesis
    using d1 d2 d3 d assms(1) by (simp add: digit_events_def run_append typed_def digit_bits_def)
qed

lemma type_digit:
  assumes "typed c ds d" and "digit_ok c x" and "length ds < SEQ_MAX_LEN" and "timeouts_ok c"
  shows "\<exists>d'. run F c (digit_events c x) d = Some d' \<and> typed c (ds @ [x]) d' \<and> clock d \<le> clock d' \<and> same_core (gest d) (gest d')"
  using assms type_digit_color type_digit_binary type_digit_plain by (cases "alphabet c") blast+

lemma type_digits:
  assumes "typed c ds d" and "\<forall>x \<in> set xs. digit_ok c x" and "length ds + length xs \<le> SEQ_MAX_LEN" and "timeouts_ok c"
  shows "\<exists>d'. run F c (concat (map (digit_events c) xs)) d = Some d' \<and> typed c (ds @ xs) d' \<and> clock d \<le> clock d' \<and>
    same_core (gest d) (gest d')"
  using assms
proof (induction xs arbitrary: ds d)
  case (Cons x xs)
  from type_digit [OF Cons.prems(1), of x F] Cons.prems(2-4) obtain d1 where
    d1: "run F c (digit_events c x) d = Some d1" "typed c (ds @ [x]) d1" "clock d \<le> clock d1" "same_core (gest d) (gest d1)"
    by auto
  from Cons.IH [OF d1(2)] Cons.prems(2-4) obtain d2 where
    d2: "run F c (concat (map (digit_events c) xs)) d1 = Some d2" "typed c (ds @ x # xs) d2" "clock d1 \<le> clock d2"
      "same_core (gest d1) (gest d2)" by auto
  have "same_core (gest d) (gest d2)" using d1(4) d2(4) by (rule same_core_trans)
  with d1 d2 show ?case by (auto simp: run_append)
qed simp

lemma type_sequence:
  assumes "typed c [] d" and "\<forall>x \<in> set ds. digit_ok c x" and "ds \<noteq> []" and "length ds \<le> SEQ_MAX_LEN" and "timeouts_ok c"
  shows "\<exists>d' g. run F c (type_events c ds) d = Some d' \<and> clock d \<le> clock d' \<and> in_flight d' = [] \<and> same_core (gest d) g \<and>
    digit_buf g = ds \<and> gest d' = reset_accumulator c (process_sequence F c (clock d') g)"
proof -
  from type_digits [OF assms(1,2), of F] assms(4,5) obtain d1 where
    d1: "run F c (concat (map (digit_events c) ds)) d = Some d1" "typed c ds d1" "clock d \<le> clock d1" "same_core (gest d) (gest d1)"
    by auto
  let ?t = "clock d1 + seq_timeout_ms c" and ?g = "(gest d1)\<lparr>silence_due := None\<rparr>"
  let ?d = "d1\<lparr>clock := ?t, gest := silence_timeout_fn F c ?t ?g\<rparr>"
  have run: "run F c [Elapse (seq_timeout_ms c), Silence] d1 = Some ?d"
    using d1(2) assms(3,5) by (simp add: timeouts_ok_def fire_def typed_def)
  have "\<forall>x \<in> set ds. alphabet c = STDT_BINARY \<longrightarrow> x < 7" using assms(2) by (auto simp: digit_ok_def)
  then have cl: "closed_digits c ?g = ds"
    using d1(2) assms(4) binary_digits_typed [of ds SEQ_MAX_LEN] by (auto simp: closed_digits_def typed_def split: alphabet.splits)
  have "same_core (gest d) (closed c ?g)" using d1(4) by (simp add: same_core_def closed_def)
  moreover have "silence_timeout_fn F c ?t ?g = reset_accumulator c (process_sequence F c ?t (closed c ?g))"
    using cl assms(3) by (intro silence_closed) simp
  moreover have "in_flight d1 = []" using d1(2) by (simp add: typed_def listening_def)
  ultimately show ?thesis
    using d1(1,3) run cl assms(5) by (intro exI [of _ ?d] exI [of _ "closed c ?g"]) (simp add: type_events_def run_append timeouts_ok_def)
qed

subsection \<open>Effects of a typed sequence\<close>

lemma reset_acc_fields [simp]:
  "alphabet c = COUNT_COLOR \<Longrightarrow> cur_taps (reset_accumulator c g) = 0"
  "alphabet c = COUNT_COLOR \<Longrightarrow> silence_phase (reset_accumulator c g) = 0"
  "alphabet c = STDT_BINARY \<Longrightarrow> bit_buf (reset_accumulator c g) = []"
  by (simp_all add: reset_accumulator_def)

lemma typed_reset:
  "in_flight d = [] \<Longrightarrow> gest d = reset_accumulator c g \<Longrightarrow>
   gstate g \<noteq> CANTIL_STATE_LOCKED \<or> lockout_until_ms g = 0 \<or> lockout_until_ms g \<le> clock d \<Longrightarrow> typed c [] d"
  by (simp add: typed_def listening_def split: alphabet.split)

lemma digits_valid: "\<forall>x \<in> set ds. digit_ok c x \<Longrightarrow> \<not> seq_has_invalid ds"
  by (auto simp: seq_has_invalid_def list_ex_iff digit_ok_def)

lemma core_dest:
  assumes "same_core g g'"
  shows "gstate g' = gstate g" "unlock_seq g' = unlock_seq g" "using_default_seq g' = using_default_seq g"
    "forced_change_active g' = forced_change_active g" "new_seq g' = new_seq g" "last_activity_ms g' = last_activity_ms g"
    "failure_count g' = failure_count g" "lockout_until_ms g' = lockout_until_ms g" "pending_cb g' = pending_cb g"
    "pre_await_state g' = pre_await_state g" "delivered g' = delivered g" "gfs g' = gfs g"
  using assms by (simp_all add: same_core_def)

lemma run_event_inv: "gesture_inv c (gest d) \<Longrightarrow> run F c es d = Some d' \<Longrightarrow> gesture_inv c (gest d')"
  by (induction es arbitrary: d) (auto simp: bind_eq_Some_conv dest: inv_event)

lemma run_snoc: "run F c (es @ [e]) d = Option.bind (run F c es d) (do_event F c e)"
  by (auto simp: run_append split: Option.bind_splits)

lemma opened_by_sequence:
  assumes "run F c es (boot F c s) = Some d" and "open_state (gest d)"
  shows "\<exists>es1 es2 d1. es = es1 @ Silence # es2 \<and> Reboot \<notin> set es2 \<and> run F c es1 (boot F c s) = Some d1
    \<and> gstate (gest d1) = CANTIL_STATE_LOCKED \<and> closed_digits c (gest d1) = unlock_seq (gest d1)"
  using assms
proof (induction es arbitrary: d rule: rev_induct)
  case Nil
  then show ?case by (auto simp: boot_locked)
next
  case (snoc e es)
  from snoc.prems(1) obtain d0 where d0: "run F c es (boot F c s) = Some d0" "do_event F c e d0 = Some d"
    by (auto simp: run_snoc bind_eq_Some_conv)
  show ?case
  proof (cases "open_state (gest d0)")
    case True
    from snoc.prems(2) d0(2) have "e \<noteq> Reboot" by (auto simp: boot_locked)
    from snoc.IH [OF d0(1) True] obtain es1 es2 d1 where ih: "es = es1 @ Silence # es2" "Reboot \<notin> set es2"
      "run F c es1 (boot F c s) = Some d1" "gstate (gest d1) = CANTIL_STATE_LOCKED"
      "closed_digits c (gest d1) = unlock_seq (gest d1)" by blast
    with \<open>e \<noteq> Reboot\<close> show ?thesis by (intro exI [of _ es1] exI [of _ "es2 @ [e]"] exI [of _ d1]) auto
  next
    case False
    from open_event [OF run_event_inv [OF inv_boot d0(1)] d0(2) False snoc.prems(2)] d0(1) show ?thesis
      by (intro exI [of _ es] exI [of _ "[]"] exI [of _ d0]) simp
  qed
qed

lemma pairing_stays:
  fixes d :: "('cb, 'fs) device"
  assumes "gstate (gest d) = CANTIL_STATE_PAIRING" and "do_event F c e d = Some d'" and "e \<noteq> Reboot"
  shows "gstate (gest d') = CANTIL_STATE_PAIRING"
proof -
  have p: "gstate (process_sequence F c now g) = CANTIL_STATE_PAIRING" if "gstate g = CANTIL_STATE_PAIRING"
    for now and g :: "('cb, 'fs) gesture"
    using that by (simp add: process_sequence_def Let_def)
  have "gstate (silence_timeout_fn F c now g) = CANTIL_STATE_PAIRING" if "gstate g = CANTIL_STATE_PAIRING"
    for now and g :: "('cb, 'fs) gesture"
    using that p [of "closed c g"] by (cases "closed_digits c g = []") (simp_all add: silence_idle silence_closed)
  then show ?thesis
    using assms
    by (cases e) (auto simp: fire_Some tap_ack_def small_defs tap_accumulate_def gesture_get_state_def
      gesture_set_unlock_seq_def gesture_reset_inactivity_timer_def gesture_request_confirm_def gesture_request_reset_def
      gesture_request_pair_confirm_def confirm_timeout_fn_def reset_timeout_fn_def pair_timeout_fn_def Let_def split_beta
      split: if_splits list.splits option.splits alphabet.splits)
qed

lemma type_in_locked:
  assumes "typed c [] d" and "gstate (gest d) = CANTIL_STATE_LOCKED"
    and "\<forall>x \<in> set ds. digit_ok c x" and "ds \<noteq> []" and "length ds \<le> SEQ_MAX_LEN" and "timeouts_ok c"
  shows "\<exists>d' g. run F c (type_events c ds) d = Some d' \<and> clock d \<le> clock d' \<and> in_flight d' = [] \<and> same_core (gest d) g \<and>
    digit_buf g = ds \<and> gest d' = reset_accumulator c (process_locked F c (clock d') False (led_set_idle (idle_for_state g (gstate g)) g))"
proof -
  from type_sequence [OF assms(1,3-6), of F] obtain d' g where
    d': "run F c (type_events c ds) d = Some d'" "clock d \<le> clock d'" "in_flight d' = []" "same_core (gest d) g" "digit_buf g = ds"
      "gest d' = reset_accumulator c (process_sequence F c (clock d') g)" by blast
  have "process_sequence F c (clock d') g = process_locked F c (clock d') False (led_set_idle (idle_for_state g (gstate g)) g)"
    using digits_valid [OF assms(3)] d'(5) assms(2) core_dest(1) [OF d'(4)] by (simp add: process_sequence_def Let_def)
  with d' show ?thesis by metis
qed

lemma unlock_typed:
  assumes "typed c [] d" and "gstate (gest d) = CANTIL_STATE_LOCKED" and "gesture_inv c (gest d)"
    and "\<forall>x \<in> set (unlock_seq (gest d)). digit_ok c x" and "timeouts_ok c"
  shows "\<exists>d'. run F c (type_events c (unlock_seq (gest d))) d = Some d' \<and> in_flight d' = [] \<and> clock d \<le> clock d' \<and>
    gstate (gest d') = (if using_default_seq (gest d) then CANTIL_STATE_CHANGE_SEQ_CONFIRM else CANTIL_STATE_UNLOCKED) \<and>
    failure_count (gest d') = 0 \<and> unlock_seq (gest d') = unlock_seq (gest d) \<and>
    last_activity_ms (gest d') = last_activity_ms (gest d) \<and> typed c [] d' \<and>
    forced_change_active (gest d') = (using_default_seq (gest d) \<or> forced_change_active (gest d))"
proof -
  have len: "unlock_seq (gest d) \<noteq> []" "length (unlock_seq (gest d)) \<le> SEQ_MAX_LEN" using assms(3) by (simp_all add: gesture_inv_def)
  from type_in_locked [OF assms(1,2,4) len assms(5), of F] obtain d' g where
    d': "run F c (type_events c (unlock_seq (gest d))) d = Some d'" "clock d \<le> clock d'" "in_flight d' = []"
      "same_core (gest d) g" "digit_buf g = unlock_seq (gest d)"
      "gest d' = reset_accumulator c (process_locked F c (clock d') False (led_set_idle (idle_for_state g (gstate g)) g))" by blast
  define h where "h = process_locked F c (clock d') False (led_set_idle (idle_for_state g (gstate g)) g)"
  have h: "gstate h = (if using_default_seq (gest d) then CANTIL_STATE_CHANGE_SEQ_CONFIRM else CANTIL_STATE_UNLOCKED)"
    "failure_count h = 0" "unlock_seq h = unlock_seq (gest d)" "last_activity_ms h = last_activity_ms (gest d)"
    "forced_change_active h = (using_default_seq (gest d) \<or> forced_change_active (gest d))"
    using core_dest [OF d'(4)] d'(5)
    by (simp_all add: h_def process_locked_def note_unlock_success_def small_defs Let_def)
  then have "typed c [] d'" by (intro typed_reset [OF d'(3) d'(6) [folded h_def]]) simp
  with h d' show ?thesis by (simp add: h_def)
qed

lemma wrong_typed:
  assumes "typed c [] d" and "gstate (gest d) = CANTIL_STATE_LOCKED" and "\<forall>x \<in> set ds. digit_ok c x" and "ds \<noteq> []"
    and "length ds \<le> SEQ_MAX_LEN" and "timeouts_ok c" and "ds \<noteq> unlock_seq (gest d)"
  shows "\<exists>d'. run F c (type_events c ds) d = Some d' \<and> in_flight d' = [] \<and> clock d \<le> clock d' \<and>
    gstate (gest d') = CANTIL_STATE_LOCKED \<and> failure_count (gest d') = failure_count (gest d) + 1 \<and>
    gfs (gest d') = snd (storage_unlock_attempts_write F (failure_count (gest d) + 1) (gfs (gest d))) \<and>
    lockout_until_ms (gest d') = (if failure_count (gest d) + 1 > rate_limit_threshold c
      then clock d' + int (unat (lockout_seconds_for_count c (failure_count (gest d) + 1))) * 1000 else lockout_until_ms (gest d))"
proof -
  from type_in_locked [OF assms(1-6), of F] obtain d' g where
    d': "run F c (type_events c ds) d = Some d'" "clock d \<le> clock d'" "in_flight d' = []" "same_core (gest d) g" "digit_buf g = ds"
      "gest d' = reset_accumulator c (process_locked F c (clock d') False (led_set_idle (idle_for_state g (gstate g)) g))" by blast
  define h where "h = process_locked F c (clock d') False (led_set_idle (idle_for_state g (gstate g)) g)"
  have "gstate h = CANTIL_STATE_LOCKED" "failure_count h = failure_count (gest d) + 1"
    "gfs h = snd (storage_unlock_attempts_write F (failure_count (gest d) + 1) (gfs (gest d)))"
    "lockout_until_ms h = (if failure_count (gest d) + 1 > rate_limit_threshold c
      then clock d' + int (unat (lockout_seconds_for_count c (failure_count (gest d) + 1))) * 1000 else lockout_until_ms (gest d))"
    using core_dest [OF d'(4)] d'(5) assms(2,7)
    by (simp_all add: h_def process_locked_def note_unlock_failure_def small_defs Let_def split_beta)
  with d' show ?thesis by (simp add: h_def)
qed

lemma demo_conf_simps [simp]:
  "alphabet demo_conf = COUNT_COLOR" "palette_size demo_conf = 6" "rate_limit_threshold demo_conf = 3"
  "digit_timeout_ms demo_conf = 1500" "seq_timeout_ms demo_conf = 1500" "pair_timeout_sec demo_conf = 30"
  "gesture_rehearsal demo_conf = False" "inactivity_timeout_sec demo_conf = 300"
  by (simp_all add: demo_conf_def)

lemma change_typed:
  assumes "typed c [] d" and "gstate (gest d) = CANTIL_STATE_CHANGE_SEQ_CONFIRM" and "\<forall>x \<in> set ns. digit_ok c x"
    and "ns \<noteq> []" and "length ns \<le> SEQ_MAX_LEN" and "timeouts_ok c"
  shows "\<exists>d'. run F c (type_events c ns) d = Some d' \<and> typed c [] d' \<and> gstate (gest d') = CANTIL_STATE_CHANGE_SEQ_VERIFY \<and>
    new_seq (gest d') = ns \<and> unlock_seq (gest d') = unlock_seq (gest d) \<and> gfs (gest d') = gfs (gest d) \<and>
    forced_change_active (gest d') = forced_change_active (gest d) \<and> using_default_seq (gest d') = using_default_seq (gest d)"
proof -
  from type_sequence [OF assms(1,3-6), of F] obtain d' g where
    d': "run F c (type_events c ns) d = Some d'" "in_flight d' = []" "same_core (gest d) g" "digit_buf g = ns"
      "gest d' = reset_accumulator c (process_sequence F c (clock d') g)" by blast
  define h where "h = process_sequence F c (clock d') g"
  have h: "gstate h = CANTIL_STATE_CHANGE_SEQ_VERIFY" "new_seq h = ns" "unlock_seq h = unlock_seq (gest d)" "gfs h = gfs (gest d)"
    "forced_change_active h = forced_change_active (gest d)" "using_default_seq h = using_default_seq (gest d)"
    using core_dest [OF d'(3)] d'(4) assms(2,4,5) digits_valid [OF assms(3)]
    by (simp_all add: h_def process_sequence_def process_change_confirm_def small_defs Let_def)
  then have "typed c [] d'" by (intro typed_reset [OF d'(2) d'(5) [folded h_def]]) simp
  with h d' show ?thesis by (simp add: h_def)
qed

lemma verify_typed:
  assumes "typed c [] d" and "gstate (gest d) = CANTIL_STATE_CHANGE_SEQ_VERIFY" and "\<forall>x \<in> set ns. digit_ok c x"
    and "ns \<noteq> []" and "length ns \<le> SEQ_MAX_LEN" and "timeouts_ok c"
  shows "\<exists>d'. run F c (type_events c ns) d = Some d' \<and>
    (if ns = new_seq (gest d)
     then gstate (gest d') = CANTIL_STATE_UNLOCKED \<and> unlock_seq (gest d') = ns \<and>
       using_default_seq (gest d') = is_factory_default c ns \<and>
       gfs (gest d') = snd (storage_unlock_seq_write F ns (gfs (gest d)))
     else gstate (gest d') = (if forced_change_active (gest d) then CANTIL_STATE_LOCKED else CANTIL_STATE_UNLOCKED) \<and>
       unlock_seq (gest d') = unlock_seq (gest d) \<and> using_default_seq (gest d') = using_default_seq (gest d) \<and>
       gfs (gest d') = gfs (gest d))"
proof -
  from type_sequence [OF assms(1,3-6), of F] obtain d' g where
    d': "run F c (type_events c ns) d = Some d'" "same_core (gest d) g" "digit_buf g = ns"
      "gest d' = reset_accumulator c (process_sequence F c (clock d') g)" by blast
  then show ?thesis
    using core_dest [OF d'(2)] assms(2,4,5) digits_valid [OF assms(3)]
    by (simp add: process_sequence_def process_change_verify_def small_defs Let_def)
qed

lemma bypass_run:
  assumes "storage_unlock_seq_read F SEQ_MAX_LEN s = Inr [2, 1]" and "storage_unlock_attempts_read F s = Inr 9"
  shows "\<exists>d1 d2. run F demo_conf (type_events demo_conf [1]) (boot F demo_conf s) = Some d1
    \<and> gstate (gest d1) = CANTIL_STATE_LOCKED \<and> lockout_until_ms (gest d1) = 3603000
    \<and> run F demo_conf bypass_events (boot F demo_conf s) = Some d2 \<and> gstate (gest d2) = CANTIL_STATE_UNLOCKED \<and> clock d2 = 33500"
proof -
  have rep2: "replicate 2 x = [x, x]" for x :: "unit event list" by (simp add: numeral_2_eq_2)
  show ?thesis
    using assms
    by (simp add: bypass_events_def type_events_def digit_events_def tap_events_def boot_def gesture_init_def power_on_def
     reset_accumulator_def SEQ_MAX_LEN_def is_factory_default_def SEQ_UNLOCK_DEFAULT_def tap_dropped_def unlock_in_lockout_def
     tap_ack_def small_defs tap_accumulate_def fire_def silence_timeout_fn_def close_digit_locked_def process_sequence_def
     process_locked_def note_unlock_failure_def lockout_seconds_for_count_def gesture_request_pair_confirm_def pair_timeout_fn_def
     deliver_confirm_def note_unlock_success_def seq_has_invalid_def DIGIT_INVALID_def idle_for_state_def rep2 Let_def split_beta)
qed

lemma reachable_clock: "reachable F c d \<Longrightarrow> 0 \<le> clock d"
proof (induction rule: reachable.induct)
  case (reachable_event d e d')
  then show ?case by (cases e) (auto simp: fire_Some boot_def split: if_splits list.splits)
qed (simp add: boot_def)

subsection \<open>Properties\<close>

lemma demo_gesture_boot:
  "gest (boot F demo_conf s) = reset_accumulator demo_conf (gest (boot F demo_conf s))" "typed demo_conf [] (boot F demo_conf s)"
  "gstate (gest (boot F demo_conf s)) = CANTIL_STATE_LOCKED"
  by (simp_all add: boot_def gesture_init_def power_on_def typed_def listening_def reset_accumulator_def Let_def)

lemma demo_timeouts: "timeouts_ok demo_conf"
  by (simp add: timeouts_ok_def)

lemma demo_unlock_seq:
  "storage_unlock_seq_read mem_api SEQ_MAX_LEN demo_gesture_fs = Inr [2, 1]"
  "storage_unlock_attempts_read mem_api demo_gesture_fs = Inr 9"
  by (simp_all add: demo_gesture_fs_def storage_unlock_seq_read_def storage_unlock_attempts_read_def read_file_def mem_defs
      file_defs SEQ_MAX_LEN_def res_simps)

text \<open>
  C11: The state of the machine is consistent in every reachable state, whatever taps,
  timers, host calls and power cycles led there: the buffers are within their
  bounds, the unlock sequence has 1 to 16 digits, a callback is pending exactly
  while a prompt is shown, a forced change is active only during a change, and the
  prompts return to LOCKED or UNLOCKED.  The result \<open>-EALREADY\<close> of the requests never
  occurs.
\<close>

theorem gesture_invariant:
  assumes "reachable F c d"
  shows "gesture_inv c (gest d) \<and> fst (gesture_request_confirm c now cb (gest d)) \<noteq> Some EALREADY
    \<and> fst (gesture_request_reset c now cb (gest d)) \<noteq> Some EALREADY
    \<and> fst (gesture_request_pair_confirm c now cb (gest d)) \<noteq> Some EALREADY"
proof -
  have i: "gesture_inv c (gest d)" using assms by (rule inv_reachable)
  then have "pending_cb (gest d) = None" if "gstate (gest d) = CANTIL_STATE_LOCKED \<or> gstate (gest d) = CANTIL_STATE_UNLOCKED"
    using that by (auto simp: gesture_inv_def)
  with i show ?thesis
    by (auto simp: gesture_request_confirm_def gesture_request_reset_def gesture_request_pair_confirm_def)
qed

theorem gesture_invariant_witness:
  "gesture_inv demo_conf (gest (boot mem_api demo_conf demo_gesture_fs :: (unit, memfs) device))
   \<and> fst (gesture_request_confirm demo_conf 0 () (gest (boot mem_api demo_conf demo_gesture_fs))) \<noteq> Some EALREADY"
  using gesture_invariant [OF reachable_boot [of mem_api demo_conf demo_gesture_fs], of 0 "()"] by blast

text \<open>
  C7: Nothing opens the device but its unlock sequence.  If after any run of events from
  power-on the device is open, in UNLOCKED, PAIRING, a sequence change, a confirm
  prompt or a prompt that returns to UNLOCKED, then since the last power cycle there
  was a moment when it was LOCKED and the digits entered were the unlock sequence:
  no timeout, no host call, no wrong entry and no power cycle opens it.
\<close>

theorem opening_needs_sequence:
  assumes "run F c es (boot F c s) = Some d" and "open_state (gest d)"
  shows "\<exists>es1 es2 d1. es = es1 @ Silence # es2 \<and> Reboot \<notin> set es2 \<and> run F c es1 (boot F c s) = Some d1
    \<and> gstate (gest d1) = CANTIL_STATE_LOCKED \<and> closed_digits c (gest d1) = unlock_seq (gest d1)"
  by (rule opened_by_sequence [OF assms])

theorem opening_needs_sequence_witness:
  "\<exists>es1 es2 d1. bypass_events = es1 @ Silence # es2 \<and> Reboot \<notin> set es2
    \<and> run mem_api demo_conf es1 (boot mem_api demo_conf demo_gesture_fs) = Some d1
    \<and> gstate (gest d1) = CANTIL_STATE_LOCKED \<and> closed_digits demo_conf (gest d1) = unlock_seq (gest d1)"
proof -
  from bypass_run [OF demo_unlock_seq] obtain d2 where
    d2: "run mem_api demo_conf bypass_events (boot mem_api demo_conf demo_gesture_fs) = Some d2"
      "gstate (gest d2) = CANTIL_STATE_UNLOCKED" by blast
  then have "open_state (gest d2)" by (simp add: open_state_def)
  from opening_needs_sequence [OF d2(1) this] show ?thesis .
qed



text \<open>
  C29: The owner gets in.  On a locked device that is not in lockout and holds no partial
  entry, typing the unlock sequence, digit by digit with the pauses of the alphabet
  of the build, unlocks it and clears the failure count; with the factory default it
  leads to the forced sequence change.
\<close>

theorem typing_unlocks:
  assumes "reachable F c d" and "typed c [] d" and "gstate (gest d) = CANTIL_STATE_LOCKED"
    and "\<forall>x \<in> set (unlock_seq (gest d)). digit_ok c x" and "timeouts_ok c"
  shows "\<exists>d'. run F c (type_events c (unlock_seq (gest d))) d = Some d'
    \<and> gstate (gest d') = (if is_factory_default c (unlock_seq (gest d)) then CANTIL_STATE_CHANGE_SEQ_CONFIRM else CANTIL_STATE_UNLOCKED)
    \<and> failure_count (gest d') = 0"
  using unlock_typed [OF assms(2,3) inv_reachable [OF assms(1)] assms(4,5), of F] inv_reachable [OF assms(1)]
  by (auto simp: gesture_inv_def)

theorem typing_unlocks_witness:
  "\<exists>d'. run mem_api demo_conf (type_events demo_conf [2, 1]) (boot mem_api demo_conf demo_gesture_fs :: (unit, memfs) device) = Some d'
    \<and> gstate (gest d') = CANTIL_STATE_UNLOCKED \<and> failure_count (gest d') = 0"
proof -
  let ?d = "boot mem_api demo_conf demo_gesture_fs :: (unit, memfs) device"
  have u: "unlock_seq (gest ?d) = [2, 1]"
    using demo_unlock_seq by (simp add: boot_def gesture_init_def power_on_def SEQ_MAX_LEN_def Let_def)
  have "\<forall>x \<in> set (unlock_seq (gest ?d)). digit_ok demo_conf x" by (simp add: u digit_ok_def DIGIT_INVALID_def)
  from typing_unlocks [OF reachable_boot demo_gesture_boot(2,3) this demo_timeouts] show ?thesis
    by (simp add: u is_factory_default_def SEQ_UNLOCK_DEFAULT_def)
qed



text \<open>
  C31: The rate limit can be passed by.  After a wrong entry has started a lockout of one
  hour, a host asks for a pairing prompt; its taps are not dropped, its timeout
  returns to LOCKED without clearing the digits, and when the silence timer fires
  they are taken as an unlock attempt: 30.5 s later, long before the lockout ends, the
  device is open.
\<close>

theorem lockout_bypassed:
  assumes "storage_unlock_seq_read F SEQ_MAX_LEN s = Inr [2, 1]" and "storage_unlock_attempts_read F s = Inr 9"
  shows "\<exists>d1 d2. run F demo_conf (type_events demo_conf [1]) (boot F demo_conf s) = Some d1
    \<and> gstate (gest d1) = CANTIL_STATE_LOCKED \<and> lockout_until_ms (gest d1) = 3603000
    \<and> run F demo_conf bypass_events (boot F demo_conf s) = Some d2 \<and> gstate (gest d2) = CANTIL_STATE_UNLOCKED \<and> clock d2 = 33500"
  by (rule bypass_run [OF assms])

theorem lockout_bypassed_witness:
  "\<exists>d2. run mem_api demo_conf bypass_events (boot mem_api demo_conf demo_gesture_fs) = Some d2
    \<and> gstate (gest d2) = CANTIL_STATE_UNLOCKED \<and> clock d2 = 33500"
  using lockout_bypassed [OF demo_unlock_seq] by blast

text \<open>
  C32: Changing the unlock sequence.  In the change state, typing a new sequence twice
  makes it the unlock sequence, stores it and unlocks; a different second entry keeps
  the old one and returns to UNLOCKED, or to LOCKED when the change was forced.  Any
  sequence of valid digits is accepted, also the factory default itself.
\<close>

theorem change_sequence:
  assumes "typed c [] d" and "gstate (gest d) = CANTIL_STATE_CHANGE_SEQ_CONFIRM" and "timeouts_ok c"
    and "\<forall>x \<in> set ns. digit_ok c x" and "ns \<noteq> []" and "length ns \<le> SEQ_MAX_LEN"
    and "\<forall>x \<in> set ms. digit_ok c x" and "ms \<noteq> []" and "length ms \<le> SEQ_MAX_LEN"
  shows "\<exists>d'. run F c (type_events c ns @ type_events c ms) d = Some d' \<and>
    (if ms = ns
     then gstate (gest d') = CANTIL_STATE_UNLOCKED \<and> unlock_seq (gest d') = ns \<and>
       using_default_seq (gest d') = is_factory_default c ns \<and> gfs (gest d') = snd (storage_unlock_seq_write F ns (gfs (gest d)))
     else gstate (gest d') = (if forced_change_active (gest d) then CANTIL_STATE_LOCKED else CANTIL_STATE_UNLOCKED) \<and>
       unlock_seq (gest d') = unlock_seq (gest d) \<and> gfs (gest d') = gfs (gest d))"
proof -
  from change_typed [OF assms(1,2,4-6,3), of F] obtain d1 where
    d1: "run F c (type_events c ns) d = Some d1" "typed c [] d1" "gstate (gest d1) = CANTIL_STATE_CHANGE_SEQ_VERIFY"
      "new_seq (gest d1) = ns" "unlock_seq (gest d1) = unlock_seq (gest d)" "gfs (gest d1) = gfs (gest d)"
      "forced_change_active (gest d1) = forced_change_active (gest d)" by blast
  from verify_typed [OF d1(2,3) assms(7-9,3), of F] d1 show ?thesis by (auto simp: run_append)
qed

theorem change_sequence_witness:
  "\<exists>d d'. run mem_api demo_conf (type_events demo_conf [1, 1, 1, 1]) (boot mem_api demo_conf [(''/lfs'', Dir)] :: (unit, memfs) device) = Some d
    \<and> gstate (gest d) = CANTIL_STATE_CHANGE_SEQ_CONFIRM
    \<and> run mem_api demo_conf (type_events demo_conf [1, 1, 1, 1] @ type_events demo_conf [1, 1, 1, 1]) d = Some d'
    \<and> gstate (gest d') = CANTIL_STATE_UNLOCKED \<and> using_default_seq (gest d')"
proof -
  let ?d = "boot mem_api demo_conf [(''/lfs'', Dir)] :: (unit, memfs) device" and ?df = "[1, 1, 1, 1] :: byte list"
  have u: "unlock_seq (gest ?d) = ?df" "using_default_seq (gest ?d)"
    by (simp_all add: boot_def gesture_init_def power_on_def storage_unlock_seq_read_def read_file_def mem_open_r_def file_defs
        SEQ_UNLOCK_DEFAULT_def is_factory_default_def Let_def)
  have v: "\<forall>x \<in> set ?df. digit_ok demo_conf x" "?df \<noteq> []" "length ?df \<le> SEQ_MAX_LEN"
    by (simp_all add: digit_ok_def DIGIT_INVALID_def SEQ_MAX_LEN_def)
  have "\<forall>x \<in> set (unlock_seq (gest ?d)). digit_ok demo_conf x" unfolding u by (rule v(1))
  from unlock_typed [OF demo_gesture_boot(2,3) inv_boot this demo_timeouts, of mem_api] u obtain d1 where
    d1: "run mem_api demo_conf (type_events demo_conf ?df) ?d = Some d1" "gstate (gest d1) = CANTIL_STATE_CHANGE_SEQ_CONFIRM"
      "typed demo_conf [] d1" by auto
  from change_sequence [OF d1(3,2) demo_timeouts v v, of mem_api] d1 show ?thesis
    by (auto simp: is_factory_default_def SEQ_UNLOCK_DEFAULT_def)
qed



text \<open>
  C34: The failure count and the unlock sequence survive a power cycle on a file system
  that stores what is written: after a write that succeeded, the device comes up with
  the stored count and sequence, LOCKED, and without the running lockout.
\<close>

theorem counters_survive_reboot:
  assumes "fs_reliable F mounted view" and "mounted s" and "storage_unlock_seq_write F sq s = (None, s1)"
    and "storage_unlock_attempts_write F n s1 = (None, s2)" and "sq \<noteq> []" and "length sq \<le> SEQ_MAX_LEN"
  shows "let g = gest (boot F c s2) in unlock_seq g = sq \<and> failure_count g = n
    \<and> gstate g = CANTIL_STATE_LOCKED \<and> lockout_until_ms g = 0"
proof -
  have w: "write_file F UNLOCK_SEQ_PATH sq s = (None, s1)" "write_file F UNLOCK_ATTEMPTS_PATH (le_bytes 4 (unat n)) s1 = (None, s2)"
    using assms(3,4) by (simp_all add: storage_unlock_seq_write_def storage_unlock_attempts_write_def)
  have ne: "UNLOCK_SEQ_PATH \<noteq> UNLOCK_ATTEMPTS_PATH" by (simp add: file_defs)
  note m1 = fs_reliable.stays_mounted [OF assms(1,2) w(1)]
  have r1: "storage_unlock_seq_read F SEQ_MAX_LEN s2 = Inr sq"
    using fs_reliable.kept [OF assms(1) m1 w(2) ne, of SEQ_MAX_LEN] fs_reliable.stored [OF assms(1,2) w(1), of SEQ_MAX_LEN] assms(6)
    by (simp add: storage_unlock_seq_read_def)
  have r2: "storage_unlock_attempts_read F s2 = Inr n"
    using fs_reliable.stored [OF assms(1) m1 w(2), of 4]
    by (simp add: storage_unlock_attempts_read_def res_simps word32_of_le)
  show ?thesis
    using r1 r2 assms(5,6) by (simp add: boot_def gesture_init_def power_on_def Let_def)
qed

theorem counters_survive_reboot_witness:
  "let s1 = snd (storage_unlock_seq_write mem_api [3, 4] demo_gesture_fs); s2 = snd (storage_unlock_attempts_write mem_api 7 s1);
     g = gest (boot mem_api demo_conf s2 :: (unit, memfs) device) in unlock_seq g = [3, 4] \<and> failure_count g = 7"
proof -
  let ?s = "demo_gesture_fs"
  have inv: "mem_inv ?s" by (simp add: demo_gesture_fs_def mem_inv_def path_ok_def comp_ok_def name_ok_def upt_rec)
  have f: "map_of ?s UNLOCK_SEQ_PATH = Some (File [2, 1])" "map_of ?s UNLOCK_ATTEMPTS_PATH = Some (File [9, 0, 0, 0])"
    "length UNLOCK_SEQ_PATH \<le> 127" "length UNLOCK_ATTEMPTS_PATH \<le> 127" "UNLOCK_ATTEMPTS_PATH \<noteq> UNLOCK_SEQ_PATH"
    by (simp_all add: demo_gesture_fs_def file_defs)
  obtain s1 where s1: "storage_unlock_seq_write mem_api [3, 4] ?s = (None, s1)"
    using mem_write_file [OF mem_inv_path [OF inv f(1)]] f by (simp add: storage_unlock_seq_write_def)
  then have w: "write_file mem_api UNLOCK_SEQ_PATH [3, 4] ?s = (None, s1)" by (simp add: storage_unlock_seq_write_def)
  have m1: "mem_inv s1" using memr.stays_mounted [OF inv w] .
  have f1: "map_of s1 UNLOCK_ATTEMPTS_PATH = Some (File [9, 0, 0, 0])" using mem.write_file_keeps [OF inv w f(5)] f(2) by simp
  obtain s2 where s2: "storage_unlock_attempts_write mem_api 7 s1 = (None, s2)"
    using mem_write_file [OF mem_inv_path [OF m1 f1]] f1 f(4) by (simp add: storage_unlock_attempts_write_def)
  show ?thesis
    using counters_survive_reboot [OF memr.fs_reliable_axioms inv s1 s2, where c = demo_conf and 'b = unit] s1 s2
    by (simp add: Let_def SEQ_MAX_LEN_def)
qed

text \<open>
  Unlocking does not count as activity.  When the host has been idle for the
  inactivity period, the owner's unlock sequence unlocks the device, and the next look
  at the state locks it again at once.
\<close>

theorem unlock_relocked:
  assumes "reachable F c d" and "typed c [] d" and "gstate (gest d) = CANTIL_STATE_LOCKED"
    and "\<forall>x \<in> set (unlock_seq (gest d)). digit_ok c x" and "timeouts_ok c" and "\<not> is_factory_default c (unlock_seq (gest d))"
    and "inactivity_timeout_sec c * 1000 \<le> clock d - last_activity_ms (gest d)"
  shows "\<exists>d'. run F c (type_events c (unlock_seq (gest d))) d = Some d' \<and> gstate (gest d') = CANTIL_STATE_UNLOCKED
    \<and> fst (gesture_get_state c (clock d') (gest d')) = CANTIL_STATE_LOCKED"
proof -
  have "\<not> using_default_seq (gest d)" using inv_reachable [OF assms(1)] assms(6) by (simp add: gesture_inv_def)
  with unlock_typed [OF assms(2,3) inv_reachable [OF assms(1)] assms(4,5), of F] obtain d' where
    d': "run F c (type_events c (unlock_seq (gest d))) d = Some d'" "clock d \<le> clock d'"
      "gstate (gest d') = CANTIL_STATE_UNLOCKED" "last_activity_ms (gest d') = last_activity_ms (gest d)" by auto
  with assms(7) have "fst (gesture_get_state c (clock d') (gest d')) = CANTIL_STATE_LOCKED"
    by (simp add: gesture_get_state_def)
  with d' show ?thesis by blast
qed

theorem unlock_relocked_witness:
  "\<exists>d'. run mem_api demo_conf (type_events demo_conf [2, 1])
      ((boot mem_api demo_conf demo_gesture_fs :: (unit, memfs) device)\<lparr>clock := 300000\<rparr>) = Some d'
    \<and> fst (gesture_get_state demo_conf (clock d') (gest d')) = CANTIL_STATE_LOCKED"
proof -
  let ?b = "boot mem_api demo_conf demo_gesture_fs :: (unit, memfs) device"
  let ?d = "?b\<lparr>clock := 300000\<rparr>"
  have u: "unlock_seq (gest ?d) = [2, 1]" "last_activity_ms (gest ?d) = 0"
    using demo_unlock_seq by (simp_all add: boot_def gesture_init_def power_on_def SEQ_MAX_LEN_def Let_def)
  have r: "reachable mem_api demo_conf ?d"
    by (rule reachable_event [OF reachable_boot [of _ _ demo_gesture_fs], where e = "Elapse 300000"]) (simp add: boot_def)
  have p: "typed demo_conf [] ?d" "gstate (gest ?d) = CANTIL_STATE_LOCKED"
    using demo_gesture_boot(2,3) [of mem_api demo_gesture_fs] by (simp_all add: typed_def listening_def boot_def gesture_init_def power_on_def Let_def)
  have v: "\<forall>x \<in> set (unlock_seq (gest ?d)). digit_ok demo_conf x" "\<not> is_factory_default demo_conf (unlock_seq (gest ?d))"
    "inactivity_timeout_sec demo_conf * 1000 \<le> clock ?d - last_activity_ms (gest ?d)"
    unfolding u by (simp_all add: digit_ok_def DIGIT_INVALID_def is_factory_default_def SEQ_UNLOCK_DEFAULT_def)
  from unlock_relocked [OF r p v(1) demo_timeouts v(2,3)] show ?thesis unfolding u by blast
qed

end
