(* ===== verification/Der.thy ===== *)
theory Der
  imports Cantil_Prelude
begin

text \<open>
  The backwards DER writer and the TLV measuring function of
  \<open>firmware/src/ca/der_write.c\<close>.

  A writer moves \<open>*p\<close> left toward \<open>start\<close>.  Its state is the pair of the room that
  is left, \<open>*p - start\<close>, and the bytes from \<open>*p\<close> to the end of the buffer.  A
  writer returns the number of bytes written or a negative error, so a \<open>writer\<close>
  is a function from such a state to an error or a count and the new state.
  \<open>chk_add f g\<close> is the macro \<open>CANTIL_DER_CHK_ADD\<close> after \<open>f\<close>: \<open>g\<close> sees the length
  accumulated so far and its own count is added to it.
\<close>

unbundle bit_operations_syntax

datatype der_err = DER_BUF_TOO_SMALL | DER_INVALID_DATA

type_synonym der_state = "nat \<times> byte list"
type_synonym writer = "der_state \<Rightarrow> der_err + (nat \<times> der_state)"

definition ASN1_INTEGER :: byte where "ASN1_INTEGER = 0x02"
definition ASN1_BIT_STRING :: byte where "ASN1_BIT_STRING = 0x03"
definition ASN1_OCTET_STRING :: byte where "ASN1_OCTET_STRING = 0x04"
definition ASN1_OID :: byte where "ASN1_OID = 0x06"
definition ASN1_UTC_TIME :: byte where "ASN1_UTC_TIME = 0x17"
definition ASN1_GENERALIZED_TIME :: byte where "ASN1_GENERALIZED_TIME = 0x18"
definition ASN1_SEQ :: byte where "ASN1_SEQ = 0x20 OR 0x10"
definition ASN1_CTX0 :: byte where "ASN1_CTX0 = 0x80 OR 0x20 OR 0"

definition chk_add :: "writer \<Rightarrow> (nat \<Rightarrow> writer) \<Rightarrow> writer" where
  "chk_add f g = (\<lambda>s. ok_then (f s) (\<lambda>(len, s). ok_then (g len s) (\<lambda>(ret, s). Inr (len + ret, s))))"

definition der_raw :: "byte list \<Rightarrow> writer" where
  "der_raw buf = (\<lambda>(room, out).
    if length buf > room then Inl DER_BUF_TOO_SMALL
    else Inr (length buf, (room - length buf, buf @ out)))"

definition der_len :: "nat \<Rightarrow> writer" where
  "der_len len = (\<lambda>(room, out).
    if len < 0x80 then
      if room = 0 then Inl DER_BUF_TOO_SMALL else Inr (1, (room - 1, word_of_nat len # out))
    else if len \<le> 0xFF then
      if room < 2 then Inl DER_BUF_TOO_SMALL else Inr (2, (room - 2, 0x81 # be_bytes 1 len @ out))
    else if len \<le> 0xFFFF then
      if room < 3 then Inl DER_BUF_TOO_SMALL else Inr (3, (room - 3, 0x82 # be_bytes 2 len @ out))
    else if len \<le> 0xFFFFFF then
      if room < 4 then Inl DER_BUF_TOO_SMALL else Inr (4, (room - 4, 0x83 # be_bytes 3 len @ out))
    else
      if room < 5 then Inl DER_BUF_TOO_SMALL else Inr (5, (room - 5, 0x84 # be_bytes 4 len @ out)))"

definition der_tag :: "byte \<Rightarrow> writer" where
  "der_tag tag = (\<lambda>(room, out).
    if room = 0 then Inl DER_BUF_TOO_SMALL else Inr (1, (room - 1, tag # out)))"

text \<open>The do-while loop of \<open>cantil_der_int\<close>; \<open>val >>= 8\<close> makes it end.\<close>

function der_int_loop :: "nat \<Rightarrow> nat \<Rightarrow> writer" where
  "der_int_loop len val = (\<lambda>(room, out).
    if room = 0 then Inl DER_BUF_TOO_SMALL
    else if val div 2 ^ 8 > 0 then der_int_loop (len + 1) (val div 2 ^ 8) (room - 1, word_of_nat val # out)
    else Inr (len + 1, (room - 1, word_of_nat val # out)))"
  by auto
termination by (relation "measure (\<lambda>(len, val). val)") auto

declare der_int_loop.simps [simp del]

definition der_int :: "32 word \<Rightarrow> writer" where
  "der_int val =
    chk_add (chk_add
      (\<lambda>s. ok_then (der_int_loop 0 (unat val) s) (\<lambda>(len, (room, out)).
        if hd out AND 0x80 \<noteq> 0 then
          if room = 0 then Inl DER_BUF_TOO_SMALL else Inr (len + 1, (room - 1, 0x00 # out))
        else Inr (len, (room, out))))
      der_len)
      (\<lambda>_. der_tag ASN1_INTEGER)"

text \<open>
  Stripping leading zero octets keeps the last one.  On an empty magnitude the C
  code goes on to copy \<open>val[0]\<close>, outside the buffer, which the model leaves out:
  \<open>der_mpint\<close> is for a non-empty \<open>val\<close>, and its callers pass 32 bytes.
\<close>

fun strip_zeros :: "byte list \<Rightarrow> byte list" where
  "strip_zeros (b # c # bs) = (if b = 0 then strip_zeros (c # bs) else b # c # bs)"
| "strip_zeros bs = bs"

definition der_mpint :: "byte list \<Rightarrow> writer" where
  "der_mpint val =
    (let v = strip_zeros val in
     chk_add (chk_add
       (if hd v AND 0x80 \<noteq> 0 then chk_add (der_raw v) (\<lambda>_. der_tag 0x00) else der_raw v)
       der_len)
       (\<lambda>_. der_tag ASN1_INTEGER))"

definition der_oid :: "byte list \<Rightarrow> writer" where
  "der_oid oid =
    chk_add (chk_add (der_raw oid) (\<lambda>_. der_len (length oid))) (\<lambda>_. der_tag ASN1_OID)"

text \<open>\<open>S\<close> is \<open>sizeof(size_t)\<close>; \<open>avail\<close> is \<open>length p\<close>.\<close>

definition der_tlv_len :: "nat \<Rightarrow> byte list \<Rightarrow> byte \<Rightarrow> der_err + nat" where
  "der_tlv_len S p tag =
    (if length p < 2 \<or> p ! 0 \<noteq> tag then Inl DER_INVALID_DATA
     else if p ! 1 AND 0x80 \<noteq> 0 then
       let n = unat (p ! 1 AND 0x7F) in
       if n = 0 \<or> n > S \<or> length p < 2 + n then Inl DER_INVALID_DATA
       else let len = be_nat (take n (drop 2 p)); hdr = 2 + n in
         if len > length p - hdr then Inl DER_INVALID_DATA else Inr (hdr + len)
     else if unat (p ! 1) > length p - 2 then Inl DER_INVALID_DATA
     else Inr (2 + unat (p ! 1)))"

text \<open>Writing the elements of a list from the last to the first, as the loop of the CRL encoder does.\<close>

fun write_seq :: "('a \<Rightarrow> writer) \<Rightarrow> 'a list \<Rightarrow> writer" where
  "write_seq wr [] = (\<lambda>s. Inr (0, s))"
| "write_seq wr (x # xs) = chk_add (write_seq wr xs) (\<lambda>_. wr x)"

subsection \<open>Reference encoding\<close>

text \<open>
  What a writer is meant to write: \<open>writes f bs\<close> says that \<open>f\<close> puts exactly \<open>bs\<close> in
  front of the bytes already there, when there is room, and fails otherwise.
  \<open>tlv\<close> is a DER element, \<open>uint_content\<close> the minimal content octets of a
  non-negative INTEGER given by a big-endian magnitude.
\<close>

definition writes :: "writer \<Rightarrow> byte list \<Rightarrow> bool" where
  "writes f bs \<longleftrightarrow> (\<forall>room out. f (room, out) =
    (if length bs \<le> room then Inr (length bs, (room - length bs, bs @ out)) else Inl DER_BUF_TOO_SMALL))"

definition len_octets :: "nat \<Rightarrow> byte list" where
  "len_octets len =
    (if len < 0x80 then [word_of_nat len] else if len \<le> 0xFF then 0x81 # be_bytes 1 len
     else if len \<le> 0xFFFF then 0x82 # be_bytes 2 len else if len \<le> 0xFFFFFF then 0x83 # be_bytes 3 len
     else 0x84 # be_bytes 4 len)"

definition tlv :: "byte \<Rightarrow> byte list \<Rightarrow> byte list" where
  "tlv tag content = tag # len_octets (length content) @ content"

definition pad_positive :: "byte list \<Rightarrow> byte list" where
  "pad_positive v = (if hd v AND 0x80 \<noteq> 0 then 0 # v else v)"

function min_octets :: "nat \<Rightarrow> byte list" where
  "min_octets v = (if v div 256 > 0 then min_octets (v div 256) else []) @ [word_of_nat v]"
  by auto
termination by (relation "measure id") auto

declare min_octets.simps [simp del]

text \<open>Content of a DER INTEGER that is non-negative and has no redundant leading octet.\<close>

definition der_uint_ok :: "byte list \<Rightarrow> bool" where
  "der_uint_ok c \<longleftrightarrow> c \<noteq> [] \<and> hd c AND 0x80 = 0 \<and> (hd c = 0 \<longrightarrow> tl c = [] \<or> hd (tl c) AND 0x80 \<noteq> 0)"

named_theorems writes_intros "what each DER writer writes"

subsection \<open>What the writers write\<close>

lemma writesD:
  "writes f bs \<Longrightarrow> f (room, out) =
    (if length bs \<le> room then Inr (length bs, (room - length bs, bs @ out)) else Inl DER_BUF_TOO_SMALL)"
  by (simp add: writes_def)

lemma writes_chk_add [writes_intros]:
  assumes "writes f x" and "writes (g (length x)) y"
  shows "writes (chk_add f g) (y @ x)"
  unfolding writes_def chk_add_def
  using writesD [OF assms(1)] writesD [OF assms(2)] by (auto simp: add.commute)

lemma writes_raw [writes_intros]: "writes (der_raw bs) bs"
  by (simp add: writes_def der_raw_def)

lemma writes_tag [writes_intros]: "writes (der_tag t) [t]"
  by (simp add: writes_def der_tag_def)

lemma writes_len [writes_intros]: "writes (der_len n) (len_octets n)"
  by (auto simp: writes_def der_len_def len_octets_def)

lemma writes_tlv:
  assumes "writes f content"
  shows "writes (chk_add (chk_add f der_len) (\<lambda>_. der_tag t)) (tlv t content)"
  using writes_chk_add [OF writes_chk_add [OF assms, of der_len], OF writes_len writes_tag, of "\<lambda>_. t"]
  by (simp add: tlv_def)

lemma writes_oid [writes_intros]: "writes (der_oid oid) (tlv ASN1_OID oid)"
  using writes_chk_add [OF writes_chk_add [OF writes_raw, of "\<lambda>_. der_len (length oid)"], OF writes_len writes_tag, of oid "\<lambda>_. ASN1_OID"]
  by (simp add: der_oid_def tlv_def)

lemma writes_mpint [writes_intros]:
  "writes (der_mpint val) (tlv ASN1_INTEGER (pad_positive (strip_zeros val)))"
proof -
  let ?v = "strip_zeros val"
  have "writes (if hd ?v AND 0x80 \<noteq> 0 then chk_add (der_raw ?v) (\<lambda>_. der_tag 0x00) else der_raw ?v) (pad_positive ?v)"
    using writes_chk_add [OF writes_raw writes_tag, of ?v "\<lambda>_. 0"] writes_raw
    by (simp add: pad_positive_def)
  from writes_tlv [OF this] show ?thesis by (simp add: der_mpint_def Let_def)
qed

lemma der_int_loop_eq:
  "der_int_loop len val (room, out) =
    (if length (min_octets val) \<le> room
     then Inr (len + length (min_octets val), (room - length (min_octets val), min_octets val @ out))
     else Inl DER_BUF_TOO_SMALL)"
proof (induction val arbitrary: len room out rule: less_induct)
  case (less val)
  show ?case
  proof (cases "val div 2 ^ 8 > 0 \<and> room \<noteq> 0")
    case True
    then have "der_int_loop len val (room, out) =
        der_int_loop (len + 1) (val div 256) (room - 1, word_of_nat val # out)"
      by (subst der_int_loop.simps) simp
    also have "\<dots> = (if length (min_octets (val div 256)) \<le> room - 1
       then Inr (len + 1 + length (min_octets (val div 256)), (room - 1 - length (min_octets (val div 256)),
              min_octets (val div 256) @ word_of_nat val # out))
       else Inl DER_BUF_TOO_SMALL)"
      using True by (intro less.IH) auto
    finally show ?thesis using True by (subst (1 2 3 4) min_octets.simps) auto
  next
    case False
    then show ?thesis
      by (subst der_int_loop.simps, subst (1 2 3 4) min_octets.simps) auto
  qed
qed

lemma min_octets_ne [simp]: "min_octets v \<noteq> []"
  by (subst min_octets.simps) simp

lemma writes_int [writes_intros]:
  "writes (der_int val) (tlv ASN1_INTEGER (pad_positive (min_octets (unat val))))"
  unfolding der_int_def
  by (rule writes_tlv) (auto simp: writes_def der_int_loop_eq pad_positive_def Let_def)

text \<open>The contract of an element writer, and what a loop of such writers writes.\<close>

locale element_writer =
  fixes wr :: "'a \<Rightarrow> writer" and enc :: "'a \<Rightarrow> byte list" and ok :: "'a \<Rightarrow> bool"
  assumes wr_writes: "ok x \<Longrightarrow> writes (wr x) (enc x)"
begin

lemma seq_writes: "list_all ok xs \<Longrightarrow> writes (write_seq wr xs) (concat (map enc xs))"
proof (induction xs)
  case Nil
  show ?case by (simp add: writes_def)
next
  case (Cons x xs)
  then have "writes (chk_add (write_seq wr xs) (\<lambda>_. wr x)) (enc x @ concat (map enc xs))"
    by (intro writes_chk_add wr_writes) auto
  then show ?case by simp
qed

lemma seq_fits:
  assumes "list_all ok xs" and "length (concat (map enc xs)) \<le> room"
  shows "\<exists>room'. write_seq wr xs (room, out) = Inr (length (concat (map enc xs)), (room', concat (map enc xs) @ out))"
  using writesD [OF seq_writes [OF assms(1)], of room out] assms(2) by simp

end

interpretation int_el: element_writer der_int
  "\<lambda>v. tlv ASN1_INTEGER (pad_positive (min_octets (unat v)))" "\<lambda>_. True"
  by unfold_locales (rule writes_int)

interpretation mpint_el: element_writer der_mpint
  "\<lambda>v. tlv ASN1_INTEGER (pad_positive (strip_zeros v))" "\<lambda>_. True"
  by unfold_locales (rule writes_mpint)

interpretation oid_el: element_writer der_oid "tlv ASN1_OID" "\<lambda>_. True"
  by unfold_locales (rule writes_oid)

subsection \<open>Values of INTEGERs\<close>

lemma be_nat_append: "be_nat (xs @ ys) = be_nat xs * 256 ^ length ys + be_nat ys"
  by (induction xs) (auto simp: power_add algebra_simps)

lemma be_nat_min_octets [simp]: "be_nat (min_octets v) = v"
proof (induction v rule: less_induct)
  case (less v)
  then show ?case
    by (subst min_octets.simps) (auto simp: be_nat_append)
qed

lemma be_nat_pad_positive [simp]: "be_nat (pad_positive v) = be_nat v"
  by (simp add: pad_positive_def)

lemma be_nat_strip_zeros [simp]: "be_nat (strip_zeros v) = be_nat v"
  by (induction v rule: strip_zeros.induct) auto

lemma strip_zeros_ne: "v \<noteq> [] \<Longrightarrow> strip_zeros v \<noteq> []"
  by (induction v rule: strip_zeros.induct) auto

lemma hd_min_octets: "v \<noteq> 0 \<Longrightarrow> hd (min_octets v) \<noteq> 0"
proof (induction v rule: less_induct)
  case (less v)
  show ?case
  proof (cases "v div 256 > 0")
    case True
    with less.IH [of "v div 256"] show ?thesis
      by (subst min_octets.simps) auto
  next
    case False
    then have "v < 256" by auto
    with less.prems have "(word_of_nat v :: byte) \<noteq> 0"
      by (simp add: word_unat_eq_iff)
    with False show ?thesis by (subst min_octets.simps) auto
  qed
qed

lemma pad_positive_ok:
  assumes "v \<noteq> []" and "hd v \<noteq> 0 \<or> tl v = []"
  shows "der_uint_ok (pad_positive v)"
  using assms by (cases v) (auto simp: der_uint_ok_def pad_positive_def)

lemma min_octets_0 [simp]: "min_octets 0 = [0]"
  by (subst min_octets.simps) simp

lemma der_int_ok: "der_uint_ok (pad_positive (min_octets v))"
  by (rule pad_positive_ok) (use hd_min_octets [of v] in \<open>cases "v = 0"; simp\<close>)+

lemma hd_strip_zeros: "hd (strip_zeros v) \<noteq> 0 \<or> tl (strip_zeros v) = [] \<or> v = []"
  by (induction v rule: strip_zeros.induct) auto

lemma der_mpint_ok: "v \<noteq> [] \<Longrightarrow> der_uint_ok (pad_positive (strip_zeros v))"
  using hd_strip_zeros [of v] by (intro pad_positive_ok strip_zeros_ne) auto


subsection \<open>Measuring elements\<close>

lemma len_octet_bits:
  "n < 0x80 \<Longrightarrow> (word_of_nat n :: byte) AND 0x80 = 0"
proof -
  have "\<forall>n \<in> set [0..<128]. (word_of_nat n :: byte) AND 0x80 = 0" by code_simp
  then show "n < 0x80 \<Longrightarrow> (word_of_nat n :: byte) AND 0x80 = 0" by simp
qed

lemma tlv_len_tlv:
  assumes "4 \<le> S" and "length c < 2 ^ 32"
  shows "der_tlv_len S (tlv t c @ rest) t = Inr (length (tlv t c))"
  using assms
  by (simp add: der_tlv_len_def tlv_def len_octets_def len_octet_bits be_nat_be_bytes Let_def)

lemma tlv_len_bounds: "der_tlv_len S p t = Inr n \<Longrightarrow> 2 \<le> n \<and> n \<le> length p"
  by (auto simp: der_tlv_len_def Let_def split: if_splits)

lemma tlv_inject:
  assumes "tlv t c @ r = tlv t c' @ r'" and "length c < 2 ^ 32" and "length c' < 2 ^ 32"
  shows "c = c' \<and> r = r'"
proof -
  have "length (tlv t c) = length (tlv t c')"
    using tlv_len_tlv [of 4 c t r] tlv_len_tlv [of 4 c' t r'] assms by simp
  with assms(1) have e: "tlv t c = tlv t c'" "r = r'" by auto
  have less: "length (len_octets m) + m < length (len_octets n) + n" if "m < n" for m n
    using that by (auto simp: len_octets_def)
  have "length (len_octets (length c)) + length c = length (len_octets (length c')) + length c'"
    using arg_cong [OF e(1), of length] by (simp add: tlv_def)
  then have "length c = length c'"
    using less by (metis linorder_neqE_nat less_irrefl)
  with e show ?thesis by (simp add: tlv_def)
qed

subsection \<open>Properties\<close>

text \<open>
  \<open>cantil_der_tlv_len\<close> measures an element exactly as the writers emit it, whatever
  follows it, and on any input at all the length it returns lies inside the input
  and is at least two, so that a walk over concatenated elements moves forward.
\<close>

theorem tlv_len_correct:
  assumes "4 \<le> S" and "length c < 2 ^ 32"
  shows "der_tlv_len S (tlv t c @ rest) t = Inr (length (tlv t c))
    \<and> (\<forall>p n. der_tlv_len S p t = Inr n \<longrightarrow> 2 \<le> n \<and> n \<le> length p)"
  using tlv_len_tlv [OF assms] tlv_len_bounds by blast

theorem tlv_len_correct_witness:
  "der_tlv_len 4 (tlv ASN1_SEQ [1, 2, 3] @ [9]) ASN1_SEQ = Inr 5"
  using tlv_len_correct [of 4 "[1, 2, 3]" ASN1_SEQ "[9]"]
  by (simp add: tlv_def len_octets_def)

text \<open>
  \<open>cantil_der_int\<close> writes an INTEGER element whose content is the DER form of the
  value: non-negative, minimal, and of exactly that value; it writes it in front
  of what is already in the buffer, or fails when the room does not suffice.
\<close>

theorem der_int_correct:
  "\<exists>c. be_nat c = unat val \<and> der_uint_ok c \<and> (\<forall>room out. der_int val (room, out) =
    (if length (tlv ASN1_INTEGER c) \<le> room
     then Inr (length (tlv ASN1_INTEGER c), (room - length (tlv ASN1_INTEGER c), tlv ASN1_INTEGER c @ out))
     else Inl DER_BUF_TOO_SMALL))"
  using writes_int [of val] der_int_ok [of "unat val"] unfolding writes_def
  by (intro exI [of _ "pad_positive (min_octets (unat val))"]) simp

text \<open>
  \<open>cantil_der_mpint\<close> does the same for a non-empty big-endian magnitude, with the
  leading zero octets of the input removed.
\<close>

theorem der_mpint_correct:
  assumes "v \<noteq> []"
  shows "\<exists>c. be_nat c = be_nat v \<and> der_uint_ok c \<and> writes (der_mpint v) (tlv ASN1_INTEGER c)"
  using writes_mpint [of v] der_mpint_ok [OF assms]
  by (intro exI [of _ "pad_positive (strip_zeros v)"]) simp

theorem der_mpint_correct_witness:
  "\<exists>c. be_nat c = 128 \<and> der_uint_ok c \<and> writes (der_mpint [0, 0, 0x80]) (tlv ASN1_INTEGER c)"
  using der_mpint_correct [of "[0, 0, 0x80]"] by simp

end
