(* ===== verification/Crl.thy ===== *)
theory Crl
  imports Der
begin

text \<open>
  The RFC 5280 CertificateList encoder at the end of \<open>firmware/src/ca/ca.c\<close>: the
  calendar conversion, the Time and INTEGER elements, the revoked entries, the
  extensions, the TBSCertList, and the assembly of the signed list.  Collecting
  the entries from storage is in theory \<open>Issued\<close>.

  Years are unbounded naturals here; the C code counts them in an \<open>int\<close>, which is
  enough for every time before the year \<open>2 ^ 31\<close>.
\<close>

unbundle bit_operations_syntax

definition CRL_MAX_REVOKED :: nat where "CRL_MAX_REVOKED = 64"
definition CERT_DER_MAX :: nat where "CERT_DER_MAX = 2048"

definition OID_CRL_NUMBER :: "byte list" where
  "OID_CRL_NUMBER = [0x55, 0x1D, 0x14]"

definition OID_ECDSA_SHA256 :: "byte list" where
  "OID_ECDSA_SHA256 = [0x2A, 0x86, 0x48, 0xCE, 0x3D, 0x04, 0x03, 0x02]"

record crl_entry =
  ce_serial :: "byte list"
  revoked_at_unix :: nat

subsection \<open>Calendar\<close>

definition leap :: "nat \<Rightarrow> bool" where
  "leap year \<longleftrightarrow> (year AND 3 = 0 \<and> year mod 100 \<noteq> 0) \<or> year mod 400 = 0"

function year_loop :: "nat \<Rightarrow> nat \<Rightarrow> nat \<times> nat" where
  "year_loop days year =
    (let yd = if leap year then 366 else 365 in
     if days < yd then (days, year) else year_loop (days - yd) (year + 1))"
  by auto
termination by (relation "measure fst") (auto simp: Let_def split: if_splits)

declare year_loop.simps [simp del]

definition mdn :: "nat list" where
  "mdn = [31, 28, 31, 30, 31, 30, 31, 31, 30, 31, 30, 31]"

text \<open>The guard \<open>mo < 12\<close> is not in the C loop; \<open>month_loop_day\<close> shows that it never ends the loop.\<close>

function month_loop :: "bool \<Rightarrow> nat \<Rightarrow> nat \<Rightarrow> nat \<times> nat" where
  "month_loop lp mo days =
    (if mo < 12 then
       let md = mdn ! mo + (if mo = 1 \<and> lp then 1 else 0) in
       if days < md then (mo, days) else month_loop lp (mo + 1) (days - md)
     else (mo, days))"
  by auto
termination by (relation "measure (\<lambda>(lp, mo, days). 12 - mo)") auto

declare month_loop.simps [simp del]

record datetime =
  dt_year :: nat
  dt_month :: nat
  dt_day :: nat
  dt_hour :: nat
  dt_min :: nat
  dt_sec :: nat

definition unix_to_ymdhms :: "nat \<Rightarrow> datetime" where
  "unix_to_ymdhms secs =
    (let days = secs div 86400; sod = secs mod 86400;
         (days, year) = year_loop days 1970;
         (mo, days) = month_loop (leap year) 0 days
     in \<lparr>dt_year = year, dt_month = mo + 1, dt_day = days + 1,
         dt_hour = sod div 3600, dt_min = sod mod 3600 div 60, dt_sec = sod mod 60\<rparr>)"

subsection \<open>Elements\<close>

text \<open>The tag and the first \<open>buf_len\<close> bytes that \<open>snprintf\<close> leaves in the buffer of \<open>write_time\<close>.\<close>

definition time_text :: "nat \<Rightarrow> byte \<times> string" where
  "time_text secs =
    (let d = unix_to_ymdhms secs; Y = dt_year d;
         rest = dec_pad 2 (dt_month d) @ dec_pad 2 (dt_day d) @ dec_pad 2 (dt_hour d)
                @ dec_pad 2 (dt_min d) @ dec_pad 2 (dt_sec d) @ ''Z''
     in if 1950 \<le> Y \<and> Y < 2050 then (ASN1_UTC_TIME, take 13 (dec_pad 2 (Y mod 100) @ rest))
        else (ASN1_GENERALIZED_TIME, take 15 (dec_pad 4 Y @ rest)))"

definition write_time :: "nat \<Rightarrow> writer" where
  "write_time unix_secs =
    (let (tag, cs) = time_text unix_secs; buf = str_bytes cs
     in chk_add (chk_add (der_raw buf) (\<lambda>_. der_len (length buf))) (\<lambda>_. der_tag tag))"

definition write_serial_int :: "byte list \<Rightarrow> writer" where
  "write_serial_int serial =
    (if length serial = 0 \<or> length serial > 20 then (\<lambda>_. Inl DER_INVALID_DATA)
     else chk_add (chk_add
       (if serial ! 0 AND 0x80 \<noteq> 0 then chk_add (der_raw serial) (\<lambda>_. der_tag 0x00) else der_raw serial)
       der_len)
       (\<lambda>_. der_tag ASN1_INTEGER))"

definition write_revoked_entry :: "crl_entry \<Rightarrow> writer" where
  "write_revoked_entry e =
    chk_add (chk_add (chk_add (write_time (revoked_at_unix e)) (\<lambda>_. write_serial_int (ce_serial e)))
      der_len)
      (\<lambda>_. der_tag ASN1_SEQ)"

definition write_crl_extensions :: "32 word \<Rightarrow> writer" where
  "write_crl_extensions crl_number =
    (let octets = chk_add (chk_add (der_int crl_number) der_len) (\<lambda>_. der_tag ASN1_OCTET_STRING);
         extension = chk_add (chk_add (chk_add octets (\<lambda>_. der_oid OID_CRL_NUMBER)) der_len) (\<lambda>_. der_tag ASN1_SEQ);
         extensions = chk_add (chk_add extension der_len) (\<lambda>_. der_tag ASN1_SEQ)
     in chk_add (chk_add extensions der_len) (\<lambda>_. der_tag ASN1_CTX0))"

definition write_alg_ecdsa_sha256 :: writer where
  "write_alg_ecdsa_sha256 =
    chk_add (chk_add (der_oid OID_ECDSA_SHA256) der_len) (\<lambda>_. der_tag ASN1_SEQ)"

definition write_tbs_body :: "byte list \<Rightarrow> nat \<Rightarrow> nat \<Rightarrow> crl_entry list \<Rightarrow> 32 word \<Rightarrow> writer" where
  "write_tbs_body issuer_raw this_update next_update entries crl_number =
    (let exts = write_crl_extensions crl_number;
         revoked = (if length entries > 0
           then chk_add exts (\<lambda>_. chk_add (chk_add (write_seq write_revoked_entry entries) der_len) (\<lambda>_. der_tag ASN1_SEQ))
           else exts)
     in chk_add (chk_add (chk_add (chk_add (chk_add revoked
          (\<lambda>_. write_time next_update))
          (\<lambda>_. write_time this_update))
          (\<lambda>_. der_raw issuer_raw))
          (\<lambda>_. write_alg_ecdsa_sha256))
          (\<lambda>_. der_int 1))"

text \<open>\<open>*out_off\<close> is the room that is left, and the TBS bytes are the output from there on.\<close>

definition write_tbs_cert_list :: "nat \<Rightarrow> byte list \<Rightarrow> nat \<Rightarrow> nat \<Rightarrow> crl_entry list \<Rightarrow> 32 word
    \<Rightarrow> der_err + (nat \<times> der_state)" where
  "write_tbs_cert_list cap issuer_raw this_update next_update entries crl_number =
    chk_add (chk_add (write_tbs_body issuer_raw this_update next_update entries crl_number) der_len)
      (\<lambda>_. der_tag ASN1_SEQ) (cap, [])"

definition write_ecdsa_sig :: "byte list \<Rightarrow> writer" where
  "write_ecdsa_sig raw_sig =
    chk_add (chk_add (chk_add (der_mpint (take 32 (drop 32 raw_sig))) (\<lambda>_. der_mpint (take 32 raw_sig)))
      der_len)
      (\<lambda>_. der_tag ASN1_SEQ)"

text \<open>
  The last part of \<open>build_crl_der\<close>, from the raw signature on: the Ecdsa-Sig-Value in a
  buffer of 80 bytes, then the outer SEQUENCE in a buffer of \<open>out_cap\<close> bytes, whose
  used part is moved to the front.  A failing \<open>CANTIL_DER_CHK_ADD\<close> returns the DER
  error number itself; the two explicit checks return \<open>-ENOMEM\<close>.
\<close>

definition der_rc :: "der_err + 'a \<Rightarrow> 'a res" where
  "der_rc r = (case r of Inl DER_BUF_TOO_SMALL \<Rightarrow> Inl (EOther 0x6C)
    | Inl DER_INVALID_DATA \<Rightarrow> Inl (EOther 0x68) | Inr x \<Rightarrow> Inr x)"

definition assemble_crl :: "nat \<Rightarrow> byte list \<Rightarrow> byte list \<Rightarrow> byte list res" where
  "assemble_crl out_cap tbs raw_sig =
    ok_then (der_rc (write_ecdsa_sig raw_sig (80, []))) (\<lambda>(_, (_, sig)).
    ok_then (der_rc (der_raw sig (out_cap, []))) (\<lambda>(n1, (room, out)).
    if room = 0 then Inl ENOMEM else
    ok_then (der_rc (der_len (n1 + 1) (room - 1, 0x00 # out))) (\<lambda>(n2, s).
    ok_then (der_rc (der_tag ASN1_BIT_STRING s)) (\<lambda>(n3, s).
    ok_then (der_rc (write_alg_ecdsa_sha256 s)) (\<lambda>(n4, (room, out)).
    if room < length tbs then Inl ENOMEM else
    let outer_len = n1 + 1 + n2 + n3 + n4 + length tbs in
    ok_then (der_rc (der_len outer_len (room - length tbs, tbs @ out))) (\<lambda>(n5, s).
    ok_then (der_rc (der_tag ASN1_SEQ s)) (\<lambda>(n6, (room, out)).
      Inr (take (outer_len + n5 + n6) out))))))))"

subsection \<open>Reference definitions\<close>

text \<open>
  The proleptic Gregorian calendar in closed form: the days before year \<open>y\<close>, counted
  from 1 January of year 1, and the days before month \<open>m\<close> of a year.
\<close>

definition leap_year :: "nat \<Rightarrow> bool" where
  "leap_year y \<longleftrightarrow> 4 dvd y \<and> \<not> 100 dvd y \<or> 400 dvd y"

definition days_before_year :: "nat \<Rightarrow> nat" where
  "days_before_year y = 365 * (y - 1) + (y - 1) div 4 + (y - 1) div 400 - (y - 1) div 100"

definition days_before_month :: "nat \<Rightarrow> nat \<Rightarrow> nat" where
  "days_before_month y m =
    [0, 31, 59, 90, 120, 151, 181, 212, 243, 273, 304, 334] ! (m - 1)
    + (if 2 < m \<and> leap_year y then 1 else 0)"

definition month_length :: "nat \<Rightarrow> nat \<Rightarrow> nat" where
  "month_length y m = [31, if leap_year y then 29 else 28, 31, 30, 31, 30, 31, 31, 30, 31, 30, 31] ! (m - 1)"

definition valid_datetime :: "datetime \<Rightarrow> bool" where
  "valid_datetime d \<longleftrightarrow> 1970 \<le> dt_year d \<and> 1 \<le> dt_month d \<and> dt_month d \<le> 12
    \<and> 1 \<le> dt_day d \<and> dt_day d \<le> month_length (dt_year d) (dt_month d)
    \<and> dt_hour d < 24 \<and> dt_min d < 60 \<and> dt_sec d < 60"

definition epoch_seconds :: "datetime \<Rightarrow> nat" where
  "epoch_seconds d =
    (days_before_year (dt_year d) - days_before_year 1970
     + days_before_month (dt_year d) (dt_month d) + (dt_day d - 1)) * 86400
    + dt_hour d * 3600 + dt_min d * 60 + dt_sec d"

text \<open>Reading a Time element back, with the two-digit years of RFC 5280.\<close>

definition time_value :: "byte \<Rightarrow> string \<Rightarrow> nat option" where
  "time_value tag s =
    (let yl = (if tag = ASN1_UTC_TIME then 2 else 4); y = dec_val (take yl s); r = drop yl s in
     if length s \<noteq> yl + 11 \<or> last s \<noteq> CHR ''Z'' then None
     else Some (epoch_seconds
       \<lparr>dt_year = (if tag = ASN1_UTC_TIME then if y < 50 then 2000 + y else 1900 + y else y),
        dt_month = dec_val (take 2 r), dt_day = dec_val (take 2 (drop 2 r)),
        dt_hour = dec_val (take 2 (drop 4 r)), dt_min = dec_val (take 2 (drop 6 r)),
        dt_sec = dec_val (take 2 (drop 8 r))\<rparr>))"


text \<open>Days before the month with index \<open>mo\<close>, up to the end of the year.\<close>

definition cum :: "bool \<Rightarrow> nat \<Rightarrow> nat" where
  "cum lp mo = [0, 31, 59, 90, 120, 151, 181, 212, 243, 273, 304, 334, 365] ! mo + (if 2 \<le> mo \<and> lp then 1 else 0)"

text \<open>The DER elements of RFC 5280 that the encoder is to write.\<close>

definition time_tlv :: "nat \<Rightarrow> byte list" where
  "time_tlv secs = tlv (fst (time_text secs)) (str_bytes (snd (time_text secs)))"

definition serial_tlv :: "byte list \<Rightarrow> byte list" where
  "serial_tlv serial = tlv ASN1_INTEGER (pad_positive serial)"

definition entry_tlv :: "crl_entry \<Rightarrow> byte list" where
  "entry_tlv e = tlv ASN1_SEQ (serial_tlv (ce_serial e) @ time_tlv (revoked_at_unix e))"

definition uint_tlv :: "32 word \<Rightarrow> byte list" where
  "uint_tlv n = tlv ASN1_INTEGER (pad_positive (min_octets (unat n)))"

definition extensions_tlv :: "32 word \<Rightarrow> byte list" where
  "extensions_tlv n = tlv ASN1_CTX0 (tlv ASN1_SEQ (tlv ASN1_SEQ
    (tlv ASN1_OID OID_CRL_NUMBER @ tlv ASN1_OCTET_STRING (uint_tlv n))))"

definition alg_tlv :: "byte list" where
  "alg_tlv = tlv ASN1_SEQ (tlv ASN1_OID OID_ECDSA_SHA256)"

definition tbs_tlv :: "byte list \<Rightarrow> nat \<Rightarrow> nat \<Rightarrow> crl_entry list \<Rightarrow> 32 word \<Rightarrow> byte list" where
  "tbs_tlv issuer this_update next_update entries n = tlv ASN1_SEQ
    (uint_tlv 1 @ alg_tlv @ issuer @ time_tlv this_update @ time_tlv next_update
     @ (if entries = [] then [] else tlv ASN1_SEQ (concat (map entry_tlv entries)))
     @ extensions_tlv n)"

definition sig_tlv :: "byte list \<Rightarrow> byte list" where
  "sig_tlv raw_sig = tlv ASN1_SEQ
    (tlv ASN1_INTEGER (pad_positive (strip_zeros (take 32 raw_sig)))
     @ tlv ASN1_INTEGER (pad_positive (strip_zeros (take 32 (drop 32 raw_sig)))))"

definition crl_tlv :: "byte list \<Rightarrow> byte list \<Rightarrow> byte list" where
  "crl_tlv tbs raw_sig = tlv ASN1_SEQ (tbs @ alg_tlv @ tlv ASN1_BIT_STRING (0 # sig_tlv raw_sig))"

definition serial_ok :: "crl_entry \<Rightarrow> bool" where
  "serial_ok e \<longleftrightarrow> 1 \<le> length (ce_serial e) \<and> length (ce_serial e) \<le> 20"

subsection \<open>The calendar conversion is exact\<close>

lemma leap_eq: "leap y = leap_year y"
proof -
  have "y AND 3 = y mod 4"
    using take_bit_eq_mask [of 2 y] by (simp add: mask_eq_exp_minus_1 take_bit_eq_mod)
  then show ?thesis by (auto simp: leap_def leap_year_def dvd_eq_mod_eq_0)
qed

lemma days_before_year_Suc:
  assumes "1 \<le> y"
  shows "days_before_year (y + 1) = days_before_year y + (if leap_year y then 366 else 365)"
proof -
  obtain p where p: "y = Suc p" using assms by (metis One_nat_def Suc_le_D)
  have le: "p div 100 \<le> p div 4 + p div 400" by (rule trans_le_add1) (rule div_le_mono2, simp_all)
  have d: "400 dvd Suc p \<Longrightarrow> 100 dvd Suc p" "100 dvd Suc p \<Longrightarrow> 4 dvd Suc p"
    by (auto elim: dvd_trans [rotated])
  have div: "Suc p div n = p div n + (if n dvd Suc p then 1 else 0)" for n
    by (simp add: div_Suc dvd_eq_mod_eq_0)
  show ?thesis
    unfolding days_before_year_def p leap_year_def
    using le d div [of 4] div [of 100] div [of 400]
    by (cases "400 dvd Suc p"; cases "100 dvd Suc p"; cases "4 dvd Suc p") (simp_all add: ac_simps)
qed

lemma days_before_year_mono: "x \<le> y \<Longrightarrow> 1 \<le> x \<Longrightarrow> days_before_year x \<le> days_before_year y"
  by (induction y rule: dec_induct) (use days_before_year_Suc in \<open>simp_all add: trans_le_add1\<close>)

lemma year_loop_correct:
  assumes "1 \<le> y" and "year_loop days y = (d, Y)"
  shows "y \<le> Y \<and> d < (if leap_year Y then 366 else 365) \<and> days_before_year Y + d = days_before_year y + days"
  using assms
proof (induction days y rule: year_loop.induct)
  case (1 days y)
  show ?case
  proof (cases "days < (if leap y then 366 else 365)")
    case True
    with 1(3) show ?thesis by (subst (asm) year_loop.simps) (simp add: leap_eq split: if_splits)
  next
    case False
    with 1(3) have "year_loop (days - (if leap y then 366 else 365)) (y + 1) = (d, Y)"
      by (subst (asm) year_loop.simps) (simp split: if_splits)
    from "1.IH" [OF refl False _ this] 1(2) False days_before_year_Suc [of y] show ?thesis
      by (auto simp: leap_eq split: if_splits)
  qed
qed

lemma cum_Suc: "mo < 12 \<Longrightarrow> cum lp (mo + 1) = cum lp mo + (mdn ! mo + (if mo = 1 \<and> lp then 1 else 0))"
proof -
  have "\<forall>lp \<in> {True, False}. \<forall>mo \<in> set [0..<12].
      cum lp (mo + 1) = cum lp mo + (mdn ! mo + (if mo = 1 \<and> lp then 1 else 0))"
    by code_simp
  then show "mo < 12 \<Longrightarrow> cum lp (mo + 1) = cum lp mo + (mdn ! mo + (if mo = 1 \<and> lp then 1 else 0))"
    by (cases lp) simp_all
qed

lemma month_loop_day:
  assumes "mo \<le> 12" and "cum lp mo + days < cum lp 12" and "month_loop lp mo days = (m, d)"
  shows "m < 12 \<and> d < mdn ! m + (if m = 1 \<and> lp then 1 else 0) \<and> cum lp m + d = cum lp mo + days"
  using assms
proof (induction lp mo days rule: month_loop.induct)
  case (1 lp mo days)
  from 1(3) 1(2) have mo: "mo < 12" by (cases "mo = 12") auto
  define md where "md = mdn ! mo + (if mo = 1 \<and> lp then 1 else 0)"
  show ?case
  proof (cases "days < md")
    case True
    with 1(4) mo show ?thesis by (subst (asm) month_loop.simps) (auto simp: md_def)
  next
    case False
    with 1(4) mo have "month_loop lp (mo + 1) (days - md) = (m, d)"
      by (subst (asm) month_loop.simps) (simp add: md_def Let_def)
    moreover have "cum lp (mo + 1) = cum lp mo + md" using cum_Suc [OF mo] by (simp add: md_def)
    ultimately show ?thesis using "1.IH" [OF mo md_def False] False mo 1(3) by simp
  qed
qed

lemma days_before_month_cum: "m < 12 \<Longrightarrow> days_before_month y (m + 1) = cum (leap y) m"
proof -
  assume m: "m < 12"
  then have "[0, 31, 59, 90, 120, 151, 181, 212, 243, 273, 304, 334] ! m =
      [0, 31, 59, 90, 120, 151, 181, 212, 243, 273, 304, 334, 365 :: nat] ! m"
    using nth_append [of "[0, 31, 59, 90, 120, 151, 181, 212, 243, 273, 304, 334 :: nat]" "[365]" m] by simp
  with m show ?thesis by (simp add: days_before_month_def cum_def leap_eq)
qed

lemma month_length_mdn: "m < 12 \<Longrightarrow> month_length y (m + 1) = mdn ! m + (if m = 1 \<and> leap y then 1 else 0)"
  by (auto simp: month_length_def mdn_def leap_eq nth_Cons split: nat.split)

lemma unix_to_ymdhms_correct:
  "valid_datetime (unix_to_ymdhms secs) \<and> epoch_seconds (unix_to_ymdhms secs) = secs"
proof -
  obtain d Y where y: "year_loop (secs div 86400) 1970 = (d, Y)" by (metis surj_pair)
  obtain m e where m: "month_loop (leap Y) 0 d = (m, e)" by (metis surj_pair)
  note Y = year_loop_correct [OF _ y, simplified]
  have "cum (leap Y) 0 + d < cum (leap Y) 12" using Y by (auto simp: cum_def leap_eq)
  from month_loop_day [OF _ this m] have M: "m < 12"
    "e < mdn ! m + (if m = 1 \<and> leap Y then 1 else 0)" "cum (leap Y) m + e = d"
    by (simp_all add: cum_def)
  have "valid_datetime (unix_to_ymdhms secs)"
    using y m Y M month_length_mdn [OF M(1), of Y]
    by (simp add: valid_datetime_def unix_to_ymdhms_def Let_def less_mult_imp_div_less)
  moreover have "epoch_seconds (unix_to_ymdhms secs) =
     (days_before_year Y - days_before_year 1970 + d) * 86400 + (secs mod 86400 div 3600) * 3600
     + (secs mod 86400 mod 3600 div 60) * 60 + secs mod 86400 mod 60"
    using y m M days_before_month_cum [OF M(1), of Y]
    by (simp add: epoch_seconds_def unix_to_ymdhms_def Let_def)
  moreover have "days_before_year Y - days_before_year 1970 + d = secs div 86400"
    using Y days_before_year_mono [of 1970 Y] by simp
  moreover have "(s div 3600) * 3600 + (s mod 3600 div 60) * 60 + s mod 60 = s" for s :: nat
  proof -
    have "s mod 60 = s mod 3600 mod 60" by (simp add: mod_mod_cancel)
    then show ?thesis
      using div_mult_mod_eq [of s 3600] div_mult_mod_eq [of "s mod 3600" 60] by linarith
  qed
  ultimately show ?thesis by (simp add: add.assoc) 
qed


subsection \<open>Elements of the list\<close>

lemma writes_raw_tlv: "writes (chk_add (chk_add (der_raw c) (\<lambda>_. der_len (length c))) (\<lambda>_. der_tag t)) (tlv t c)"
  using writes_chk_add [OF writes_chk_add [OF writes_raw, of "\<lambda>_. der_len (length c)"], OF writes_len writes_tag, of c "\<lambda>_. t"]
  by (simp add: tlv_def)

lemma writes_time [writes_intros]: "writes (write_time secs) (time_tlv secs)"
  using writes_raw_tlv [of "str_bytes (snd (time_text secs))" "fst (time_text secs)"]
  by (simp add: write_time_def time_tlv_def case_prod_unfold Let_def)

lemma month_length_le: "1 \<le> m \<Longrightarrow> m \<le> 12 \<Longrightarrow> month_length y m \<le> 31"
  using month_length_mdn [of "m - 1" y] by (auto simp: mdn_def nth_Cons split: nat.splits)

lemma year_before:
  assumes "secs < (days_before_year Y - days_before_year 1970) * 86400" and "1970 \<le> Y"
  shows "dt_year (unix_to_ymdhms secs) < Y"
proof (rule ccontr)
  let ?d = "unix_to_ymdhms secs"
  assume "\<not> dt_year ?d < Y"
  then have "days_before_year Y - days_before_year 1970 \<le> days_before_year (dt_year ?d) - days_before_year 1970"
    using assms(2) by (intro diff_le_mono days_before_year_mono) auto
  then have "(days_before_year Y - days_before_year 1970) * 86400 \<le> epoch_seconds ?d"
    unfolding epoch_seconds_def by (intro trans_le_add1 mult_le_mono) auto
  with assms unix_to_ymdhms_correct [of secs] show False by simp
qed

lemma year_bound: "secs < 253402300800 \<Longrightarrow> dt_year (unix_to_ymdhms secs) < 10000"
  using year_before [of secs 10000] by (simp add: days_before_year_def)

lemma datetime_digits:
  fixes secs
  defines "d \<equiv> unix_to_ymdhms secs"
  shows "length (dec_pad 2 (dt_month d)) = 2" "length (dec_pad 2 (dt_day d)) = 2"
    "length (dec_pad 2 (dt_hour d)) = 2" "length (dec_pad 2 (dt_min d)) = 2" "length (dec_pad 2 (dt_sec d)) = 2"
  using unix_to_ymdhms_correct [of secs] month_length_le [of "dt_month d" "dt_year d"]
  by (auto simp: d_def valid_datetime_def intro!: length_dec_pad)

lemma two_digit_year:
  "1970 \<le> y \<Longrightarrow> y < 2050 \<Longrightarrow> (if y mod 100 < 50 then 2000 + y mod 100 else 1900 + y mod 100) = (y :: nat)"
proof -
  assume y: "1970 \<le> y" "y < 2050"
  have k: "(100 * q + k) mod 100 = k" if "k < 100" for q k :: nat using that by simp
  show ?thesis
  proof (cases "y < 2000")
    case True
    with y k [of "y - 1900" 19] show ?thesis by simp
  next
    case False
    with y k [of "y - 2000" 20] show ?thesis by simp
  qed
qed

lemma epoch_seconds_eta:
  "epoch_seconds \<lparr>dt_year = dt_year d, dt_month = dt_month d, dt_day = dt_day d, dt_hour = dt_hour d,
      dt_min = dt_min d, dt_sec = dt_sec d\<rparr> = epoch_seconds d"
  by (simp add: epoch_seconds_def)

lemma time_value_text:
  assumes "secs < 253402300800"
  shows "time_value (fst (time_text secs)) (snd (time_text secs)) = Some secs"
proof -
  let ?d = "unix_to_ymdhms secs"
  note dig = datetime_digits [of secs]
  have y4: "length (dec_pad 4 (dt_year ?d)) = 4" using year_bound [OF assms] by (intro length_dec_pad) auto
  have y2: "length (dec_pad 2 (dt_year ?d mod 100)) = 2" by (intro length_dec_pad) auto
  have Y: "1970 \<le> dt_year ?d" "epoch_seconds ?d = secs"
    using unix_to_ymdhms_correct [of secs] by (auto simp: valid_datetime_def)
  show ?thesis
  proof (cases "dt_year ?d < 2050")
    case True
    with Y(1) have "fst (time_text secs) = ASN1_UTC_TIME" by (simp add: time_text_def Let_def)
    with True Y dig y2 two_digit_year [OF Y(1) True] show ?thesis
      by (simp add: time_text_def time_value_def Let_def epoch_seconds_eta split: if_splits)
  next
    case False
    then show ?thesis using Y dig y4 by (simp add: time_text_def time_value_def Let_def epoch_seconds_eta ASN1_UTC_TIME_def ASN1_GENERALIZED_TIME_def)
  qed
qed


lemma writes_serial_int:
  assumes "1 \<le> length serial" and "length serial \<le> 20"
  shows "writes (write_serial_int serial) (serial_tlv serial)"
proof -
  from assms have hd: "serial ! 0 = hd serial" "serial \<noteq> []" by (cases serial; simp)+
  have "writes (if hd serial AND 0x80 \<noteq> 0 then chk_add (der_raw serial) (\<lambda>_. der_tag 0x00) else der_raw serial)
      (pad_positive serial)"
    using writes_chk_add [OF writes_raw writes_tag, of serial "\<lambda>_. 0"] writes_raw
    by (simp add: pad_positive_def)
  from writes_tlv [OF this] assms hd show ?thesis
    by (simp add: write_serial_int_def serial_tlv_def)
qed

lemma writes_revoked_entry: "serial_ok e \<Longrightarrow> writes (write_revoked_entry e) (entry_tlv e)"
  unfolding write_revoked_entry_def entry_tlv_def serial_ok_def
  by (intro writes_tlv writes_chk_add writes_time writes_serial_int) auto

interpretation entry_el: element_writer write_revoked_entry entry_tlv serial_ok
  by unfold_locales (rule writes_revoked_entry)

interpretation time_el: element_writer write_time time_tlv "\<lambda>_. True"
  by unfold_locales (rule writes_time)

lemma writes_crl_extensions: "writes (write_crl_extensions n) (extensions_tlv n)"
  unfolding write_crl_extensions_def extensions_tlv_def uint_tlv_def Let_def
  by (intro writes_tlv writes_chk_add writes_int writes_oid)

lemma writes_alg: "writes write_alg_ecdsa_sha256 alg_tlv"
  unfolding write_alg_ecdsa_sha256_def alg_tlv_def by (intro writes_tlv writes_oid)

lemma writes_tbs_body:
  assumes "list_all serial_ok entries"
  shows "writes (write_tbs_body issuer t t' entries n)
    (uint_tlv 1 @ alg_tlv @ issuer @ time_tlv t @ time_tlv t'
     @ (if entries = [] then [] else tlv ASN1_SEQ (concat (map entry_tlv entries)))
     @ extensions_tlv n)"
proof -
  note parts = writes_time writes_raw writes_alg writes_int [folded uint_tlv_def] writes_crl_extensions
    writes_tlv entry_el.seq_writes [OF assms]
  show ?thesis
    unfolding write_tbs_body_def Let_def
    by (cases "entries = []") (auto intro!: writes_chk_add parts)
qed

lemma writes_ecdsa_sig: "writes (write_ecdsa_sig raw_sig) (sig_tlv raw_sig)"
  unfolding write_ecdsa_sig_def sig_tlv_def by (intro writes_tlv writes_chk_add writes_mpint)

lemma tbs_cert_list_eq:
  assumes "list_all serial_ok entries"
  shows "write_tbs_cert_list cap issuer t t' entries n =
    (let tbs = tbs_tlv issuer t t' entries n in
     if length tbs \<le> cap then Inr (length tbs, (cap - length tbs, tbs)) else Inl DER_BUF_TOO_SMALL)"
proof -
  have "writes (chk_add (chk_add (write_tbs_body issuer t t' entries n) der_len) (\<lambda>_. der_tag ASN1_SEQ))
      (tbs_tlv issuer t t' entries n)"
    unfolding tbs_tlv_def by (intro writes_tlv writes_tbs_body assms)
  from writesD [OF this, of cap "[]"] show ?thesis
    by (simp add: write_tbs_cert_list_def Let_def)
qed

lemma assemble_crl_Inr:
  assumes "length (sig_tlv raw_sig) \<le> 80" and "length (crl_tlv tbs raw_sig) \<le> cap"
  shows "assemble_crl cap tbs raw_sig = Inr (crl_tlv tbs raw_sig)"
  using assms
  by (auto simp: assemble_crl_def der_rc_def Let_def writesD [OF writes_ecdsa_sig] writesD [OF writes_raw]
      writesD [OF writes_len] writesD [OF writes_tag] writesD [OF writes_alg] crl_tlv_def tlv_def ac_simps)


lemma length_strip_zeros: "length (strip_zeros v) \<le> length v"
  by (induction v rule: strip_zeros.induct) auto

lemma length_tlv_short: "length c < 128 \<Longrightarrow> length (tlv t c) = 2 + length c"
  by (simp add: tlv_def len_octets_def)

lemma length_pad_positive: "length (pad_positive v) \<le> length v + 1"
  by (simp add: pad_positive_def)

lemma length_sig_tlv: "length (sig_tlv raw_sig) \<le> 72"
proof -
  have p: "length (pad_positive (strip_zeros (take 32 v))) \<le> 33" for v
    using length_pad_positive [of "strip_zeros (take 32 v)"] length_strip_zeros [of "take 32 v"] by simp
  have "length (tlv ASN1_INTEGER (pad_positive (strip_zeros (take 32 v)))) \<le> 35" for v
    using p [of v] by (subst length_tlv_short) auto
  from this [of raw_sig] this [of "drop 32 raw_sig"] show ?thesis
    unfolding sig_tlv_def by (subst length_tlv_short) auto
qed

lemma assemble_crl_Inl:
  assumes "cap < length (crl_tlv tbs raw_sig)"
  shows "\<exists>e. assemble_crl cap tbs raw_sig = Inl e"
  using assms length_sig_tlv [of raw_sig]
  by (auto simp: assemble_crl_def der_rc_def Let_def writesD [OF writes_ecdsa_sig] writesD [OF writes_raw]
      writesD [OF writes_len] writesD [OF writes_tag] writesD [OF writes_alg] crl_tlv_def tlv_def ac_simps)

lemma length_time_text: "length (snd (time_text secs)) = (if dt_year (unix_to_ymdhms secs) < 2050 then 13 else 15)"
proof -
  have "1970 \<le> dt_year (unix_to_ymdhms secs)" using unix_to_ymdhms_correct [of secs] by (simp add: valid_datetime_def)
  then show ?thesis
    using datetime_digits [of secs] length_dec_pad [of "dt_year (unix_to_ymdhms secs) mod 100" 2]
      length_dec_pad_ge [of 4 "dt_year (unix_to_ymdhms secs)"]
    by (simp add: time_text_def Let_def del: take_append)
qed

lemma year_after:
  assumes "(days_before_year Y - days_before_year 1970) * 86400 \<le> secs" and "1970 \<le> Y"
  shows "Y \<le> dt_year (unix_to_ymdhms secs)"
proof (rule ccontr)
  obtain d Z where y: "year_loop (secs div 86400) 1970 = (d, Z)" by (metis surj_pair)
  obtain m e where m: "month_loop (leap Z) 0 d = (m, e)" by (metis surj_pair)
  have Z: "dt_year (unix_to_ymdhms secs) = Z" using y m by (simp add: unix_to_ymdhms_def Let_def)
  assume "\<not> Y \<le> dt_year (unix_to_ymdhms secs)"
  with Z have "Z + 1 \<le> Y" by simp
  then have "days_before_year (Z + 1) \<le> days_before_year Y" by (rule days_before_year_mono) simp
  moreover have "days_before_year Y - days_before_year 1970 \<le> secs div 86400"
    using assms(1) by (simp add: less_eq_div_iff_mult_less_eq)
  moreover have "days_before_year 1970 \<le> days_before_year Z"
    using year_loop_correct [OF _ y] by (intro days_before_year_mono) auto
  ultimately show False
    using year_loop_correct [OF _ y] days_before_year_Suc [of Z] by (simp split: if_splits)
qed


lemma time_text_late:
  assumes "253402300800 \<le> secs"
  shows "last (snd (time_text secs)) \<noteq> CHR ''Z''" "length (snd (time_text secs)) = 15"
proof -
  let ?d = "unix_to_ymdhms secs"
  have Y: "10000 \<le> dt_year ?d"
    using year_after [of 10000 secs] assms by (simp add: days_before_year_def)
  then show "length (snd (time_text secs)) = 15" by (simp add: length_time_text)
  let ?ds = "dec_pad 2 (dt_month ?d) @ dec_pad 2 (dt_day ?d) @ dec_pad 2 (dt_hour ?d)
      @ dec_pad 2 (dt_min ?d) @ dec_pad 2 (dt_sec ?d)"
  have "\<not> length (dec_str (dt_year ?d)) \<le> 4"
    using dec_str_bound [of "dt_year ?d"] power_increasing [of "length (dec_str (dt_year ?d))" 4 "10 :: nat"] Y by auto
  then have len: "15 \<le> length (dec_pad 4 (dt_year ?d) @ ?ds)"
    using datetime_digits [of secs] by (simp add: dec_pad_def)
  have tx: "snd (time_text secs) = take 15 (dec_pad 4 (dt_year ?d) @ ?ds)"
  proof -
    have "snd (time_text secs) = take 15 ((dec_pad 4 (dt_year ?d) @ ?ds) @ ''Z'')"
      using Y by (simp add: time_text_def Let_def del: take_append)
    also have "\<dots> = take 15 (dec_pad 4 (dt_year ?d) @ ?ds)"
      using len by (subst take_append) simp
    finally show ?thesis .
  qed
  have "CHR ''Z'' \<notin> set (snd (time_text secs))"
    unfolding tx by (rule contra_subsetD [OF set_take_subset]) (simp add: not_in_dec_pad)
  moreover have "snd (time_text secs) \<noteq> []"
    using \<open>length (snd (time_text secs)) = 15\<close> by auto
  ultimately show "last (snd (time_text secs)) \<noteq> CHR ''Z''" by (metis last_in_set)
qed

lemma length_time_tlv:
  "length (time_tlv secs) = (if dt_year (unix_to_ymdhms secs) < 2050 then 15 else 17)"
  unfolding time_tlv_def by (subst length_tlv_short) (simp_all add: length_time_text)

lemma length_entry_tlv:
  assumes "length (ce_serial e) = 8" and "hd (ce_serial e) AND 0x80 = 0" and "revoked_at_unix e < 2524608000"
  shows "length (entry_tlv e) = 27"
proof -
  have "dt_year (unix_to_ymdhms (revoked_at_unix e)) < 2050"
    using year_before [of "revoked_at_unix e" 2050] assms(3) by (simp add: days_before_year_def)
  then have t: "length (time_tlv (revoked_at_unix e)) = 15" by (simp add: length_time_tlv)
  have "length (serial_tlv (ce_serial e)) = 10"
    unfolding serial_tlv_def using assms by (subst length_tlv_short) (simp_all add: pad_positive_def)
  with t show ?thesis unfolding entry_tlv_def by (subst length_tlv_short) simp_all
qed

lemma length_min_octets: "v < 256 ^ k \<Longrightarrow> 0 < k \<Longrightarrow> length (min_octets v) \<le> k"
proof (induction k arbitrary: v)
  case (Suc k)
  show ?case
  proof (cases "v div 256 > 0")
    case True
    with Suc.prems have "v div 256 < 256 ^ k" "0 < k"
      by (cases k; simp add: less_mult_imp_div_less)+
    with Suc.IH [of "v div 256"] True show ?thesis by (subst min_octets.simps) simp
  next
    case False
    then show ?thesis by (subst min_octets.simps) simp
  qed
qed simp

lemma length_uint_tlv: "length (uint_tlv n) \<le> 7"
proof -
  have "unat n < 256 ^ 4" using unsigned_less [of n, where 'a = nat] by simp
  then have "length (min_octets (unat n)) \<le> 4" by (intro length_min_octets) auto
  then have "length (pad_positive (min_octets (unat n))) \<le> 5"
    using length_pad_positive [of "min_octets (unat n)"] by simp
  then show ?thesis unfolding uint_tlv_def by (subst length_tlv_short) simp_all
qed

lemma length_extensions_tlv: "length (extensions_tlv n) \<le> 20"
proof -
  have "length (tlv ASN1_OCTET_STRING (uint_tlv n)) \<le> 9"
    using length_uint_tlv [of n] by (subst length_tlv_short) auto
  moreover have "length (tlv ASN1_OID OID_CRL_NUMBER) = 5"
    by (subst length_tlv_short) (simp_all add: OID_CRL_NUMBER_def)
  ultimately have "length (tlv ASN1_SEQ (tlv ASN1_OID OID_CRL_NUMBER @ tlv ASN1_OCTET_STRING (uint_tlv n))) \<le> 16"
    by (subst length_tlv_short) auto
  then have "length (tlv ASN1_SEQ (tlv ASN1_SEQ (tlv ASN1_OID OID_CRL_NUMBER @ tlv ASN1_OCTET_STRING (uint_tlv n)))) \<le> 18"
    by (subst length_tlv_short) auto
  then show ?thesis unfolding extensions_tlv_def by (subst length_tlv_short) auto
qed

lemma length_alg_tlv: "length alg_tlv = 12"
proof -
  have "length (tlv ASN1_OID OID_ECDSA_SHA256) = 10" by (subst length_tlv_short) (simp_all add: OID_ECDSA_SHA256_def)
  then show ?thesis unfolding alg_tlv_def by (subst length_tlv_short) simp_all
qed

lemma length_tlv_le: "length c \<le> 0xFFFF \<Longrightarrow> length (tlv t c) \<le> 4 + length c"
  by (simp add: tlv_def len_octets_def)

lemma length_uint_tlv_1: "length (uint_tlv 1) = 3"
  by (simp add: uint_tlv_def tlv_def len_octets_def pad_positive_def min_octets.simps)


lemma length_tbs_tlv:
  assumes "length entries \<le> 64" and "\<And>e. e \<in> set entries \<Longrightarrow> length (entry_tlv e) = 27"
    and "length issuer \<le> 247"
    and "dt_year (unix_to_ymdhms t) < 2050" and "dt_year (unix_to_ymdhms t') < 2050"
  shows "length (tbs_tlv issuer t t' entries n) \<le> 2048"
proof -
  have "sum_list (map (length \<circ> entry_tlv) entries) = 27 * length entries"
    using assms(2) by (induction entries) auto
  then have c: "length (concat (map entry_tlv entries)) = 27 * length entries"
    by (simp add: length_concat)
  have "length (if entries = [] then [] else tlv ASN1_SEQ (concat (map entry_tlv entries))) \<le> 1732"
    using length_tlv_le [of "concat (map entry_tlv entries)" ASN1_SEQ] c assms(1) by auto
  moreover have "length (time_tlv t) = 15" "length (time_tlv t') = 15"
    using assms(4,5) by (simp_all add: length_time_tlv)
  ultimately have "length (uint_tlv 1 @ alg_tlv @ issuer @ time_tlv t @ time_tlv t'
     @ (if entries = [] then [] else tlv ASN1_SEQ (concat (map entry_tlv entries)))
     @ extensions_tlv n) \<le> 2044" (is "length ?body \<le> _")
    using length_extensions_tlv [of n] assms(3) by (simp add: length_uint_tlv_1 length_alg_tlv)
  then show ?thesis
    unfolding tbs_tlv_def by (intro order_trans [OF length_tlv_le]) auto
qed

subsection \<open>Properties\<close>


text \<open>
  C20: \<open>write_time\<close> writes a Time element that reads back, under the rules of
  RFC 5280, as the same instant, for every instant before the year 10000.
\<close>

theorem write_time_roundtrip:
  assumes "secs < 253402300800"
  shows "\<exists>tag text. writes (write_time secs) (tlv tag (str_bytes text)) \<and> time_value tag text = Some secs"
  using writes_time [of secs] time_value_text [OF assms] unfolding time_tlv_def by blast

theorem write_time_roundtrip_witness:
  "\<exists>tag text. writes (write_time 1700000000) (tlv tag (str_bytes text)) \<and> time_value tag text = Some 1700000000"
  by (rule write_time_roundtrip) simp

text \<open>
  From the year 10000 on the text is cut at fifteen bytes and no longer ends in
  Z: \<open>write_time\<close> still succeeds, and the element it writes is not a Time.
\<close>

theorem write_time_late:
  assumes "253402300800 \<le> secs"
  shows "\<exists>tag text. writes (write_time secs) (tlv tag (str_bytes text)) \<and> length text = 15
    \<and> last text \<noteq> CHR ''Z'' \<and> time_value tag text = None"
proof (intro exI conjI)
  show "writes (write_time secs) (tlv (fst (time_text secs)) (str_bytes (snd (time_text secs))))"
    using writes_time [of secs] unfolding time_tlv_def .
  show "length (snd (time_text secs)) = 15" "last (snd (time_text secs)) \<noteq> CHR ''Z''"
    using time_text_late [OF assms] by simp_all
  then show "time_value (fst (time_text secs)) (snd (time_text secs)) = None"
    by (simp add: time_value_def)
qed

theorem write_time_late_witness:
  "\<exists>tag text. writes (write_time 253402300800) (tlv tag (str_bytes text)) \<and> length text = 15
    \<and> last text \<noteq> CHR ''Z'' \<and> time_value tag text = None"
  by (rule write_time_late) simp



text \<open>
  C21: The scratch buffer of \<open>CERT_DER_MAX\<close> bytes is enough for a full list: with at
  most \<open>CRL_MAX_REVOKED\<close> entries, the eight-byte positive serials the device
  generates, times before 2050 and an issuer name of at most 247 bytes, the
  TBSCertList is encoded.
\<close>

theorem tbs_fits_scratch:
  assumes "length entries \<le> CRL_MAX_REVOKED" and "length issuer \<le> 247"
    and "list_all (\<lambda>e. length (ce_serial e) = 8 \<and> hd (ce_serial e) AND 0x80 = 0
        \<and> revoked_at_unix e < 2524608000) entries"
    and "t < 2524608000" and "t' < 2524608000"
  shows "\<exists>len room. write_tbs_cert_list CERT_DER_MAX issuer t t' entries n =
    Inr (len, (room, tbs_tlv issuer t t' entries n))"
proof -
  have "list_all serial_ok entries" using assms(3) by (auto simp: list_all_iff serial_ok_def)
  moreover have "length (tbs_tlv issuer t t' entries n) \<le> 2048"
    using assms year_before [of t 2050] year_before [of t' 2050]
    by (intro length_tbs_tlv length_entry_tlv)
      (auto simp: list_all_iff CRL_MAX_REVOKED_def days_before_year_def)
  ultimately show ?thesis by (simp add: tbs_cert_list_eq CERT_DER_MAX_def Let_def)
qed

theorem tbs_fits_scratch_witness:
  "\<exists>len room. write_tbs_cert_list CERT_DER_MAX [0x30, 0] 1700000000 1700086400
      (replicate 64 \<lparr>ce_serial = [1, 2, 3, 4, 5, 6, 7, 8], revoked_at_unix = 1700000000\<rparr>) 1 =
    Inr (len, (room, tbs_tlv [0x30, 0] 1700000000 1700086400
      (replicate 64 \<lparr>ce_serial = [1, 2, 3, 4, 5, 6, 7, 8], revoked_at_unix = 1700000000\<rparr>) 1))"
  by (rule tbs_fits_scratch) (simp_all add: CRL_MAX_REVOKED_def list_all_iff)

text \<open>
  The last part of \<open>build_crl_der\<close> turns the TBS bytes and a raw signature into the
  SEQUENCE of the TBS, the algorithm and the BIT STRING of the Ecdsa-Sig-Value,
  or returns an error exactly when the output buffer is too small.  The 80-byte
  signature buffer always suffices.
\<close>

theorem assemble_crl_exact:
  "assemble_crl cap tbs raw_sig = Inr out \<longleftrightarrow>
    out = crl_tlv tbs raw_sig \<and> length (crl_tlv tbs raw_sig) \<le> cap"
proof (cases "length (crl_tlv tbs raw_sig) \<le> cap")
  case True
  with assemble_crl_Inr [of raw_sig tbs cap] length_sig_tlv [of raw_sig] show ?thesis by auto
next
  case False
  with assemble_crl_Inl [of cap tbs raw_sig] show ?thesis by auto
qed

end
