(* ===== verification/Certparse.thy ===== *)
theory Certparse
  imports Crl
begin

text \<open>
  The X.509 reader, \<open>firmware/src/ca/certparse_wolfssl.c\<close>: copying the fields of a
  decoded certificate into \<open>certparse_cert_t\<close>, and the chain verifier.

  wolfCrypt's parser and signature check are the parameter \<open>W\<close>.  \<open>decoded_cert\<close> has the
  fields of its \<open>DecodedCert\<close> that the code reads.  A pointer with a length is a list
  (empty for \<open>NULL\<close> or a length that is not positive); the subject name also carries
  the offset of its contents in the input, since the code steps back from there to
  the header of the element.

  A \<open>char\<close> array is the list of the bytes that were copied in before the terminator;
  \<open>cstr\<close> is the string that \<open>strlen\<close> and \<open>strcmp\<close> see, which ends at the first zero.
\<close>

record decoded_cert =
  dc_serial :: "byte list"
  dc_subjectCN :: "byte list"
  dc_subjectO :: "byte list"
  dc_subjectOU :: "byte list"
  dc_subjectC :: "byte list"
  dc_subjectST :: "byte list"
  dc_subjectL :: "byte list"
  dc_subjectRaw :: "nat \<times> byte list"
  dc_issuerRaw :: "byte list"
  dc_selfSigned :: bool
  dc_isCA :: bool
  dc_extKeyUsage :: "16 word option"
  dc_afterDate :: "byte list"
  dc_publicKey :: "byte list"
  dc_keyOID :: nat
  dc_extensions :: "byte list"

record wolfasn =
  wc_ParseCert :: "byte list \<Rightarrow> decoded_cert option"
  wc_ParseCertReq :: "byte list \<Rightarrow> decoded_cert option"
  wc_CheckCertSigPubKey :: "byte list \<Rightarrow> byte list \<Rightarrow> nat \<Rightarrow> bool"

record certgen_dn =
  dn_cn :: "byte list"
  dn_o :: "byte list"
  dn_ou :: "byte list"
  dn_c :: "byte list"
  dn_st :: "byte list"
  dn_l :: "byte list"

definition cstr :: "byte list \<Rightarrow> byte list" where
  "cstr a = takeWhile (\<lambda>b. b \<noteq> 0) a"

text \<open>\<open>cp_pubkey\<close> and \<open>cp_x25519\<close> are \<open>None\<close> when the \<open>has_\<close> flag is false.\<close>

record certparse_cert_t =
  cp_serial :: "byte list"
  cp_subject :: certgen_dn
  cp_dn_overflow :: bool
  cp_subject_der :: "byte list"
  cp_pubkey :: "byte list option"
  cp_self_signed :: bool
  cp_is_ca :: bool
  cp_key_usage :: "16 word"
  cp_na :: "nat \<times> nat \<times> nat"
  cp_x25519 :: "byte list option"

definition CERTPARSE_SERIAL_MAX :: nat where "CERTPARSE_SERIAL_MAX = 32"
definition CERTPARSE_MAX_CHAIN :: nat where "CERTPARSE_MAX_CHAIN = 8"
definition CERTPARSE_SUBJECT_MAX :: nat where "CERTPARSE_SUBJECT_MAX = 320"
definition CERTPARSE_MAX_INTER :: nat where "CERTPARSE_MAX_INTER = 8"

definition OID_SESSION_X25519 :: "byte list" where
  "OID_SESSION_X25519 = [0x2b, 0x06, 0x01, 0x04, 0x01, 0x83, 0xc7, 0x1e, 0x01, 0x01]"

subsection \<open>Fields\<close>

definition dn_set :: "nat \<Rightarrow> byte list \<Rightarrow> byte list" where
  "dn_set cap src = take (cap - 1) src"

definition dn_too_long :: "nat \<Rightarrow> byte list \<Rightarrow> bool" where
  "dn_too_long cap src \<longleftrightarrow> length src \<ge> cap"

definition fill_dn :: "decoded_cert \<Rightarrow> certgen_dn \<times> bool" where
  "fill_dn dc =
    (\<lparr>dn_cn = dn_set 65 (dc_subjectCN dc), dn_o = dn_set 65 (dc_subjectO dc), dn_ou = dn_set 65 (dc_subjectOU dc),
      dn_c = dn_set 3 (dc_subjectC dc), dn_st = dn_set 65 (dc_subjectST dc), dn_l = dn_set 65 (dc_subjectL dc)\<rparr>,
     dn_too_long 65 (dc_subjectCN dc) \<or> dn_too_long 65 (dc_subjectO dc) \<or> dn_too_long 65 (dc_subjectOU dc)
     \<or> dn_too_long 3 (dc_subjectC dc) \<or> dn_too_long 65 (dc_subjectST dc) \<or> dn_too_long 65 (dc_subjectL dc))"

text \<open>The loop of \<open>find_bytes\<close>: the rest of the haystack from the first match on.\<close>

fun find_from :: "byte list \<Rightarrow> byte list \<Rightarrow> byte list option" where
  "find_from needle [] = None"
| "find_from needle (b # bs) =
    (if length needle \<le> length (b # bs) \<and> take (length needle) (b # bs) = needle then Some (b # bs)
     else find_from needle bs)"

definition find_bytes :: "byte list \<Rightarrow> byte list \<Rightarrow> byte list option" where
  "find_bytes hay needle = (if needle = [] \<or> length hay < length needle then None else find_from needle hay)"

definition extract_x25519 :: "decoded_cert \<Rightarrow> byte list option" where
  "extract_x25519 dc =
    (if dc_extensions dc = [] then None
     else case find_bytes (dc_extensions dc) OID_SESSION_X25519 of
       None \<Rightarrow> None
     | Some oid \<Rightarrow>
         (case find_bytes (drop (length OID_SESSION_X25519) oid) [0x04, 0x20] of
            None \<Rightarrow> None
          | Some os \<Rightarrow> if length os < 2 + 32 then None else Some (take 32 (drop 2 os))))"

definition extract_pubkey :: "decoded_cert \<Rightarrow> byte list option" where
  "extract_pubkey dc =
    (if length (dc_publicKey dc) < 65 then None
     else let pt = drop (length (dc_publicKey dc) - 65) (dc_publicKey dc) in
       if pt ! 0 \<noteq> 0x04 then None else Some (take 65 pt))"

definition is_digit :: "byte \<Rightarrow> bool" where
  "is_digit b \<longleftrightarrow> 48 \<le> b \<and> b \<le> 57"

definition digits_val :: "byte list \<Rightarrow> nat" where
  "digits_val bs = foldl (\<lambda>a b. 10 * a + (unat b - 48)) 0 bs"

text \<open>
  The date that \<open>parse_after_date\<close> leaves, \<open>(0, 0, 0)\<close> if it returns early.  A length octet
  that promises more bytes than wolfCrypt delivered reads as no date.
\<close>

definition parse_after_date :: "decoded_cert \<Rightarrow> nat \<times> nat \<times> nat" where
  "parse_after_date dc =
    (let d = dc_afterDate dc; len = length d in
     if len < 2 then (0, 0, 0)
     else
       let (tag, len, d) = (if d ! 0 = ASN1_UTC_TIME \<or> d ! 0 = ASN1_GENERALIZED_TIME then (d ! 0, unat (d ! 1), drop 2 d)
              else (if len \<ge> 15 then ASN1_GENERALIZED_TIME else ASN1_UTC_TIME, len, d));
           need = (if tag = ASN1_GENERALIZED_TIME then 8 else 6)
       in if len < need \<or> length d < need \<or> \<not> list_all is_digit (take need d) then (0, 0, 0)
          else
            let (y, idx) = (if tag = ASN1_GENERALIZED_TIME then (digits_val (take 4 d), 4)
                  else let yy = digits_val (take 2 d) in (if yy < 50 then 2000 + yy else 1900 + yy, 2))
            in (y, digits_val (take 2 (drop idx d)), digits_val (take 2 (drop (idx + 2) d))))"

definition fill_subject_der :: "decoded_cert \<Rightarrow> byte list \<Rightarrow> byte list" where
  "fill_subject_der dc der =
    (let (off, content) = dc_subjectRaw dc; content_len = length content in
     if content_len = 0 then []
     else
       let hdr = (if content_len < 0x80 then 2 else if content_len \<le> 0xFF then 3 else if content_len \<le> 0xFFFF then 4 else 5);
           total = hdr + content_len
       in if off < hdr \<or> total > CERTPARSE_SUBJECT_MAX \<or> der ! (off - hdr) \<noteq> ASN1_SEQ then []
          else take total (drop (off - hdr) der))"

definition cert_decode :: "wolfasn \<Rightarrow> byte list \<Rightarrow> decoded_cert res" where
  "cert_decode W der = (case wc_ParseCert W der of None \<Rightarrow> Inl EINVAL | Some dc \<Rightarrow> Inr dc)"

definition certparse_cert :: "wolfasn \<Rightarrow> byte list \<Rightarrow> certparse_cert_t res" where
  "certparse_cert W der =
    (if der = [] then Inl EINVAL
     else ok_then (cert_decode W der) (\<lambda>dc. Inr
       \<lparr>cp_serial = (if 0 < length (dc_serial dc) \<and> length (dc_serial dc) \<le> CERTPARSE_SERIAL_MAX then dc_serial dc else []),
        cp_subject = fst (fill_dn dc), cp_dn_overflow = snd (fill_dn dc),
        cp_subject_der = fill_subject_der dc der, cp_pubkey = extract_pubkey dc,
        cp_self_signed = dc_selfSigned dc, cp_is_ca = dc_isCA dc,
        cp_key_usage = (case dc_extKeyUsage dc of None \<Rightarrow> 0 | Some ku \<Rightarrow> ku),
        cp_na = parse_after_date dc, cp_x25519 = extract_x25519 dc\<rparr>))"

definition certparse_csr :: "wolfasn \<Rightarrow> byte list \<Rightarrow> (certgen_dn \<times> byte list) res" where
  "certparse_csr W der =
    (if der = [] then Inl EINVAL
     else case wc_ParseCertReq W der of
       None \<Rightarrow> Inl EINVAL
     | Some dc \<Rightarrow>
         let subject = fst (fill_dn dc) in
         (case extract_pubkey dc of
            None \<Rightarrow> Inl EINVAL
          | Some pubkey \<Rightarrow> if cstr (dn_cn subject) = [] then Inl EINVAL else Inr (subject, pubkey)))"

subsection \<open>Chain verification\<close>

definition signed_by :: "wolfasn \<Rightarrow> byte list \<Rightarrow> decoded_cert \<Rightarrow> decoded_cert \<Rightarrow> bool" where
  "signed_by W child_der child parent \<longleftrightarrow>
    dc_issuerRaw child \<noteq> [] \<and> dc_issuerRaw child = snd (dc_subjectRaw parent) \<and> dc_isCA parent
    \<and> wc_CheckCertSigPubKey W child_der (dc_publicKey parent) (dc_keyOID parent)"

text \<open>
  \<open>certs ! i\<close> is the decoded intermediate, or \<open>None\<close> when \<open>inter_ok[i]\<close> is false;
  \<open>tr\<close> is \<open>inter_trusted\<close>.  \<open>promote\<close> is the inner loop of a round, \<open>verify_rounds\<close> the outer.
\<close>

definition by_trusted :: "wolfasn \<Rightarrow> byte list \<Rightarrow> decoded_cert \<Rightarrow> decoded_cert option list \<Rightarrow> bool list \<Rightarrow> nat \<Rightarrow> bool" where
  "by_trusted W der dc certs tr j \<longleftrightarrow>
    (case certs ! j of None \<Rightarrow> False | Some p \<Rightarrow> tr ! j \<and> signed_by W der dc p)"

fun promote :: "wolfasn \<Rightarrow> byte list list \<Rightarrow> decoded_cert option list \<Rightarrow> decoded_cert \<Rightarrow> nat list
    \<Rightarrow> bool list \<times> bool \<Rightarrow> bool list \<times> bool" where
  "promote W inter_ders certs anchor [] st = st"
| "promote W inter_ders certs anchor (i # is) (tr, progress) =
    (case certs ! i of
       None \<Rightarrow> promote W inter_ders certs anchor is (tr, progress)
     | Some dc \<Rightarrow>
         if tr ! i then promote W inter_ders certs anchor is (tr, progress)
         else if signed_by W (inter_ders ! i) dc anchor
           \<or> list_ex (\<lambda>j. j \<noteq> i \<and> by_trusted W (inter_ders ! i) dc certs tr j) [0..<length certs]
         then promote W inter_ders certs anchor is (tr[i := True], True)
         else promote W inter_ders certs anchor is (tr, progress))"

fun verify_rounds :: "wolfasn \<Rightarrow> byte list \<Rightarrow> decoded_cert \<Rightarrow> byte list list \<Rightarrow> decoded_cert option list
    \<Rightarrow> decoded_cert \<Rightarrow> nat \<Rightarrow> bool list \<Rightarrow> errno option" where
  "verify_rounds W leaf_der leaf inter_ders certs anchor 0 tr = Some EINVAL"
| "verify_rounds W leaf_der leaf inter_ders certs anchor (Suc n) tr =
    (if signed_by W leaf_der leaf anchor then None
     else if list_ex (by_trusted W leaf_der leaf certs tr) [0..<length certs] then None
     else case promote W inter_ders certs anchor [0..<length certs] (tr, False) of (tr, progress) \<Rightarrow>
       if progress then verify_rounds W leaf_der leaf inter_ders certs anchor n tr else Some EINVAL)"

definition decode_inter :: "wolfasn \<Rightarrow> byte list \<Rightarrow> decoded_cert option" where
  "decode_inter W der = (if der = [] then None else wc_ParseCert W der)"

definition certparse_verify_chain :: "wolfasn \<Rightarrow> byte list \<Rightarrow> byte list list \<Rightarrow> byte list \<Rightarrow> errno option" where
  "certparse_verify_chain W leaf_der inter_ders anchor_der =
    (if leaf_der = [] \<or> anchor_der = [] then Some EINVAL
     else if length inter_ders > CERTPARSE_MAX_INTER then Some EINVAL
     else case (cert_decode W leaf_der, cert_decode W anchor_der) of
       (Inr leaf, Inr anchor) \<Rightarrow>
         verify_rounds W leaf_der leaf inter_ders (map (decode_inter W) inter_ders) anchor
           (length inter_ders + 1) (replicate (length inter_ders) False)
     | _ \<Rightarrow> Some EINVAL)"

text \<open>
  The policy that the header \<open>certparse.h\<close> fixes, as a relation: a certificate is
  anchored when the anchor signed it, or an anchored certificate among the supplied
  ones did.
\<close>

inductive anchored :: "wolfasn \<Rightarrow> byte list set \<Rightarrow> byte list \<Rightarrow> byte list \<Rightarrow> bool"
  for W :: wolfasn and supplied :: "byte list set" and anchor_der :: "byte list" where
  direct: "wc_ParseCert W der = Some dc \<Longrightarrow> wc_ParseCert W anchor_der = Some a \<Longrightarrow> signed_by W der dc a
    \<Longrightarrow> anchored W supplied anchor_der der"
| via: "wc_ParseCert W der = Some dc \<Longrightarrow> p \<in> supplied \<Longrightarrow> p \<noteq> [] \<Longrightarrow> anchored W supplied anchor_der p
    \<Longrightarrow> wc_ParseCert W p = Some pc \<Longrightarrow> signed_by W der dc pc \<Longrightarrow> anchored W supplied anchor_der der"

inductive_cases anchoredE: "anchored W supplied anchor_der der"


subsection \<open>The verifier decides the relation\<close>

text \<open>
  \<open>sound_tr\<close>: everything that is marked is anchored.  \<open>closed_tr\<close>: nothing more can be
  marked.
\<close>

definition sound_tr :: "wolfasn \<Rightarrow> byte list list \<Rightarrow> byte list \<Rightarrow> bool list \<Rightarrow> bool" where
  "sound_tr W ders anchor_der tr \<longleftrightarrow> length tr = length ders \<and>
    (\<forall>i < length ders. tr ! i \<longrightarrow> ders ! i \<noteq> [] \<and> anchored W (set ders) anchor_der (ders ! i))"

definition addable :: "wolfasn \<Rightarrow> byte list list \<Rightarrow> decoded_cert \<Rightarrow> bool list \<Rightarrow> nat \<Rightarrow> bool" where
  "addable W ders anchor tr i \<longleftrightarrow> (\<exists>dc. decode_inter W (ders ! i) = Some dc \<and> \<not> tr ! i \<and>
    (signed_by W (ders ! i) dc anchor
     \<or> (\<exists>j < length ders. j \<noteq> i \<and> by_trusted W (ders ! i) dc (map (decode_inter W) ders) tr j)))"

lemma by_trusted_iff:
  "j < length ders \<Longrightarrow> by_trusted W der dc (map (decode_inter W) ders) tr j \<longleftrightarrow>
    (\<exists>p. decode_inter W (ders ! j) = Some p \<and> tr ! j \<and> signed_by W der dc p)"
  by (auto simp: by_trusted_def split: option.splits)

lemma decode_interD: "decode_inter W d = Some dc \<Longrightarrow> d \<noteq> [] \<and> wc_ParseCert W d = Some dc"
  by (simp add: decode_inter_def split: if_splits)

lemma promote_step:
  assumes "i < length ders"
  shows "promote W ders (map (decode_inter W) ders) anchor (i # is) (tr, b) =
    (if addable W ders anchor tr i then promote W ders (map (decode_inter W) ders) anchor is (tr[i := True], True)
     else promote W ders (map (decode_inter W) ders) anchor is (tr, b))"
  using assms by (auto simp: addable_def list_ex_iff split: option.splits)

declare promote.simps(2) [simp del]

lemma count_False_update: "i < length tr \<Longrightarrow> \<not> tr ! i \<Longrightarrow> count_list (tr[i := True]) False < count_list tr False"
  by (induction tr arbitrary: i) (auto split: nat.split simp: nth_Cons)

lemma by_trusted_anchored:
  assumes "sound_tr W ders anchor_der tr" and "wc_ParseCert W der = Some dc" and "j < length ders"
    and "by_trusted W der dc (map (decode_inter W) ders) tr j"
  shows "anchored W (set ders) anchor_der der"
proof -
  from assms(3,4) obtain p where p: "decode_inter W (ders ! j) = Some p" "tr ! j" "signed_by W der dc p"
    by (auto simp: by_trusted_iff)
  with assms(1,3) have "anchored W (set ders) anchor_der (ders ! j)" by (simp add: sound_tr_def)
  with p assms(2,3) decode_interD [OF p(1)] show ?thesis by (intro anchored.via [OF assms(2)]) auto
qed

lemma addable_sound:
  assumes "sound_tr W ders anchor_der tr" and "wc_ParseCert W anchor_der = Some anchor" and "i < length ders"
    and "addable W ders anchor tr i"
  shows "sound_tr W ders anchor_der (tr[i := True])"
proof -
  from assms(4) obtain dc where dc: "decode_inter W (ders ! i) = Some dc"
    "signed_by W (ders ! i) dc anchor \<or> (\<exists>j < length ders. by_trusted W (ders ! i) dc (map (decode_inter W) ders) tr j)"
    by (auto simp: addable_def)
  note d = decode_interD [OF dc(1)]
  from dc(2) have "anchored W (set ders) anchor_der (ders ! i)"
    using anchored.direct [OF _ assms(2)] by_trusted_anchored [OF assms(1)] d by blast
  with assms(1,3) d show ?thesis by (auto simp: sound_tr_def nth_list_update)
qed

lemma promote_sound:
  assumes "sound_tr W ders anchor_der tr" and "wc_ParseCert W anchor_der = Some anchor" and "set is \<subseteq> {..<length ders}"
    and "promote W ders (map (decode_inter W) ders) anchor is (tr, b) = (tr', b')"
  shows "sound_tr W ders anchor_der tr'"
  using assms
proof (induction "is" arbitrary: tr b)
  case (Cons i "is")
  then have i: "i < length ders" by simp
  with Cons.IH [of tr b] Cons.IH [OF addable_sound [OF Cons.prems(1,2) i], of True] Cons.prems show ?case
    by (simp add: promote_step split: if_splits)
qed simp

lemma promote_progress:
  assumes "length tr = length ders" and "set is \<subseteq> {..<length ders}"
    and "promote W ders (map (decode_inter W) ders) anchor is (tr, b) = (tr', b')"
  shows "length tr' = length ders \<and> count_list tr' False \<le> count_list tr False \<and> (b \<longrightarrow> b')
    \<and> (\<not> b' \<longrightarrow> tr' = tr \<and> (\<forall>i \<in> set is. \<not> addable W ders anchor tr i))
    \<and> (b' \<and> \<not> b \<longrightarrow> count_list tr' False < count_list tr False)"
  using assms
proof (induction "is" arbitrary: tr b)
  case (Cons i "is")
  then have i: "i < length ders" "i < length tr" by simp_all
  show ?case
  proof (cases "addable W ders anchor tr i")
    case True
    then have "\<not> tr ! i" by (auto simp: addable_def)
    then have "count_list (tr[i := True]) False < count_list tr False"
      by (rule count_False_update [OF i(2)])
    with Cons.IH [of "tr[i := True]" True] Cons.prems True i show ?thesis
      by (auto simp: promote_step)
  next
    case False
    with Cons.IH [of tr b] Cons.prems i show ?thesis by (auto simp: promote_step)
  qed
qed simp

lemma closed_marks:
  assumes "anchored W (set ders) anchor_der der" and "wc_ParseCert W anchor_der = Some anchor"
    and "\<forall>i < length ders. \<not> addable W ders anchor tr i"
    and "i < length ders" and "ders ! i = der" and "der \<noteq> []"
  shows "tr ! i"
  using assms(1,4-6)
proof (induction arbitrary: i)
  case (direct der dc a)
  then have "decode_inter W (ders ! i) = Some dc" "a = anchor" using assms(2) by (simp_all add: decode_inter_def)
  with direct assms(3) show ?case by (auto simp: addable_def)
next
  case (via der dc p pc)
  from via(2) obtain j where j: "j < length ders" "ders ! j = p" by (auto simp: in_set_conv_nth)
  with via have "tr ! j" by blast
  moreover have "decode_inter W (ders ! i) = Some dc" "decode_inter W (ders ! j) = Some pc"
    using via j by (simp_all add: decode_inter_def)
  ultimately show ?case using assms(3) via j by (cases "j = i") (auto simp: addable_def by_trusted_iff)
qed

lemma verify_rounds_iff:
  assumes "sound_tr W ders anchor_der tr" and "wc_ParseCert W anchor_der = Some anchor"
    and "wc_ParseCert W leaf_der = Some leaf" and "count_list tr False < n"
  shows "verify_rounds W leaf_der leaf ders (map (decode_inter W) ders) anchor n tr = None
    \<longleftrightarrow> anchored W (set ders) anchor_der leaf_der"
  using assms(1,4)
proof (induction n arbitrary: tr)
  case (Suc n)
  let ?C = "map (decode_inter W) ders"
  let ?hit = "signed_by W leaf_der leaf anchor \<or> list_ex (by_trusted W leaf_der leaf ?C tr) [0..<length ?C]"
  obtain tr' b where p: "promote W ders ?C anchor [0..<length ?C] (tr, False) = (tr', b)" by (metis surj_pair)
  have sub: "set [0..<length ?C] \<subseteq> {..<length ders}" by auto
  have len: "length tr = length ders" using Suc.prems(1) by (simp add: sound_tr_def)
  note prog = promote_progress [OF len sub p]
  show ?case
  proof (cases ?hit)
    case True
    then have "anchored W (set ders) anchor_der leaf_der"
      using anchored.direct [OF assms(3,2)] by_trusted_anchored [OF Suc.prems(1) assms(3)] by (auto simp: list_ex_iff)
    with True show ?thesis by auto
  next
    case no: False
    show ?thesis
    proof (cases b)
      case True
      with prog Suc.prems(2) have "count_list tr' False < n" by simp
      from Suc.IH [OF promote_sound [OF Suc.prems(1) assms(2) sub p] this] no p True show ?thesis by simp
    next
      case False
      with prog have closed: "\<forall>i < length ders. \<not> addable W ders anchor tr i" by auto
      have "\<not> anchored W (set ders) anchor_der leaf_der"
      proof
        assume "anchored W (set ders) anchor_der leaf_der"
        then show False
        proof (cases rule: anchored.cases)
          case (via dc q pc)
          from via(2) obtain j where j: "j < length ders" "ders ! j = q" by (auto simp: in_set_conv_nth)
          have "tr ! j" by (rule closed_marks [OF via(4) assms(2) closed j via(3)])
          with via j assms(3) no show False by (auto simp: list_ex_iff by_trusted_iff decode_inter_def)
        qed (use assms(2,3) no in simp)
      qed
      with no p False show ?thesis by simp
    qed
  qed
qed simp

lemma anchored_parses:
  "anchored W S anchor_der der \<Longrightarrow> wc_ParseCert W der \<noteq> None \<and> wc_ParseCert W anchor_der \<noteq> None"
  by (induction rule: anchored.induct) auto

lemma verify_rounds_result:
  "verify_rounds W leaf_der leaf ders certs anchor n tr = None \<or> verify_rounds W leaf_der leaf ders certs anchor n tr = Some EINVAL"
  by (induction n arbitrary: tr) (auto split: prod.splits)

text \<open>
  C9: The chain verifier decides the trust policy exactly.  It accepts a leaf if and
  only if a path of signatures by CA certificates leads from it to the anchor through
  the supplied intermediates, in whatever order these arrive, even if they sign one
  another in a cycle; a supplied certificate is never trusted on its own.  Anything
  else, and more than 8 intermediates, is refused with \<open>-EINVAL\<close>.
\<close>

theorem chain_verifier_exact:
  "certparse_verify_chain W leaf_der inter_ders anchor_der =
    (if leaf_der \<noteq> [] \<and> anchor_der \<noteq> [] \<and> length inter_ders \<le> 8 \<and> anchored W (set inter_ders) anchor_der leaf_der
     then None else Some EINVAL)"
proof (cases "leaf_der = [] \<or> anchor_der = [] \<or> 8 < length inter_ders \<or> wc_ParseCert W leaf_der = None \<or> wc_ParseCert W anchor_der = None")
  case True
  then show ?thesis using anchored_parses [of W "set inter_ders" anchor_der leaf_der]
    by (cases "wc_ParseCert W leaf_der") (auto simp: certparse_verify_chain_def CERTPARSE_MAX_INTER_def cert_decode_def)
next
  case False
  then obtain leaf anchor where p: "wc_ParseCert W leaf_der = Some leaf" "wc_ParseCert W anchor_der = Some anchor" by auto
  let ?tr = "replicate (length inter_ders) False"
  have "sound_tr W inter_ders anchor_der ?tr" by (simp add: sound_tr_def)
  moreover have "count_list ?tr False < length inter_ders + 1" using count_le_length [of ?tr False] by simp
  ultimately have "verify_rounds W leaf_der leaf inter_ders (map (decode_inter W) inter_ders) anchor (length inter_ders + 1) ?tr = None
      \<longleftrightarrow> anchored W (set inter_ders) anchor_der leaf_der"
    using verify_rounds_iff [OF _ p(2,1)] by blast
  with False p verify_rounds_result [of W leaf_der leaf inter_ders "map (decode_inter W) inter_ders" anchor "length inter_ders + 1" ?tr]
  show ?thesis by (auto simp: certparse_verify_chain_def CERTPARSE_MAX_INTER_def cert_decode_def simp del: verify_rounds.simps)
qed

end
