(* ===== verification/Certgen.thy ===== *)
theory Certgen
  imports Certparse
begin

text \<open>
  The X.509 writer, \<open>firmware/src/ca/certgen_wolfssl.c\<close>: what it puts into wolfCrypt's
  \<open>Cert\<close> before \<open>wc_MakeCert\<close> and \<open>wc_SignCert\<close> run, and the error mapping.

  The library is the parameter \<open>G\<close>; \<open>'k\<close> is its key structure and \<open>'r\<close> the state of the
  entropy source.  \<open>wc_cert\<close> has the fields of \<open>Cert\<close> that the code sets.  A library
  error is \<open>BUFFER_E\<close> or any other negative code.  The sizes \<open>CTC_NAME_SIZE\<close> and
  \<open>CTC_SERIAL_SIZE\<close> come with the library.
\<close>

datatype wc_error = BUFFER_E | WC_OTHER

datatype ctc_sig = CTC_UNSET | CTC_SHA256wECDSA

record wc_cert =
  wcc_version :: nat
  wcc_serial :: "byte list"
  wcc_sigType :: ctc_sig
  wcc_selfSigned :: bool
  wcc_subject :: certgen_dn
  wcc_issuer :: certgen_dn
  wcc_beforeDate :: "byte list"
  wcc_afterDate :: "byte list"
  wcc_basicConstSet :: bool
  wcc_isCA :: bool
  wcc_pathLen :: "byte option"
  wcc_keyUsage :: "16 word"
  wcc_customExt :: "(string \<times> byte list) list"

record ('k, 'r) wolfcert =
  CTC_NAME_SIZE :: nat
  CTC_SERIAL_SIZE :: nat
  wc_InitRng :: "'r \<Rightarrow> bool \<times> 'r"
  wc_ecc_init :: bool
  wc_InitCert :: wc_cert
  wc_SetCustomExtension :: "wc_cert \<Rightarrow> string \<Rightarrow> byte list \<Rightarrow> wc_error + wc_cert"
  wc_ecc_import_x963_ex :: "byte list \<Rightarrow> wc_error + 'k"
  wc_ecc_import_private_key_ex :: "byte list \<Rightarrow> wc_error + 'k"
  wc_ecc_derive_pub :: "'k \<Rightarrow> wc_error + 'k"
  wc_ecc_set_deterministic_ex :: "'k \<Rightarrow> 'k"
  wc_MakeCert :: "wc_cert \<Rightarrow> nat \<Rightarrow> 'k \<Rightarrow> 'r \<Rightarrow> (wc_error + byte list) \<times> 'r"
  wc_MakeCertReq :: "wc_cert \<Rightarrow> nat \<Rightarrow> 'k \<Rightarrow> wc_error + byte list"
  wc_SignCert :: "byte list \<Rightarrow> nat \<Rightarrow> 'k \<Rightarrow> 'r \<Rightarrow> (wc_error + byte list) \<times> 'r"

text \<open>A \<open>certgen_key_t\<close>: \<open>None\<close> is a null pointer.\<close>

record certgen_key =
  k_priv :: "byte list option"
  k_pub :: "byte list option"

record certgen_cert_params =
  p_serial :: "byte list"
  p_not_before :: string
  p_not_after :: string
  p_emit_bc :: bool
  p_is_ca :: bool
  p_path_len :: int
  p_key_usage :: "16 word"
  p_ext :: "(byte list \<times> byte list) option"

definition wc_err :: "wc_error \<Rightarrow> errno" where
  "wc_err e = (if e = BUFFER_E then ENOMEM else EIO)"

definition certname_copy :: "nat \<Rightarrow> byte list \<Rightarrow> byte list" where
  "certname_copy sz src = (let n = length (cstr src) in if n \<ge> sz then take (sz - 1) src else take n src)"

definition fill_certname :: "nat \<Rightarrow> certgen_dn \<Rightarrow> certgen_dn" where
  "fill_certname sz dn =
    \<lparr>dn_cn = certname_copy sz (dn_cn dn), dn_o = certname_copy sz (dn_o dn), dn_ou = certname_copy sz (dn_ou dn),
     dn_c = certname_copy sz (dn_c dn), dn_st = certname_copy sz (dn_st dn), dn_l = certname_copy sz (dn_l dn)\<rparr>"

definition encode_time :: "string \<Rightarrow> byte list" where
  "encode_time t =
    (let year = dec_val (take 4 t) in
     if year < 2050 then [ASN1_UTC_TIME, 13] @ str_bytes (take 12 (drop 2 t)) @ str_bytes ''Z''
     else [ASN1_GENERALIZED_TIME, 15] @ str_bytes (take 14 t) @ str_bytes ''Z'')"

text \<open>
  The loop of \<open>oid_to_dotted\<close>, with \<open>pos\<close> the characters written so far; \<open>v\<close> is an
  \<open>unsigned long\<close>, 32 bits wide on the device.  \<open>None\<close> is the return value \<open>-1\<close>.
\<close>

fun oid_arcs :: "nat \<Rightarrow> byte list \<Rightarrow> 32 word \<Rightarrow> string \<Rightarrow> string option" where
  "oid_arcs cap [] v out = Some out"
| "oid_arcs cap (b # bs) v out =
    (let v = (push_bit 7 v) OR (ucast (b AND 0x7F)) in
     if b AND 0x80 = 0 then
       let out' = out @ ''.'' @ dec_str (unat v) in
       if length out' \<ge> cap then None else oid_arcs cap bs 0 out'
     else oid_arcs cap bs v out)"

definition oid_to_dotted :: "byte list \<Rightarrow> nat \<Rightarrow> string option" where
  "oid_to_dotted oid cap =
    (if length oid < 1 \<or> cap = 0 then None
     else
       let first = unat (oid ! 0);
           (a, b) = (if first \<ge> 80 then (2, first - 80) else (first div 40, first mod 40));
           out = dec_str a @ ''.'' @ dec_str b
       in if length out \<ge> cap then None else oid_arcs cap (tl oid) 0 out)"

definition import_subject_key :: "('k, 'r) wolfcert \<Rightarrow> certgen_key \<Rightarrow> wc_error + 'k" where
  "import_subject_key G k =
    (case k_pub k of
       Some pub \<Rightarrow> wc_ecc_import_x963_ex G pub
     | None \<Rightarrow>
    (case k_priv k of
       Some priv \<Rightarrow> ok_then (wc_ecc_import_private_key_ex G priv) (wc_ecc_derive_pub G)
     | None \<Rightarrow> Inl WC_OTHER))"

definition prepare_cert :: "('k, 'r) wolfcert \<Rightarrow> certgen_dn \<Rightarrow> wc_cert" where
  "prepare_cert G subject_dn =
    (wc_InitCert G)\<lparr>wcc_sigType := CTC_SHA256wECDSA, wcc_selfSigned := False,
       wcc_subject := fill_certname (CTC_NAME_SIZE G) subject_dn\<rparr>"

definition set_ext :: "('k, 'r) wolfcert \<Rightarrow> (byte list \<times> byte list) option \<Rightarrow> wc_cert \<Rightarrow> wc_cert res" where
  "set_ext G ext cert =
    (case ext of
       None \<Rightarrow> Inr cert
     | Some (oid, val) \<Rightarrow>
         (case oid_to_dotted oid 64 of
            None \<Rightarrow> Inl EINVAL
          | Some dotted \<Rightarrow>
              (case wc_SetCustomExtension G cert dotted val of Inl e \<Rightarrow> Inl (wc_err e) | Inr cert \<Rightarrow> Inr cert)))"

definition cert_fields :: "('k, 'r) wolfcert \<Rightarrow> certgen_dn \<Rightarrow> certgen_dn \<Rightarrow> certgen_cert_params \<Rightarrow> wc_cert" where
  "cert_fields G subject_dn issuer_dn params =
    (let cert = (prepare_cert G subject_dn)\<lparr>wcc_issuer := fill_certname (CTC_NAME_SIZE G) issuer_dn,
           wcc_serial := p_serial params, wcc_beforeDate := encode_time (p_not_before params),
           wcc_afterDate := encode_time (p_not_after params)\<rparr>;
         cert = (if p_emit_bc params then
             let cert = cert\<lparr>wcc_basicConstSet := True\<rparr> in
             if p_is_ca params then
               let cert = cert\<lparr>wcc_isCA := True\<rparr> in
               if p_path_len params \<ge> 0 then cert\<lparr>wcc_pathLen := Some (word_of_int (p_path_len params))\<rparr> else cert
             else cert
           else cert)
     in cert\<lparr>wcc_keyUsage := p_key_usage params\<rparr>)"

definition wc_step :: "wc_error + 'a \<Rightarrow> 'a res" where
  "wc_step x = (case x of Inl e \<Rightarrow> Inl (wc_err e) | Inr y \<Rightarrow> Inr y)"

definition certgen_build_cert :: "('k, 'r) wolfcert \<Rightarrow> certgen_key \<Rightarrow> certgen_key \<Rightarrow> certgen_dn \<Rightarrow> certgen_dn
    \<Rightarrow> certgen_cert_params \<Rightarrow> nat \<Rightarrow> 'r \<Rightarrow> byte list res \<times> 'r" where
  "certgen_build_cert G subject issuer subject_dn issuer_dn params cap r =
    (case k_priv issuer of
       None \<Rightarrow> (Inl EINVAL, r)
     | Some issuer_priv \<Rightarrow>
    if cap = 0 \<or> length (p_serial params) > CTC_SERIAL_SIZE G then (Inl EINVAL, r)
    else case wc_InitRng G r of (rng, r) \<Rightarrow>
    if \<not> rng then (Inl EIO, r)
    else if \<not> wc_ecc_init G then (Inl EIO, r)
    else case set_ext G (p_ext params) (cert_fields G subject_dn issuer_dn params) of
       Inl e \<Rightarrow> (Inl e, r)
     | Inr cert \<Rightarrow>
    (case wc_step (import_subject_key G subject) of
       Inl e \<Rightarrow> (Inl e, r)
     | Inr subj_key \<Rightarrow>
    (case wc_step (wc_ecc_import_private_key_ex G issuer_priv) of
       Inl e \<Rightarrow> (Inl e, r)
     | Inr iss_key \<Rightarrow>
    (case wc_MakeCert G cert cap subj_key r of
       (Inl e, r) \<Rightarrow> (Inl (wc_err e), r)
     | (Inr body, r) \<Rightarrow>
    (case wc_SignCert G body cap (wc_ecc_set_deterministic_ex G iss_key) r of
       (Inl e, r) \<Rightarrow> (Inl (wc_err e), r)
     | (Inr der, r) \<Rightarrow> (Inr der, r))))))"

definition certgen_build_csr :: "('k, 'r) wolfcert \<Rightarrow> certgen_key \<Rightarrow> certgen_dn \<Rightarrow> 16 word
    \<Rightarrow> (byte list \<times> byte list) option \<Rightarrow> nat \<Rightarrow> 'r \<Rightarrow> byte list res \<times> 'r" where
  "certgen_build_csr G subject subject_dn key_usage ext cap r =
    (if k_priv subject = None \<or> cap = 0 then (Inl EINVAL, r)
     else case wc_InitRng G r of (rng, r) \<Rightarrow>
     if \<not> rng then (Inl EIO, r)
     else if \<not> wc_ecc_init G then (Inl EIO, r)
     else
       let cert = (prepare_cert G subject_dn)\<lparr>wcc_version := 0\<rparr>;
           cert = (if key_usage \<noteq> 0 then cert\<lparr>wcc_keyUsage := key_usage\<rparr> else cert)
       in case set_ext G ext cert of
            Inl e \<Rightarrow> (Inl e, r)
          | Inr cert \<Rightarrow>
         (case wc_step (import_subject_key G subject) of
            Inl e \<Rightarrow> (Inl e, r)
          | Inr key \<Rightarrow>
         let key = wc_ecc_set_deterministic_ex G key in
         (case wc_step (wc_MakeCertReq G cert cap key) of
            Inl e \<Rightarrow> (Inl e, r)
          | Inr body \<Rightarrow>
         (case wc_SignCert G body cap key r of
            (Inl e, r) \<Rightarrow> (Inl (wc_err e), r)
          | (Inr der, r) \<Rightarrow> (Inr der, r)))))"

end
