(* ===== verification/Ca_Params.thy ===== *)
theory Ca_Params
  imports Certgen Crypto
begin

text \<open>
  The certificate parameters of \<open>firmware/src/ca/ca.c\<close>: the blob that the host pushes for
  a slot, distinguished names, and the dates of a certificate.

  As in theory \<open>Certparse\<close>, a \<open>char\<close> array is the list of the bytes copied into it, and \<open>cstr\<close>
  is the string that it holds.
\<close>

definition KU_DIGITAL_SIGNATURE :: "16 word" where "KU_DIGITAL_SIGNATURE = 0x0080"
definition KU_KEY_CERT_SIGN :: "16 word" where "KU_KEY_CERT_SIGN = 0x0004"
definition KU_CRL_SIGN :: "16 word" where "KU_CRL_SIGN = 0x0002"

record x509_params =
  xp_validity_days :: "16 word"
  xp_is_ca :: byte
  xp_path_len :: byte
  xp_key_usage :: "16 word"
  xp_cn :: "byte list"
  xp_o :: "byte list"
  xp_ou :: "byte list"
  xp_c :: "byte list"
  xp_st :: "byte list"
  xp_l :: "byte list"

text \<open>The field and the rest of the input.\<close>

fun parse_str_field :: "nat \<Rightarrow> byte list \<Rightarrow> (byte list \<times> byte list) res" where
  "parse_str_field cap [] = Inl EINVAL"
| "parse_str_field cap (n # bs) =
    (if unat n \<ge> cap \<or> unat n > length bs then Inl EINVAL else Inr (take (unat n) bs, drop (unat n) bs))"

definition x509_parse :: "byte list \<Rightarrow> x509_params res" where
  "x509_parse data =
    (if length data < 6 then Inl EINVAL
     else
       ok_then (parse_str_field 65 (drop 6 data)) (\<lambda>(cn, rest).
       ok_then (parse_str_field 65 rest) (\<lambda>(org, rest).
       ok_then (parse_str_field 65 rest) (\<lambda>(ou, rest).
       ok_then (parse_str_field 3 rest) (\<lambda>(c, rest).
       ok_then (parse_str_field 65 rest) (\<lambda>(st, rest).
       ok_then (parse_str_field 65 rest) (\<lambda>(l, rest).
         let p = \<lparr>xp_validity_days = word_of_nat (be_nat (take 2 data)), xp_is_ca = data ! 2, xp_path_len = data ! 3,
               xp_key_usage = word_of_nat (be_nat (take 2 (drop 4 data))), xp_cn = cn, xp_o = org, xp_ou = ou,
               xp_c = c, xp_st = st, xp_l = l\<rparr>
         in if cstr (xp_cn p) = [] \<or> xp_validity_days p = 0 then Inl EINVAL
            else if cstr (xp_c p) \<noteq> [] \<and> length (cstr (xp_c p)) \<noteq> 2 then Inl EINVAL
            else Inr p)))))))"

subsection \<open>Distinguished names\<close>

definition dn_field_set :: "nat \<Rightarrow> byte list \<Rightarrow> byte list" where
  "dn_field_set cap src = (if length src \<ge> cap then take (cap - 1) src else src)"

definition params_to_dn :: "x509_params \<Rightarrow> certgen_dn" where
  "params_to_dn p =
    \<lparr>dn_cn = dn_field_set 65 (cstr (xp_cn p)), dn_o = dn_field_set 65 (cstr (xp_o p)), dn_ou = dn_field_set 65 (cstr (xp_ou p)),
     dn_c = dn_field_set 3 (cstr (xp_c p)), dn_st = dn_field_set 65 (cstr (xp_st p)), dn_l = dn_field_set 65 (cstr (xp_l p))\<rparr>"

definition upper :: "byte \<Rightarrow> byte" where
  "upper a = (if 97 \<le> a \<and> a \<le> 122 then a - 32 else a)"

definition tag_eq :: "byte list \<Rightarrow> string \<Rightarrow> bool" where
  "tag_eq s lit \<longleftrightarrow> length lit = length s \<and> map upper s = str_bytes lit"

text \<open>The field that a tag names: how to store into it, and the size of its array.\<close>

definition dn_slot :: "byte list \<Rightarrow> ((byte list \<Rightarrow> certgen_dn \<Rightarrow> certgen_dn) \<times> nat) option" where
  "dn_slot tag =
    (if tag_eq tag ''CN'' then Some (\<lambda>v dn. dn\<lparr>dn_cn := v\<rparr>, 65)
     else if tag_eq tag ''O'' then Some (\<lambda>v dn. dn\<lparr>dn_o := v\<rparr>, 65)
     else if tag_eq tag ''OU'' then Some (\<lambda>v dn. dn\<lparr>dn_ou := v\<rparr>, 65)
     else if tag_eq tag ''C'' then Some (\<lambda>v dn. dn\<lparr>dn_c := v\<rparr>, 3)
     else if tag_eq tag ''ST'' then Some (\<lambda>v dn. dn\<lparr>dn_st := v\<rparr>, 65)
     else if tag_eq tag ''L'' then Some (\<lambda>v dn. dn\<lparr>dn_l := v\<rparr>, 65)
     else None)"

function rfc4514_loop :: "byte list \<Rightarrow> certgen_dn \<Rightarrow> bool \<Rightarrow> certgen_dn res" where
  "rfc4514_loop s dn have_cn =
    (let s = dropWhile (\<lambda>b. b = 32 \<or> b = 44) s in
     if s = [] then (if have_cn then Inr dn else Inl EINVAL)
     else if 61 \<notin> set s then Inl EINVAL
     else
       let tag = takeWhile (\<lambda>b. b \<noteq> 61) s;
           val = drop (length tag + 1) s;
           v = takeWhile (\<lambda>b. b \<noteq> 44) val;
           rest = drop (length v + 1) val
       in case dn_slot tag of
            None \<Rightarrow> Inl EINVAL
          | Some (put, cap) \<Rightarrow>
              if length v \<ge> cap then Inl EINVAL
              else rfc4514_loop rest (put (dn_field_set cap v) dn) (have_cn \<or> tag_eq tag ''CN''))"
  by pat_completeness auto
termination
proof (relation "measure (\<lambda>(s, _, _). length s)", goal_cases)
  case (2 s dn have_cn s' tag val v rest z put cap)
  have "length s' \<le> length s" using 2(1) by (simp add: length_dropWhile_le)
  moreover have "length rest < length s'" using 2 by (simp add: le_less_trans [OF diff_le_self])
  ultimately show ?case by simp
qed simp

declare rfc4514_loop.simps [simp del]

definition empty_dn :: certgen_dn where
  "empty_dn = \<lparr>dn_cn = [], dn_o = [], dn_ou = [], dn_c = [], dn_st = [], dn_l = []\<rparr>"

definition rfc4514_to_dn :: "byte list \<Rightarrow> certgen_dn res" where
  "rfc4514_to_dn s = rfc4514_loop s empty_dn False"

subsection \<open>Serials and dates\<close>

definition gen_serial :: "'r wolfcrypt \<Rightarrow> 'r \<Rightarrow> byte list res \<times> 'r" where
  "gen_serial K r =
    (case crypto_trng K 8 r of
       (Inl e, r) \<Rightarrow> (Inl e, r)
     | (Inr serial, r) \<Rightarrow> (Inr (serial[0 := (serial ! 0 AND 0x7F) OR 0x01]), r))"

definition NOT_BEFORE_BASE :: string where "NOT_BEFORE_BASE = ''20260101000000''"

definition not_after_date :: "16 word \<Rightarrow> nat \<times> nat \<times> nat" where
  "not_after_date validity_days =
    (let total_days = unat validity_days; years = total_days div 365; rem_days = total_days mod 365;
         month = 1 + rem_days div 30; day = 1 + rem_days mod 30
     in (2026 + years, if month > 12 then 12 else month, if day > 28 then 28 else day))"

definition compute_not_after :: "16 word \<Rightarrow> string" where
  "compute_not_after validity_days =
    (case not_after_date validity_days of (year, month, day) \<Rightarrow>
       take 14 (dec_pad 4 year @ dec_pad 2 month @ dec_pad 2 day @ ''000000''))"

subsection \<open>Reference definitions\<close>

text \<open>The text of a name, with the fields that are empty left out, and the names that have one.\<close>

definition rdn_text :: "string \<Rightarrow> byte list \<Rightarrow> byte list" where
  "rdn_text tag v = (if v = [] then [] else 44 # str_bytes tag @ 61 # v)"

definition dn_text :: "certgen_dn \<Rightarrow> byte list" where
  "dn_text dn = str_bytes ''CN='' @ dn_cn dn @ rdn_text ''O'' (dn_o dn) @ rdn_text ''OU'' (dn_ou dn)
    @ rdn_text ''C'' (dn_c dn) @ rdn_text ''ST'' (dn_st dn) @ rdn_text ''L'' (dn_l dn)"

definition dn_plain :: "certgen_dn \<Rightarrow> bool" where
  "dn_plain dn \<longleftrightarrow> length (dn_cn dn) < 65 \<and> length (dn_o dn) < 65 \<and> length (dn_ou dn) < 65 \<and> length (dn_c dn) < 3
    \<and> length (dn_st dn) < 65 \<and> length (dn_l dn) < 65
    \<and> 44 \<notin> set (dn_cn dn @ dn_o dn @ dn_ou dn @ dn_c dn @ dn_st dn @ dn_l dn)"

subsection \<open>Names\<close>

lemma rfc4514_comma: "rfc4514_loop (44 # s) dn h = rfc4514_loop s dn h"
  by (subst (1 2) rfc4514_loop.simps) simp

lemma rfc4514_rdn:
  assumes "tag \<noteq> []" and "hd tag \<noteq> 32" and "44 \<notin> set tag" and "61 \<notin> set tag" and "44 \<notin> set v"
    and "dn_slot tag = Some (put, cap)" and "length v < cap" and "rest = [] \<or> hd rest = 44"
  shows "rfc4514_loop (tag @ 61 # v @ rest) dn h = rfc4514_loop rest (put v dn) (h \<or> tag_eq tag ''CN'')"
proof -
  have hd: "dropWhile (\<lambda>b. b = 32 \<or> b = 44) (tag @ 61 # v @ rest) = tag @ 61 # v @ rest"
    using assms(1-3) by (cases tag) auto
  have tw: "takeWhile (\<lambda>b. b \<noteq> 61) (tag @ 61 # v @ rest) = tag"
    using assms(4) by (subst takeWhile_append2) auto
  have vw: "takeWhile (\<lambda>b. b \<noteq> 44) (v @ rest) = v"
    using assms(5,8) by (subst takeWhile_append2) (auto simp: takeWhile_eq_Nil_iff)
  have tl: "rfc4514_loop (drop 1 rest) dn' h' = rfc4514_loop rest dn' h'" for dn' h'
    using assms(8) by (cases rest) (auto simp: rfc4514_comma)
  show ?thesis
    by (subst rfc4514_loop.simps) (use assms in \<open>simp add: Let_def hd tw vw dn_field_set_def tl [simplified]\<close>)
qed

lemma tag_facts:
  "dn_slot (str_bytes ''CN'') = Some (\<lambda>v dn. dn\<lparr>dn_cn := v\<rparr>, 65)"
  "dn_slot (str_bytes ''O'') = Some (\<lambda>v dn. dn\<lparr>dn_o := v\<rparr>, 65)"
  "dn_slot (str_bytes ''OU'') = Some (\<lambda>v dn. dn\<lparr>dn_ou := v\<rparr>, 65)"
  "dn_slot (str_bytes ''C'') = Some (\<lambda>v dn. dn\<lparr>dn_c := v\<rparr>, 3)"
  "dn_slot (str_bytes ''ST'') = Some (\<lambda>v dn. dn\<lparr>dn_st := v\<rparr>, 65)"
  "dn_slot (str_bytes ''L'') = Some (\<lambda>v dn. dn\<lparr>dn_l := v\<rparr>, 65)"
  "tag_eq (str_bytes ''CN'') ''CN''"
  by (simp_all add: dn_slot_def tag_eq_def str_bytes_def upper_def)

lemma rfc4514_text:
  assumes "tag \<in> {''O'', ''OU'', ''C'', ''ST'', ''L''}" and "44 \<notin> set v"
    and "dn_slot (str_bytes tag) = Some (put, cap)" and "length v < cap" and "rest = [] \<or> hd rest = 44" and "put [] dn = dn"
  shows "rfc4514_loop (rdn_text tag v @ rest) dn True = rfc4514_loop rest (put v dn) True"
proof (cases "v = []")
  case False
  have t: "str_bytes tag \<noteq> []" "hd (str_bytes tag) \<noteq> 32" "44 \<notin> set (str_bytes tag)" "61 \<notin> set (str_bytes tag)"
    using assms(1) by (auto simp: str_bytes_def)
  with False rfc4514_rdn [OF t assms(2-5), of dn True] show ?thesis by (simp add: rdn_text_def rfc4514_comma)
qed (simp add: rdn_text_def assms(6))

lemma rfc4514_end: "rfc4514_loop [] dn True = Inr dn"
  by (subst rfc4514_loop.simps) simp

lemma rdn_text_hd: "rest = [] \<or> hd rest = 44 \<Longrightarrow> rdn_text tag v @ rest = [] \<or> hd (rdn_text tag v @ rest) = 44"
  by (simp add: rdn_text_def)

subsection \<open>Dates\<close>

definition digit_text :: "string \<Rightarrow> bool" where
  "digit_text s \<longleftrightarrow> (\<forall>c \<in> set s. \<exists>d < 10. c = digit_char d)"

lemma digit_text_dec_pad: "digit_text (dec_pad w n)"
  using set_dec_str [of _ n] by (auto simp: digit_text_def dec_pad_def intro: exI [of _ 0])

lemma digit_text_append: "digit_text (a @ b) \<longleftrightarrow> digit_text a \<and> digit_text b"
  by (auto simp: digit_text_def)

lemma digit_text_part: "digit_text s \<Longrightarrow> digit_text (take n s) \<and> digit_text (drop n s)"
  by (auto simp: digit_text_def dest: in_set_takeD in_set_dropD)

lemma dec_val_append: "dec_val (a @ b) = dec_val a * 10 ^ length b + dec_val b"
proof -
  have "foldl (\<lambda>a c. 10 * a + (of_char c - 48)) x b = x * 10 ^ length b + foldl (\<lambda>a c. 10 * a + (of_char c - 48)) 0 b" for x :: nat
  proof (induction b arbitrary: x)
    case (Cons c b)
    show ?case
      unfolding foldl_Cons Cons [of "10 * x + (of_char c - 48)"] Cons [of "10 * 0 + (of_char c - 48)"]
      by (simp add: distrib_right)
  qed simp
  from this [of "dec_val a"] show ?thesis unfolding dec_val_def foldl_append .
qed

lemma dec_val_bound: "digit_text s \<Longrightarrow> dec_val s < 10 ^ length s"
proof (induction s)
  case (Cons c s)
  from Cons.prems obtain d where d: "d < 10" "c = digit_char d" by (auto simp: digit_text_def)
  have "dec_val (c # s) = d * 10 ^ length s + dec_val s"
    using dec_val_append [of "[c]" s] d by (simp add: dec_val_def)
  also have "\<dots> < (d + 1) * 10 ^ length s" using Cons by (simp add: digit_text_def)
  also have "\<dots> \<le> 10 * 10 ^ length s" using d by (intro mult_le_mono1) simp
  finally show ?case by simp
qed (simp add: dec_val_def)

lemma dec_val_drop:
  assumes "digit_text s" and "n \<le> length s"
  shows "dec_val (drop n s) = dec_val s mod 10 ^ (length s - n)"
proof -
  have "dec_val s = dec_val (take n s) * 10 ^ (length s - n) + dec_val (drop n s)"
    using dec_val_append [of "take n s" "drop n s"] by simp
  then show ?thesis using dec_val_bound [of "drop n s"] digit_text_part [OF assms(1), of n] by simp
qed

lemma digit_byte: "d < 10 \<Longrightarrow> (of_char (digit_char d) :: byte) = word_of_nat (48 + d)"
  by (metis of_char_digit_char of_nat_of_char)

lemma unat_digit: "d < 10 \<Longrightarrow> unat (of_char (digit_char d) :: byte) = 48 + d"
  by (simp only: digit_byte unat_of_nat) simp

lemma digits_val_str: "digit_text s \<Longrightarrow> digits_val (str_bytes s) = dec_val s"
proof -
  have "foldl (\<lambda>a b. 10 * a + (unat b - 48)) x (str_bytes s) = foldl (\<lambda>a c. 10 * a + (of_char c - 48)) x s"
    if "digit_text s" for x using that
  proof (induction s arbitrary: x)
    case (Cons c s)
    from Cons.prems obtain d where "d < 10" "c = digit_char d" by (auto simp: digit_text_def)
    then have "unat (of_char c :: byte) = (of_char c :: nat)" by (simp add: unat_digit)
    with Cons show ?case by (simp add: str_bytes_def digit_text_def)
  qed (simp add: str_bytes_def)
  then show "digit_text s \<Longrightarrow> digits_val (str_bytes s) = dec_val s" by (simp add: digits_val_def dec_val_def)
qed

lemma digits_are_digits: "digit_text s \<Longrightarrow> list_all is_digit (str_bytes s)"
proof -
  have "is_digit (of_char (digit_char d))" if "d < 10" for d
    using that by (simp add: unat_digit is_digit_def word_le_nat_alt)
  then show "digit_text s \<Longrightarrow> list_all is_digit (str_bytes s)" by (auto simp: list_all_iff str_bytes_def digit_text_def)
qed

lemma str_bytes_parts: "str_bytes (a @ b) = str_bytes a @ str_bytes b" "take n (str_bytes s) = str_bytes (take n s)" "str_bytes [] = []"
  "drop n (str_bytes s) = str_bytes (drop n s)"
  by (simp_all add: str_bytes_def take_map drop_map)

lemma not_after_bounds:
  assumes "not_after_date d = (y, m, dd)"
  shows "2026 \<le> y \<and> y < 2206 \<and> 1 \<le> m \<and> m \<le> 12 \<and> 1 \<le> dd \<and> dd \<le> 28"
proof -
  have "unat d < 65536" using unsigned_less [of d, where 'a = nat] by simp
  then have "unat d div 365 < 180" by (simp add: less_mult_imp_div_less)
  moreover have "y = 2026 + unat d div 365 \<and> m = (if 12 < 1 + unat d mod 365 div 30 then 12 else 1 + unat d mod 365 div 30)
      \<and> dd = (if 28 < 1 + unat d mod 365 mod 30 then 28 else 1 + unat d mod 365 mod 30)"
    using assms [symmetric] unfolding not_after_date_def Let_def prod.inject by blast
  ultimately obtain q a b :: nat where "q < 180" "y = 2026 + q" "m = (if 12 < 1 + a then 12 else 1 + a)"
    "dd = (if 28 < 1 + b then 28 else 1 + b)" by blast
  then show ?thesis by simp
qed

text \<open>The text of the date and the parts that the readers take from it.\<close>

lemma compute_not_after_text:
  assumes "not_after_date d = (y, m, dd)"
  shows "compute_not_after d = dec_pad 4 y @ dec_pad 2 m @ dec_pad 2 dd @ ''000000''"
    and "length (dec_pad 4 y) = 4" and "length (dec_pad 2 m) = 2" and "length (dec_pad 2 dd) = 2"
proof -
  note b = not_after_bounds [OF assms]
  show len: "length (dec_pad 4 y) = 4" "length (dec_pad 2 m) = 2" "length (dec_pad 2 dd) = 2"
    using b length_dec_pad [of y 4] length_dec_pad [of m 2] length_dec_pad [of dd 2] by simp_all
  then show "compute_not_after d = dec_pad 4 y @ dec_pad 2 m @ dec_pad 2 dd @ ''000000''"
    unfolding compute_not_after_def assms prod.case by simp
qed

lemma not_after_parts:
  "(dec_val (take 4 (compute_not_after d)), dec_val (take 2 (drop 4 (compute_not_after d))),
    dec_val (take 2 (drop 6 (compute_not_after d)))) = not_after_date d"
proof -
  obtain y m dd where e: "not_after_date d = (y, m, dd)" by (metis prod_cases3)
  show ?thesis using compute_not_after_text [OF e] by (simp add: e)
qed

lemma parse_utc_time:
  assumes "dc_afterDate dc = ASN1_UTC_TIME # 13 # str_bytes (a @ b @ c @ z)"
    and "length a = 2" and "length b = 2" and "length c = 2" and "digit_text (a @ b @ c)"
  shows "parse_after_date dc = (if dec_val a < 50 then 2000 + dec_val a else 1900 + dec_val a, dec_val b, dec_val c)"
proof -
  have d: "digit_text a" "digit_text b" "digit_text c" using assms(5) by (simp_all add: digit_text_append)
  have t: "take 6 (str_bytes (a @ b @ c @ z)) = str_bytes (a @ b @ c)" "take 2 (str_bytes (a @ b @ c @ z)) = str_bytes a"
    "take 2 (drop 2 (str_bytes (a @ b @ c @ z))) = str_bytes b" "take 2 (drop 4 (str_bytes (a @ b @ c @ z))) = str_bytes c"
    using assms(2-4) by (simp_all add: str_bytes_def)
  have l: "6 \<le> length (str_bytes (a @ b @ c @ z))" using assms(2-4) by simp
  show ?thesis
    using digits_are_digits [OF assms(5)] l
    by (simp add: parse_after_date_def assms(1) Let_def t digits_val_str d ASN1_UTC_TIME_def ASN1_GENERALIZED_TIME_def not_less)
qed

lemma parse_generalized_time:
  assumes "dc_afterDate dc = ASN1_GENERALIZED_TIME # 15 # str_bytes (a @ b @ c @ z)"
    and "length a = 4" and "length b = 2" and "length c = 2" and "digit_text (a @ b @ c)"
  shows "parse_after_date dc = (dec_val a, dec_val b, dec_val c)"
proof -
  have d: "digit_text a" "digit_text b" "digit_text c" using assms(5) by (simp_all add: digit_text_append)
  have t: "take 8 (str_bytes (a @ b @ c @ z)) = str_bytes (a @ b @ c)" "take 4 (str_bytes (a @ b @ c @ z)) = str_bytes a"
    "take 2 (drop 4 (str_bytes (a @ b @ c @ z))) = str_bytes b" "take 2 (drop 6 (str_bytes (a @ b @ c @ z))) = str_bytes c"
    using assms(2-4) by (simp_all add: str_bytes_def)
  have l: "8 \<le> length (str_bytes (a @ b @ c @ z))" using assms(2-4) by simp
  show ?thesis
    using digits_are_digits [OF assms(5)] l
    by (simp add: parse_after_date_def assms(1) Let_def t digits_val_str d ASN1_UTC_TIME_def ASN1_GENERALIZED_TIME_def not_less)
qed

lemma after_date_roundtrip:
  assumes "dc_afterDate dc = encode_time (compute_not_after d)"
  shows "parse_after_date dc = not_after_date d"
proof -
  obtain y m dd where e: "not_after_date d = (y, m, dd)" by (metis prod_cases3)
  note t = compute_not_after_text [OF e] and b = not_after_bounds [OF e]
  have z: "str_bytes ''000000'' @ str_bytes ''Z'' = str_bytes ''000000Z''" by (simp add: str_bytes_def)
  show ?thesis
  proof (cases "y < 2050")
    case True
    have "dc_afterDate dc = ASN1_UTC_TIME # 13 # str_bytes (drop 2 (dec_pad 4 y) @ dec_pad 2 m @ dec_pad 2 dd @ ''000000Z'')"
      unfolding assms t(1) encode_time_def using t(2-4) True by (simp add: str_bytes_parts z)
    then have "parse_after_date dc = (if dec_val (drop 2 (dec_pad 4 y)) < 50 then 2000 + dec_val (drop 2 (dec_pad 4 y))
        else 1900 + dec_val (drop 2 (dec_pad 4 y)), m, dd)"
      using parse_utc_time [of dc "drop 2 (dec_pad 4 y)" "dec_pad 2 m" "dec_pad 2 dd" "''000000Z''"] t(2-4)
        digit_text_part [OF digit_text_dec_pad, of 2 4 y] digit_text_dec_pad by (simp add: digit_text_append)
    moreover have "dec_val (drop 2 (dec_pad 4 y)) = y mod 100" using dec_val_drop [OF digit_text_dec_pad, of 2 4 y] t(2) by simp
    ultimately show ?thesis using two_digit_year [of y] True b e by (simp split: if_splits)
  next
    case False
    have "dc_afterDate dc = ASN1_GENERALIZED_TIME # 15 # str_bytes (dec_pad 4 y @ dec_pad 2 m @ dec_pad 2 dd @ ''000000Z'')"
      unfolding assms t(1) encode_time_def using t(2-4) False by (simp add: str_bytes_parts z)
    from parse_generalized_time [OF this] t(2-4) e digit_text_dec_pad show ?thesis by (simp add: digit_text_append)
  qed
qed

text \<open>
  C35: A distinguished name survives its text form: for every name whose fields fit and
  hold no comma, parsing the string "CN=...,O=...,..." gives the name back, and every field
  that the string leaves out is empty.
\<close>

theorem rfc4514_roundtrip:
  assumes "dn_plain dn"
  shows "rfc4514_to_dn (dn_text dn) = Inr dn"
proof -
  let ?R5 = "rdn_text ''L'' (dn_l dn)" let ?R4 = "rdn_text ''ST'' (dn_st dn) @ ?R5" let ?R3 = "rdn_text ''C'' (dn_c dn) @ ?R4"
  let ?R2 = "rdn_text ''OU'' (dn_ou dn) @ ?R3" let ?R1 = "rdn_text ''O'' (dn_o dn) @ ?R2"
  have h5: "?R5 = [] \<or> hd ?R5 = 44" using rdn_text_hd [of "[]"] by simp
  note h4 = rdn_text_hd [OF h5, of "''ST''" "dn_st dn"]
  note h3 = rdn_text_hd [OF h4, of "''C''" "dn_c dn"]
  note h2 = rdn_text_hd [OF h3, of "''OU''" "dn_ou dn"]
  note h1 = rdn_text_hd [OF h2, of "''O''" "dn_o dn"]
  have cn: "str_bytes ''CN'' \<noteq> []" "hd (str_bytes ''CN'') \<noteq> 32" "44 \<notin> set (str_bytes ''CN'')" "61 \<notin> set (str_bytes ''CN'')"
    by (simp_all add: str_bytes_def)
  have p: "44 \<notin> set (dn_cn dn)" "44 \<notin> set (dn_o dn)" "44 \<notin> set (dn_ou dn)" "44 \<notin> set (dn_c dn)" "44 \<notin> set (dn_st dn)" "44 \<notin> set (dn_l dn)"
    "length (dn_cn dn) < 65" "length (dn_o dn) < 65" "length (dn_ou dn) < 65" "length (dn_c dn) < 3" "length (dn_st dn) < 65" "length (dn_l dn) < 65"
    using assms by (simp_all add: dn_plain_def)
  let ?d0 = "empty_dn\<lparr>dn_cn := dn_cn dn\<rparr>" let ?d1 = "?d0\<lparr>dn_o := dn_o dn\<rparr>" let ?d2 = "?d1\<lparr>dn_ou := dn_ou dn\<rparr>"
  let ?d3 = "?d2\<lparr>dn_c := dn_c dn\<rparr>" let ?d4 = "?d3\<lparr>dn_st := dn_st dn\<rparr>" let ?d5 = "?d4\<lparr>dn_l := dn_l dn\<rparr>"
  have "dn_text dn = str_bytes ''CN'' @ 61 # dn_cn dn @ ?R1" by (simp add: dn_text_def str_bytes_def)
  then have "rfc4514_to_dn (dn_text dn) = rfc4514_loop ?R1 ?d0 True"
    using rfc4514_rdn [OF cn p(1) tag_facts(1) p(7) h1, of empty_dn False] by (simp add: rfc4514_to_dn_def tag_facts)
  also have "\<dots> = rfc4514_loop ?R2 ?d1 True"
    using rfc4514_text [OF _ p(2) tag_facts(2) p(8) h2, of ?d0] by (simp add: empty_dn_def)
  also have "\<dots> = rfc4514_loop ?R3 ?d2 True"
    using rfc4514_text [OF _ p(3) tag_facts(3) p(9) h3, of ?d1] by (simp add: empty_dn_def)
  also have "\<dots> = rfc4514_loop ?R4 ?d3 True"
    using rfc4514_text [OF _ p(4) tag_facts(4) p(10) h4, of ?d2] by (simp add: empty_dn_def)
  also have "\<dots> = rfc4514_loop ?R5 ?d4 True"
    using rfc4514_text [OF _ p(5) tag_facts(5) p(11) h5, of ?d3] by (simp add: empty_dn_def)
  also have "\<dots> = rfc4514_loop [] ?d5 True"
    using rfc4514_text [OF _ p(6) tag_facts(6) p(12), of "[]" ?d4] by (simp add: empty_dn_def)
  finally show ?thesis by (simp add: rfc4514_end empty_dn_def)
qed

theorem rfc4514_roundtrip_witness:
  "rfc4514_to_dn (dn_text (empty_dn\<lparr>dn_cn := [97, 98], dn_c := [67, 72]\<rparr>)) = Inr (empty_dn\<lparr>dn_cn := [97, 98], dn_c := [67, 72]\<rparr>)"
  by (rule rfc4514_roundtrip) (simp add: dn_plain_def empty_dn_def)


end
