(* ===== verification/Cbor.thy ===== *)
theory Cbor
  imports Cantil_Prelude
begin

text \<open>
  The wire-protocol CBOR codec, \<open>common/cbor/cantil_cbor.c\<close>, which the firmware
  and the host library share.

  \<^item> Encoders write at \<open>*off\<close> of a buffer of \<open>max\<close> bytes (\<open>mx\<close> below).  The model keeps the
    bytes written so far, \<open>out\<close>; \<open>*off\<close> is \<open>length out\<close>.
  \<^item> Decoders read \<open>buf\<close> (\<open>len\<close> is \<open>length buf\<close>) at an offset and return the new
    offset.  A returned pointer into the input is the offset it points at.
  \<^item> C computes \<open>*off + v\<close> with a \<open>uint64_t\<close> \<open>v\<close>, so the sum wraps at \<open>2 ^ 64\<close>; the
    cast \<open>(size_t)v\<close> keeps \<open>W\<close> bits, where \<open>W\<close> is 32 on the device and 64 on the
    host.  Both are written out.  Sums of two object sizes do not wrap: both
    objects lie in one address space.
  \<^item> \<open>skip_item\<close> recurses on the input and need not return; its model and that of
    its callers have an option type whose \<open>None\<close> is "does not return".
\<close>

unbundle bit_operations_syntax

definition MT_UINT :: byte where "MT_UINT = 0x00"
definition MT_BSTR :: byte where "MT_BSTR = 0x40"
definition MT_TSTR :: byte where "MT_TSTR = 0x60"
definition MT_ARRAY :: byte where "MT_ARRAY = 0x80"
definition MT_MAP :: byte where "MT_MAP = 0xA0"

subsection \<open>Encoders\<close>

definition head_need :: "nat \<Rightarrow> nat" where
  "head_need val =
    (if val < 24 then 1 else if val < 0x100 then 2 else if val < 0x10000 then 3
     else if val < 0x100000000 then 5 else 9)"

definition head_bytes :: "byte \<Rightarrow> nat \<Rightarrow> byte list" where
  "head_bytes major val =
    (if val < 24 then [major OR word_of_nat val]
     else if val < 0x100 then (major OR 24) # be_bytes 1 val
     else if val < 0x10000 then (major OR 25) # be_bytes 2 val
     else if val < 0x100000000 then (major OR 26) # be_bytes 4 val
     else (major OR 27) # be_bytes 8 val)"

definition emit_head :: "nat \<Rightarrow> byte list \<Rightarrow> byte \<Rightarrow> nat \<Rightarrow> byte list res" where
  "emit_head mx out major val =
    (if length out + head_need val > mx then Inl ENOMEM
     else Inr (out @ head_bytes major val))"

definition emit_tstr :: "nat \<Rightarrow> byte list \<Rightarrow> byte list \<Rightarrow> byte list res" where
  "emit_tstr mx out s =
    ok_then (emit_head mx out MT_TSTR (length s)) (\<lambda>out.
      if length out + length s > mx then Inl ENOMEM else Inr (out @ s))"

definition emit_bstr :: "nat \<Rightarrow> byte list \<Rightarrow> byte list \<Rightarrow> byte list res" where
  "emit_bstr mx out bs =
    ok_then (emit_head mx out MT_BSTR (length bs)) (\<lambda>out.
      if length out + length bs > mx then Inl ENOMEM else Inr (out @ bs))"

definition emit_uint :: "nat \<Rightarrow> byte list \<Rightarrow> nat \<Rightarrow> byte list res" where
  "emit_uint mx out v = emit_head mx out MT_UINT v"

definition emit_array :: "nat \<Rightarrow> byte list \<Rightarrow> 32 word \<Rightarrow> byte list res" where
  "emit_array mx out n = emit_head mx out MT_ARRAY (unat n)"

definition emit_map :: "nat \<Rightarrow> byte list \<Rightarrow> 32 word \<Rightarrow> byte list res" where
  "emit_map mx out n = emit_head mx out MT_MAP (unat n)"

definition encode_map :: "nat \<Rightarrow> byte list \<Rightarrow> 32 word \<Rightarrow> byte list \<Rightarrow> 32 word \<Rightarrow> byte list
    \<Rightarrow> byte list \<Rightarrow> byte list res" where
  "encode_map mx k1 v1 k2 v2 k3 data =
    ok_then (emit_head mx [] MT_MAP (if length data > 0 then 3 else 2)) (\<lambda>out.
    ok_then (emit_tstr mx out k1) (\<lambda>out.
    ok_then (emit_head mx out MT_UINT (unat v1)) (\<lambda>out.
    ok_then (emit_tstr mx out k2) (\<lambda>out.
    ok_then (emit_head mx out MT_UINT (unat v2)) (\<lambda>out.
      if length data > 0 then
        ok_then (emit_tstr mx out k3) (\<lambda>out. emit_bstr mx out data)
      else Inr out)))))"

definition encode_request :: "nat \<Rightarrow> 32 word \<Rightarrow> 32 word \<Rightarrow> byte list \<Rightarrow> byte list res" where
  "encode_request mx cmd seq data =
    encode_map mx (str_bytes ''cmd'') cmd (str_bytes ''seq'') seq (str_bytes ''data'') data"

definition encode_response :: "nat \<Rightarrow> 32 word \<Rightarrow> 32 word \<Rightarrow> byte list \<Rightarrow> byte list res" where
  "encode_response mx seq err data =
    encode_map mx (str_bytes ''err'') err (str_bytes ''seq'') seq (str_bytes ''data'') data"

subsection \<open>Decoders\<close>

definition read_head :: "byte list \<Rightarrow> nat \<Rightarrow> (byte \<times> nat \<times> nat) res" where
  "read_head buf off =
    (if off \<ge> length buf then Inl EINVAL
     else let ib = buf ! off; major = ib AND 0xE0; ai = ib AND 0x1F; off = off + 1 in
       if ai < 24 then Inr (major, unat ai, off)
       else if ai = 24 then
         if off + 1 > length buf then Inl EINVAL
         else Inr (major, be_nat (take 1 (drop off buf)), off + 1)
       else if ai = 25 then
         if off + 2 > length buf then Inl EINVAL
         else Inr (major, be_nat (take 2 (drop off buf)), off + 2)
       else if ai = 26 then
         if off + 4 > length buf then Inl EINVAL
         else Inr (major, be_nat (take 4 (drop off buf)), off + 4)
       else if ai = 27 then
         if off + 8 > length buf then Inl EINVAL
         else Inr (major, be_nat (take 8 (drop off buf)), off + 8)
       else Inl EINVAL)"

definition match_tstr :: "byte list \<Rightarrow> nat \<Rightarrow> byte list \<Rightarrow> nat res" where
  "match_tstr buf off s =
    ok_then (read_head buf off) (\<lambda>(mt, v, off).
      if mt \<noteq> MT_TSTR then Inl EINVAL
      else if v \<noteq> length s \<or> off + length s > length buf then Inl ENOENT
      else if take (length s) (drop off buf) \<noteq> s then Inl ENOENT
      else Inr (off + length s))"

definition read_uint32 :: "byte list \<Rightarrow> nat \<Rightarrow> (32 word \<times> nat) res" where
  "read_uint32 buf off =
    ok_then (read_head buf off) (\<lambda>(mt, v, off).
      if mt \<noteq> MT_UINT then Inl EINVAL
      else if v > 0xFFFFFFFF then Inl ERANGE
      else Inr (word_of_nat v, off))"

definition advance :: "nat \<Rightarrow> nat \<Rightarrow> nat \<Rightarrow> nat" where
  "advance W off v = (off + v mod 2 ^ W) mod 2 ^ W"

definition read_str :: "byte \<Rightarrow> nat \<Rightarrow> byte list \<Rightarrow> nat \<Rightarrow> (nat \<times> nat \<times> nat) res" where
  "read_str want W buf off =
    ok_then (read_head buf off) (\<lambda>(mt, v, off).
      if mt \<noteq> want then Inl EINVAL
      else if (off + v) mod 2 ^ 64 > length buf then Inl EINVAL
      else Inr (off, v mod 2 ^ W, advance W off v))"

definition read_bstr :: "nat \<Rightarrow> byte list \<Rightarrow> nat \<Rightarrow> (nat \<times> nat \<times> nat) res" where
  "read_bstr = read_str MT_BSTR"

definition read_tstr :: "nat \<Rightarrow> byte list \<Rightarrow> nat \<Rightarrow> (nat \<times> nat \<times> nat) res" where
  "read_tstr = read_str MT_TSTR"

text \<open>
  \<open>skip_items W buf n off\<close> is \<open>n\<close> calls of the C function \<open>skip_item\<close> in a row, as
  its array loop (\<open>n = v\<close>) and its map loop (two calls per entry) make them.
\<close>

partial_function (option) skip_items :: "nat \<Rightarrow> byte list \<Rightarrow> nat \<Rightarrow> nat \<Rightarrow> nat res option" where
  "skip_items W buf n off =
    (if n = 0 then Some (Inr off)
     else case read_head buf off of
       Inl e \<Rightarrow> Some (Inl e)
     | Inr (mt, v, off) \<Rightarrow>
         Option.bind
           (if mt = MT_UINT then Some (Inr off)
            else if mt = MT_BSTR \<or> mt = MT_TSTR then
              if (off + v) mod 2 ^ 64 > length buf then Some (Inl EINVAL)
              else Some (Inr (advance W off v))
            else if mt = MT_MAP then skip_items W buf (2 * v) off
            else if mt = MT_ARRAY then skip_items W buf v off
            else Some (Inl EINVAL))
           (\<lambda>r. case r of Inl e \<Rightarrow> Some (Inl e) | Inr off \<Rightarrow> skip_items W buf (n - 1) off))"

declare skip_items.simps [code]

definition skip_item :: "nat \<Rightarrow> byte list \<Rightarrow> nat \<Rightarrow> nat res option" where
  "skip_item W buf off = skip_items W buf 1 off"

record decoded_fields =
  have_int1 :: bool
  have_int2 :: bool
  have_data :: bool
  int1 :: "32 word"
  int2 :: "32 word"
  fdata :: nat
  fdata_len :: nat

definition no_fields :: decoded_fields where
  "no_fields = \<lparr>have_int1 = False, have_int2 = False, have_data = False,
     int1 = 0, int2 = 0, fdata = 0, fdata_len = 0\<rparr>"

fun decode_entries :: "nat \<Rightarrow> byte list \<Rightarrow> byte list \<Rightarrow> byte list \<Rightarrow> nat \<Rightarrow> nat \<Rightarrow> decoded_fields
    \<Rightarrow> decoded_fields res option" where
  "decode_entries W buf name1 name2 0 off f = Some (Inr f)"
| "decode_entries W buf name1 name2 (Suc n) off f =
    (case match_tstr buf off name1 of
       Inr o1 \<Rightarrow>
         (case read_uint32 buf o1 of
            Inl e \<Rightarrow> Some (Inl e)
          | Inr (x, o2) \<Rightarrow>
              decode_entries W buf name1 name2 n o2 (f\<lparr>int1 := x, have_int1 := True\<rparr>))
     | Inl _ \<Rightarrow>
    (case match_tstr buf off name2 of
       Inr o1 \<Rightarrow>
         (case read_uint32 buf o1 of
            Inl e \<Rightarrow> Some (Inl e)
          | Inr (x, o2) \<Rightarrow>
              decode_entries W buf name1 name2 n o2 (f\<lparr>int2 := x, have_int2 := True\<rparr>))
     | Inl _ \<Rightarrow>
    (case match_tstr buf off (str_bytes ''data'') of
       Inr o1 \<Rightarrow>
         (case read_bstr W buf o1 of
            Inl e \<Rightarrow> Some (Inl e)
          | Inr (p, l, o2) \<Rightarrow>
              decode_entries W buf name1 name2 n o2
                (f\<lparr>fdata := p, fdata_len := l, have_data := True\<rparr>))
     | Inl _ \<Rightarrow>
         Option.bind (skip_item W buf off) (\<lambda>r. case r of Inl e \<Rightarrow> Some (Inl e) | Inr o1 \<Rightarrow>
         Option.bind (skip_item W buf o1) (\<lambda>r. case r of Inl e \<Rightarrow> Some (Inl e) | Inr o2 \<Rightarrow>
           decode_entries W buf name1 name2 n o2 f)))))"

definition decode_map :: "nat \<Rightarrow> byte list \<Rightarrow> byte list \<Rightarrow> byte list \<Rightarrow> decoded_fields res option" where
  "decode_map W buf name1 name2 =
    (if buf = [] then Some (Inl EINVAL)
     else case read_head buf 0 of
       Inl e \<Rightarrow> Some (Inl e)
     | Inr (mt, v, off) \<Rightarrow>
         if mt \<noteq> MT_MAP then Some (Inl EINVAL)
         else if v < 2 \<or> v > 3 then Some (Inl EINVAL)
         else
           Option.bind (decode_entries W buf name1 name2 v off no_fields) (\<lambda>r.
             case r of Inl e \<Rightarrow> Some (Inl e)
             | Inr f \<Rightarrow> if \<not> have_int1 f \<or> \<not> have_int2 f then Some (Inl ENOENT) else Some (Inr f)))"

text \<open>
  The data pointer and length: \<open>None\<close> is the pair \<open>NULL\<close>, 0; \<open>Some (p, l)\<close> a pointer
  to offset \<open>p\<close> of the input and the length \<open>l\<close>.
\<close>

definition data_ref :: "decoded_fields \<Rightarrow> (nat \<times> nat) option" where
  "data_ref f = (if have_data f then Some (fdata f, fdata_len f) else None)"

definition decode_request :: "nat \<Rightarrow> byte list
    \<Rightarrow> (32 word \<times> 32 word \<times> (nat \<times> nat) option) res option" where
  "decode_request W buf =
    Option.bind (decode_map W buf (str_bytes ''cmd'') (str_bytes ''seq'')) (\<lambda>r.
      case r of Inl e \<Rightarrow> Some (Inl e) | Inr f \<Rightarrow> Some (Inr (int1 f, int2 f, data_ref f)))"

definition decode_response :: "nat \<Rightarrow> byte list
    \<Rightarrow> (32 word \<times> 32 word \<times> (nat \<times> nat) option) res option" where
  "decode_response W buf =
    Option.bind (decode_map W buf (str_bytes ''err'') (str_bytes ''seq'')) (\<lambda>r.
      case r of Inl e \<Rightarrow> Some (Inl e) | Inr f \<Rightarrow> Some (Inr (int2 f, int1 f, data_ref f)))"

subsection \<open>Reference definitions for the statements\<close>

text \<open>
  The major types the codec uses; the absence of a string head whose length makes
  \<open>*off + v\<close> wrap; the bytes of a map with two integers and optional data; and
  that decoded data lies inside the input.
\<close>

definition is_major :: "byte \<Rightarrow> bool" where
  "is_major m \<longleftrightarrow> m = MT_UINT \<or> m = MT_BSTR \<or> m = MT_TSTR \<or> m = MT_ARRAY \<or> m = MT_MAP"

definition no_wrap :: "byte list \<Rightarrow> bool" where
  "no_wrap buf \<longleftrightarrow> list_all (\<lambda>p. case read_head buf p of Inl _ \<Rightarrow> True
     | Inr (mt, v, off) \<Rightarrow> mt = MT_BSTR \<or> mt = MT_TSTR \<longrightarrow> off + v < 2 ^ 64) [0..<length buf]"

definition map_bytes :: "byte list \<Rightarrow> 32 word \<Rightarrow> byte list \<Rightarrow> 32 word \<Rightarrow> byte list \<Rightarrow> byte list \<Rightarrow> byte list" where
  "map_bytes k1 v1 k2 v2 k3 data =
    head_bytes MT_MAP (if data = [] then 2 else 3)
    @ head_bytes MT_TSTR (length k1) @ k1 @ head_bytes MT_UINT (unat v1)
    @ head_bytes MT_TSTR (length k2) @ k2 @ head_bytes MT_UINT (unat v2)
    @ (if data = [] then []
       else head_bytes MT_TSTR (length k3) @ k3 @ head_bytes MT_BSTR (length data) @ data)"

definition data_in :: "byte list \<Rightarrow> decoded_fields \<Rightarrow> bool" where
  "data_in buf f \<longleftrightarrow> (have_data f \<longrightarrow> fdata f + fdata_len f \<le> length buf)"

subsection \<open>Heads\<close>


lemmas MT_defs = MT_UINT_def MT_BSTR_def MT_TSTR_def MT_ARRAY_def MT_MAP_def

lemma is_major_MT [simp, intro]:
  "is_major MT_UINT" "is_major MT_BSTR" "is_major MT_TSTR" "is_major MT_ARRAY" "is_major MT_MAP"
  by (simp_all add: is_major_def)

lemma MT_distinct [simp]:
  "MT_MAP \<noteq> MT_UINT" "MT_MAP \<noteq> MT_BSTR" "MT_MAP \<noteq> MT_TSTR" "MT_MAP \<noteq> MT_ARRAY"
  "MT_ARRAY \<noteq> MT_UINT" "MT_ARRAY \<noteq> MT_BSTR" "MT_ARRAY \<noteq> MT_TSTR"
  "MT_TSTR \<noteq> MT_UINT" "MT_TSTR \<noteq> MT_BSTR" "MT_BSTR \<noteq> MT_UINT"
  by (simp_all add: MT_defs)

lemma low5_enum: "\<forall>n \<in> set [0..<32]. (word_of_nat n :: byte) AND 0xE0 = 0 \<and> (word_of_nat n :: byte) AND 0x1F = word_of_nat n"
  by code_simp

lemma low5:
  assumes "n < 32"
  shows "(word_of_nat n :: byte) AND 0xE0 = 0" and "(word_of_nat n :: byte) AND 0x1F = word_of_nat n"
  using low5_enum assms by simp_all

lemma head_major:
  assumes "is_major m" and "n < 32"
  shows "(m OR word_of_nat n) AND 0xE0 = m" and "(m OR word_of_nat n) AND 0x1F = word_of_nat n"
  using assms low5 [OF assms(2)]
  by (auto simp: is_major_def MT_defs word_ao_dist)

lemmas head_major_tag =
  head_major [where n = 24, simplified] head_major [where n = 25, simplified]
  head_major [where n = 26, simplified] head_major [where n = 27, simplified]

lemma length_head_bytes [simp]: "length (head_bytes m v) = head_need v"
  by (simp add: head_bytes_def head_need_def)

lemma head_need_pos [simp]: "0 < head_need v" "head_need v \<le> 9"
  by (simp_all add: head_need_def)

lemma byte_less_24: "n < 24 \<Longrightarrow> (word_of_nat n :: byte) < 24"
  by (simp add: word_less_nat_alt)

lemma read_head_head_bytes:
  assumes "is_major m" and "v < 2 ^ 64"
  shows "read_head (pre @ head_bytes m v @ suf) (length pre) = Inr (m, v, length pre + head_need v)"
  using assms
  by (simp add: read_head_def head_bytes_def head_need_def Let_def nth_append head_major
      head_major_tag byte_less_24 be_nat_be_bytes unat_of_nat)

lemma read_head_bounds:
  assumes "read_head buf off = Inr (m, v, off')"
  shows "off < off'" "off' \<le> length buf" "v < 2 ^ 64" "head_need v \<le> off' - off"
proof -
  have be: "be_nat (take k (drop j buf)) < 256 ^ k" for k j
    using be_nat_less [of "take k (drop j buf)"]
    by (rule less_le_trans) (simp add: power_increasing)
  show "off < off'" "off' \<le> length buf"
    using assms by (auto simp: read_head_def Let_def split: if_splits)
  show "v < 2 ^ 64"
    using assms be [of 1 "Suc off"] be [of 2 "Suc off"] be [of 4 "Suc off"] be [of 8 "Suc off"]
    by (auto simp: read_head_def Let_def word_less_nat_alt split: if_splits)
  show "head_need v \<le> off' - off"
    using assms be [of 1 "Suc off"] be [of 2 "Suc off"] be [of 4 "Suc off"] be [of 8 "Suc off"]
    by (auto simp: read_head_def Let_def head_need_def word_less_nat_alt split: if_splits)
qed

subsection \<open>Skipping\<close>

lemma no_wrapD:
  assumes "no_wrap buf" and "read_head buf p = Inr (mt, v, off)" and "mt = MT_BSTR \<or> mt = MT_TSTR"
  shows "off + v < 2 ^ 64"
proof -
  from read_head_bounds [OF assms(2)] have "p \<in> set [0..<length buf]" by simp
  from bspec [OF assms(1) [unfolded no_wrap_def list_all_iff] this] assms(2,3)
  show ?thesis by auto
qed

lemma advance_eq:
  assumes "W \<le> 64" and "(off + v) mod 2 ^ 64 \<le> L" and "L < 2 ^ W"
  shows "advance W off v = (off + v) mod 2 ^ 64"
proof -
  have "(2 :: nat) ^ 64 = 2 ^ W * 2 ^ (64 - W)" using assms(1) by (simp add: power_add [symmetric] del: power_numeral)
  then have "(off + v) mod 2 ^ W = (off + v) mod 2 ^ 64 mod 2 ^ W"
    by (metis mod_mod_cancel dvd_triv_left)
  with assms show ?thesis by (simp add: advance_def mod_add_right_eq)
qed

lemma advance_exact:
  assumes "off + v \<le> L" and "L < 2 ^ W"
  shows "advance W off v = off + v"
  using assms by (simp add: advance_def)

lemma skip_items_0 [simp]: "skip_items W buf 0 off = Some (Inr off)"
  by (subst skip_items.simps) simp

lemma skip_items_total:
  assumes nw: "no_wrap buf" and W: "length buf < 2 ^ W" and "off \<le> length buf"
  shows "\<exists>r. skip_items W buf n off = Some r \<and>
             (\<forall>off'. r = Inr off' \<longrightarrow> off + n \<le> off' \<and> off' \<le> length buf)"
  using assms(3)
proof (induction "length buf - off" arbitrary: off n rule: less_induct)
  case less
  show ?case
  proof (cases "n = 0")
    case False
    show ?thesis
    proof (cases "read_head buf off")
      case (Inl e)
      with False show ?thesis by (subst skip_items.simps) simp
    next
      case (Inr h)
      obtain mt v o1 where h: "h = (mt, v, o1)" by (cases h)
      note b = read_head_bounds [OF Inr [unfolded h]]
      have sub: "\<exists>r. skip_items W buf k o2 = Some r \<and>
             (\<forall>off'. r = Inr off' \<longrightarrow> o2 + k \<le> off' \<and> off' \<le> length buf)"
        if "o1 \<le> o2" "o2 \<le> length buf" for k o2
        using that b by (intro less.hyps) auto
      have str: "advance W o1 v = o1 + v" if "mt = MT_BSTR \<or> mt = MT_TSTR" "(o1 + v) mod 2 ^ 64 \<le> length buf"
        using no_wrapD [OF nw Inr [unfolded h] that(1)] that(2) W by (intro advance_exact [where L = "length buf"]) auto
      define inner where "inner =
           (if mt = MT_UINT then Some (Inr o1)
            else if mt = MT_BSTR \<or> mt = MT_TSTR then
              if (o1 + v) mod 2 ^ 64 > length buf then Some (Inl EINVAL)
              else Some (Inr (advance W o1 v))
            else if mt = MT_MAP then skip_items W buf (2 * v) o1
            else if mt = MT_ARRAY then skip_items W buf v o1
            else Some (Inl EINVAL))"
      have "\<exists>r. inner = Some r \<and> (\<forall>o2. r = Inr o2 \<longrightarrow> o1 \<le> o2 \<and> o2 \<le> length buf)"
        using sub [of o1 v] sub [of o1 "2 * v"] b str no_wrapD [OF nw Inr [unfolded h]]
        by (auto simp: inner_def)
      then obtain r where r: "inner = Some r" "\<And>o2. r = Inr o2 \<Longrightarrow> o1 \<le> o2 \<and> o2 \<le> length buf"
        by blast
      have unfold: "skip_items W buf n off = Option.bind inner
           (\<lambda>r. case r of Inl e \<Rightarrow> Some (Inl e) | Inr off \<Rightarrow> skip_items W buf (n - 1) off)"
        using False Inr h by (subst skip_items.simps) (simp add: inner_def)
      show ?thesis
      proof (cases r)
        case (Inr o2)
        with r(2) have o2: "o1 \<le> o2" "o2 \<le> length buf" by auto
        from sub [OF this, of "n - 1"] Inr r(1) unfold b o2 False show ?thesis by fastforce
      qed (simp add: unfold r(1))
    qed
  qed (use less.prems in simp)
qed

lemma skip_items_loop:
  assumes arr: "read_head buf p = Inr (MT_ARRAY, v, p1)" "2 \<le> v"
    and str: "read_head buf p1 = Inr (MT_BSTR, w, p2)" "(p2 + w) mod 2 ^ 64 = p"
    and W: "W \<le> 64" "length buf < 2 ^ W"
    and n: "0 < n"
  shows "skip_items W buf n p = None"
proof -
  have le: "(p2 + w) mod 2 ^ 64 \<le> length buf" and adv: "advance W p2 w = p"
    using read_head_bounds [OF arr(1)] str(2) advance_eq [of W p2 w "length buf"] W by auto
  have "W' = W \<and> buf' = buf \<longrightarrow> \<not> (off = p \<and> 0 < m) \<and> \<not> (off = p1 \<and> 2 \<le> m)"
    if "skip_items W' buf' m off = Some r" for W' buf' m off r
    using _ that
  proof (rule skip_items.raw_induct, goal_cases)
    case (1 f W' buf' m off r)
    then show ?case
      using arr str le adv read_head_bounds(1) [OF arr(1)]
      by (auto simp: bind_eq_Some_conv dest!: 1(1) split: if_splits)
  qed
  with n show ?thesis by (metis option.exhaust)
qed

subsection \<open>Round trips\<close>

lemma emit_head_eq_Inr:
  "emit_head mx out m v = Inr out' \<longleftrightarrow>
    length out + head_need v \<le> mx \<and> out' = out @ head_bytes m v"
  by (auto simp: emit_head_def)

lemma encode_map_eq:
  "encode_map mx k1 v1 k2 v2 k3 data =
    (if length (map_bytes k1 v1 k2 v2 k3 data) \<le> mx then Inr (map_bytes k1 v1 k2 v2 k3 data)
     else Inl ENOMEM)"
  by (simp add: encode_map_def map_bytes_def emit_tstr_def emit_bstr_def emit_head_def)


lemma nat_less_64: "n < 2 ^ W \<Longrightarrow> W \<le> 64 \<Longrightarrow> n < (2 :: nat) ^ 64"
  by (erule less_le_trans) (rule power_increasing, simp_all)

lemma read_uint32_head:
  assumes "buf = pre @ head_bytes MT_UINT (unat x) @ suf" and "off = length pre"
  shows "read_uint32 buf off = Inr (x, off + head_need (unat x))"
proof -
  have "unat x < 2 ^ 32" using unsigned_less [of x, where 'a = nat] by simp
  then show ?thesis using assms by (simp add: read_uint32_def read_head_head_bytes)
qed

lemma match_tstr_head:
  assumes "buf = pre @ head_bytes MT_TSTR (length k) @ k @ suf" and "off = length pre"
    and "length k < 2 ^ 64"
  shows "match_tstr buf off k = Inr (off + head_need (length k) + length k)"
  using assms by (simp add: match_tstr_def read_head_head_bytes)

lemma match_tstr_other:
  assumes "buf = pre @ head_bytes MT_TSTR (length k) @ k @ suf" and "off = length pre"
    and "length k < 2 ^ 64" and "k' \<noteq> k"
  shows "match_tstr buf off k' = Inl ENOENT"
  using assms by (simp add: match_tstr_def read_head_head_bytes)

lemma read_str_head:
  assumes "buf = pre @ head_bytes want (length d) @ d @ suf" and "off = length pre"
    and "length buf < 2 ^ W" and "W \<le> 64" and "is_major want"
  shows "read_str want W buf off =
    Inr (off + head_need (length d), length d, off + head_need (length d) + length d)"
proof -
  have "length buf < 2 ^ 64" using assms(3,4) by (rule nat_less_64)
  then show ?thesis
    using assms by (simp add: read_str_def read_head_head_bytes advance_exact [where L = "length buf"])
qed

lemma decode_entries_int1:
  assumes "buf = pre @ head_bytes MT_TSTR (length n1) @ n1 @ head_bytes MT_UINT (unat x) @ suf"
    and "off = length pre" and "length n1 < 2 ^ 64"
  shows "decode_entries W buf n1 n2 (Suc n) off f =
    decode_entries W buf n1 n2 n (off + head_need (length n1) + length n1 + head_need (unat x))
      (f\<lparr>int1 := x, have_int1 := True\<rparr>)"
proof -
  have "match_tstr buf off n1 = Inr (off + head_need (length n1) + length n1)"
    using assms by (intro match_tstr_head) auto
  moreover have "read_uint32 buf (off + head_need (length n1) + length n1) =
      Inr (x, off + head_need (length n1) + length n1 + head_need (unat x))"
    using assms by (intro read_uint32_head [where pre = "pre @ head_bytes MT_TSTR (length n1) @ n1"]) auto
  ultimately show ?thesis by simp
qed

lemma decode_entries_int2:
  assumes "buf = pre @ head_bytes MT_TSTR (length n2) @ n2 @ head_bytes MT_UINT (unat x) @ suf"
    and "off = length pre" and "length n2 < 2 ^ 64" and "n1 \<noteq> n2"
  shows "decode_entries W buf n1 n2 (Suc n) off f =
    decode_entries W buf n1 n2 n (off + head_need (length n2) + length n2 + head_need (unat x))
      (f\<lparr>int2 := x, have_int2 := True\<rparr>)"
proof -
  have "match_tstr buf off n2 = Inr (off + head_need (length n2) + length n2)"
    using assms by (intro match_tstr_head) auto
  moreover have "match_tstr buf off n1 = Inl ENOENT"
    using assms by (intro match_tstr_other) auto
  moreover have "read_uint32 buf (off + head_need (length n2) + length n2) =
      Inr (x, off + head_need (length n2) + length n2 + head_need (unat x))"
    using assms by (intro read_uint32_head [where pre = "pre @ head_bytes MT_TSTR (length n2) @ n2"]) auto
  ultimately show ?thesis by simp
qed

lemma decode_entries_data:
  fixes n1 n2 :: "byte list"
  defines "k \<equiv> str_bytes ''data''"
  assumes "buf = pre @ head_bytes MT_TSTR (length k) @ k @ head_bytes MT_BSTR (length d) @ d @ suf"
    and "off = length pre" and "n1 \<noteq> k" and "n2 \<noteq> k"
    and W: "length buf < 2 ^ W" "W \<le> 64"
  shows "decode_entries W buf n1 n2 (Suc n) off f =
    (let p = off + head_need (length k) + length k + head_need (length d) in
     decode_entries W buf n1 n2 n (p + length d)
      (f\<lparr>fdata := p, fdata_len := length d, have_data := True\<rparr>))"
proof -
  have k: "length k < 2 ^ 64" by (simp add: k_def)
  have "match_tstr buf off k = Inr (off + head_need (length k) + length k)"
    using assms k by (intro match_tstr_head) auto
  moreover have "match_tstr buf off n1 = Inl ENOENT" "match_tstr buf off n2 = Inl ENOENT"
    using assms k by (auto intro!: match_tstr_other)
  moreover have "read_bstr W buf (off + head_need (length k) + length k) =
      Inr (off + head_need (length k) + length k + head_need (length d), length d,
           off + head_need (length k) + length k + head_need (length d) + length d)"
    unfolding read_bstr_def
    using assms by (intro read_str_head [where pre = "pre @ head_bytes MT_TSTR (length k) @ k"]) auto
  ultimately show ?thesis by (simp add: k_def [symmetric] Let_def)
qed


lemma decode_map_map_bytes:
  fixes k1 k2 :: "byte list"
  defines "k3 \<equiv> str_bytes ''data''"
  assumes buf: "buf = map_bytes k1 v1 k2 v2 k3 data"
    and ne: "k1 \<noteq> k2" "k1 \<noteq> k3" "k2 \<noteq> k3" and len: "length k1 < 2 ^ 64" "length k2 < 2 ^ 64"
    and W: "length buf < 2 ^ W" "W \<le> 64"
  shows "decode_map W buf k1 k2 = Some (Inr
    \<lparr>have_int1 = True, have_int2 = True, have_data = (data \<noteq> []), int1 = v1, int2 = v2,
     fdata = (if data = [] then 0 else length buf - length data), fdata_len = length data\<rparr>)"
proof -
  define n where "n = (if data = [] then 2 else 3 :: nat)"
  define tail where "tail = (if data = [] then []
       else head_bytes MT_TSTR (length k3) @ k3 @ head_bytes MT_BSTR (length data) @ data)"
  define e1 where "e1 = head_bytes MT_TSTR (length k1) @ k1 @ head_bytes MT_UINT (unat v1)"
  define e2 where "e2 = head_bytes MT_TSTR (length k2) @ k2 @ head_bytes MT_UINT (unat v2)"
  define h where "h = head_bytes MT_MAP n"
  have b: "buf = h @ e1 @ e2 @ tail"
    by (simp add: buf map_bytes_def h_def e1_def e2_def tail_def n_def)
  have h: "read_head buf 0 = Inr (MT_MAP, n, length h)"
    using read_head_head_bytes [of MT_MAP n "[]" "e1 @ e2 @ tail"] by (simp add: b h_def n_def)
  have s1: "decode_entries W buf k1 k2 (Suc m) (length h) f =
      decode_entries W buf k1 k2 m (length (h @ e1)) (f\<lparr>int1 := v1, have_int1 := True\<rparr>)" for m f
    using len by (subst decode_entries_int1 [of _ h _ v1 "e2 @ tail"]) (simp_all add: b e1_def add.assoc)
  have s2: "decode_entries W buf k1 k2 (Suc m) (length (h @ e1)) f =
      decode_entries W buf k1 k2 m (length (h @ e1 @ e2)) (f\<lparr>int2 := v2, have_int2 := True\<rparr>)" for m f
    using len ne by (subst decode_entries_int2 [of _ "h @ e1" _ v2 "tail"]) (simp_all add: b e2_def add.assoc)
  have s3: "decode_entries W buf k1 k2 (Suc m) (length (h @ e1 @ e2)) f =
      decode_entries W buf k1 k2 m (length buf)
        (f\<lparr>fdata := length buf - length data, fdata_len := length data, have_data := True\<rparr>)"
    if "data \<noteq> []" for m f
    using ne W that unfolding k3_def
    by (subst decode_entries_data [of _ "h @ e1 @ e2" data "[]"])
      (simp_all add: b tail_def k3_def Let_def add.assoc del: length_str_bytes)
  have "buf \<noteq> []" using h by (auto simp: read_head_def)
  then show ?thesis
    by (cases "data = []")
      (simp_all add: decode_map_def h n_def numeral_2_eq_2 numeral_3_eq_3 s1 s2 s3 no_fields_def
        del: decode_entries.simps(2) length_append)
qed

lemma key_neq [simp]:
  "str_bytes ''cmd'' \<noteq> str_bytes ''seq''" "str_bytes ''err'' \<noteq> str_bytes ''seq''"
  "str_bytes ''cmd'' \<noteq> str_bytes ''data''" "str_bytes ''err'' \<noteq> str_bytes ''data''"
  "str_bytes ''seq'' \<noteq> str_bytes ''data''"
  by (simp_all add: str_bytes_def)

lemma encode_map_suffix:
  assumes "encode_map mx k1 v1 k2 v2 k3 data = Inr out"
  shows "out = map_bytes k1 v1 k2 v2 k3 data" "length out \<le> mx"
    "drop (length out - length data) out = data"
  using assms by (auto simp: encode_map_eq map_bytes_def split: if_splits)

subsection \<open>Bounds of decoded data\<close>

lemma match_tstr_bounds: "match_tstr buf off k = Inr o1 \<Longrightarrow> o1 \<le> length buf"
  by (auto simp: match_tstr_def res_simps split: prod.splits if_splits)

lemma read_uint32_bounds: "read_uint32 buf off = Inr (x, o1) \<Longrightarrow> o1 \<le> length buf"
  by (auto simp: read_uint32_def res_simps dest: read_head_bounds(2) split: prod.splits if_splits)

lemma read_str_bounds:
  assumes nw: "no_wrap buf" and W: "length buf < 2 ^ W" and want: "want = MT_BSTR \<or> want = MT_TSTR"
    and rd: "read_str want W buf off = Inr (p, l, o1)"
  shows "p + l \<le> length buf" "o1 = p + l"
proof -
  from rd obtain v where h: "read_head buf off = Inr (want, v, p)"
    and v: "(p + v) mod 2 ^ 64 \<le> length buf" "l = v mod 2 ^ W" "o1 = advance W p v"
    by (auto simp: read_str_def res_simps split: prod.splits if_splits)
  have le: "p + v \<le> length buf" using no_wrapD [OF nw h want] v(1) by simp
  with W v(2,3) show "p + l \<le> length buf" "o1 = p + l"
    by (simp_all add: advance_exact [OF le W])
qed

lemma skip_item_total:
  assumes "no_wrap buf" and "length buf < 2 ^ W" and "off \<le> length buf"
  shows "\<exists>r. skip_item W buf off = Some r \<and> (\<forall>off'. r = Inr off' \<longrightarrow> off < off' \<and> off' \<le> length buf)"
  using skip_items_total [OF assms, of 1] by (auto simp: skip_item_def)

lemma data_in_simps [simp]:
  "data_in buf (f\<lparr>int1 := x, have_int1 := b\<rparr>) = data_in buf f"
  "data_in buf (f\<lparr>int2 := x, have_int2 := b\<rparr>) = data_in buf f"
  "data_in buf no_fields"
  "p + l \<le> length buf \<Longrightarrow> data_in buf (f\<lparr>fdata := p, fdata_len := l, have_data := True\<rparr>)"
  by (simp_all add: data_in_def no_fields_def)

lemma decode_entries_total:
  assumes nw: "no_wrap buf" and W: "length buf < 2 ^ W"
  shows "off \<le> length buf \<Longrightarrow> data_in buf f \<Longrightarrow>
    \<exists>r. decode_entries W buf n1 n2 n off f = Some r \<and> (\<forall>f'. r = Inr f' \<longrightarrow> data_in buf f')"
proof (induction n arbitrary: off f)
  case (Suc n)
  from skip_item_total [OF nw W Suc.prems(1)] obtain r1 where
    r1: "skip_item W buf off = Some r1" "\<And>o1. r1 = Inr o1 \<Longrightarrow> o1 \<le> length buf" by auto
  have "\<exists>r2. \<forall>o1. r1 = Inr o1 \<longrightarrow> skip_item W buf o1 = Some r2 \<and> (\<forall>o2. r2 = Inr o2 \<longrightarrow> o2 \<le> length buf)"
    using skip_item_total [OF nw W r1(2)] by (cases r1) auto
  then obtain r2 where r2: "\<And>o1. r1 = Inr o1 \<Longrightarrow> skip_item W buf o1 = Some r2"
    "\<And>o1 o2. r1 = Inr o1 \<Longrightarrow> r2 = Inr o2 \<Longrightarrow> o2 \<le> length buf" by blast
  have str: "p + l \<le> length buf \<and> b \<le> length buf" if "read_bstr W buf x = Inr (p, l, b)" for x p l b
    using read_str_bounds [OF nw W _ that [unfolded read_bstr_def]] by simp
  show ?case
    using Suc.prems r1 r2
    by (auto split: sum.split intro!: Suc.IH dest: read_uint32_bounds str)
qed simp

lemma decode_map_total:
  assumes "no_wrap buf" and "length buf < 2 ^ W"
  shows "\<exists>r. decode_map W buf n1 n2 = Some r \<and> (\<forall>f. r = Inr f \<longrightarrow> data_in buf f)"
proof (cases "read_head buf 0")
  case (Inr h)
  obtain mt v o1 where h: "h = (mt, v, o1)" by (cases h)
  obtain r where "decode_entries W buf n1 n2 v o1 no_fields = Some r" "\<And>f. r = Inr f \<Longrightarrow> data_in buf f"
    using decode_entries_total [OF assms read_head_bounds(2) [OF Inr [unfolded h]], of no_fields n1 n2 v]
    by auto
  then show ?thesis by (auto simp: decode_map_def Inr h split: sum.split)
qed (simp add: decode_map_def)

lemma wrapped_string:
  assumes h: "read_head buf off = Inr (m, v, o1)" and wrap: "2 ^ 64 \<le> o1 + v"
    and W: "length buf < 2 ^ W" "W \<le> 64"
  shows "(o1 + v) mod 2 ^ 64 = o1 + v - 2 ^ 64" "o1 + v - 2 ^ 64 < o1" "length buf < o1 + v mod 2 ^ W"
proof -
  note b = read_head_bounds [OF h]
  define t where "t = 2 ^ 64 - v"
  have t: "0 < t" "t \<le> o1" "v = 2 ^ 64 - t" using b(3) wrap by (simp_all add: t_def)
  have big: "o1 < 2 ^ 64" using b(2) nat_less_64 [OF W] by simp
  then show "(o1 + v) mod 2 ^ 64 = o1 + v - 2 ^ 64"
    using b(3) wrap by (simp add: mod_if)
  show "o1 + v - 2 ^ 64 < o1" using b(3) wrap by simp
  have dvd: "(2 :: nat) ^ W dvd 2 ^ 64" using W(2) by (rule le_imp_power_dvd)
  have tW: "t < 2 ^ W" using t b(2) W(1) by simp
  have "v mod 2 ^ W = 2 ^ W - t"
  proof -
    obtain k where k: "(2 :: nat) ^ 64 = 2 ^ W * k" using dvd by (elim dvdE)
    then have "k \<noteq> 0" by (metis mult_0_right power_not_zero zero_neq_numeral)
    then obtain j where j: "k = Suc j" by (metis not0_implies_Suc)
    have "v = (2 ^ W - t) + 2 ^ W * j" using t(3) k j tW by simp
    then have "v mod 2 ^ W = (2 ^ W - t) mod 2 ^ W" by (simp only: mod_mult_self2)
    then show ?thesis using t(1) by simp
  qed
  with t tW b(2) W(1) show "length buf < o1 + v mod 2 ^ W" by simp
qed

subsection \<open>Properties\<close>

text \<open>
  C15: A request that \<open>cantil_cbor_encode_request\<close> wrote decodes to the same command,
  sequence number and data: \<open>cantil_cbor_decode_request\<close> returns 0, absent data as
  the null pointer, and otherwise a pointer and length that select exactly the
  data bytes at the end of the message.
\<close>

theorem request_roundtrip:
  assumes "encode_request mx cmd seq data = Inr out" and "mx < 2 ^ W" and "W \<le> 64"
  shows "decode_request W out =
      Some (Inr (cmd, seq, if data = [] then None else Some (length out - length data, length data)))
    \<and> drop (length out - length data) out = data"
  using assms encode_map_suffix [OF assms(1) [unfolded encode_request_def]]
  by (simp add: decode_request_def decode_map_map_bytes data_ref_def)

text \<open>The request of \<open>DEVICE_STATUS\<close> with two bytes of data, on the device.\<close>

theorem request_roundtrip_witness:
  "decode_request 32 (projr (encode_request 64 0x30 1 [7, 9])) = Some (Inr (0x30, 1, Some (18, 2)))"
proof -
  have "encode_request 64 0x30 1 [7, 9] = Inr
    [0xA3, 0x63, 0x63, 0x6D, 0x64, 0x18, 0x30, 0x63, 0x73, 0x65, 0x71, 1, 0x64, 0x64, 0x61, 0x74, 0x61, 0x42, 7, 9]"
    by (simp add: encode_request_def encode_map_def emit_tstr_def emit_bstr_def emit_head_def head_need_def
        head_bytes_def MT_defs str_bytes_def)
  from request_roundtrip [OF this, of 32] this show ?thesis by simp
qed

text \<open>
  C16: A response that \<open>cantil_cbor_encode_response\<close> wrote decodes to the same
  sequence number, error code and data.
\<close>

theorem response_roundtrip:
  assumes "encode_response mx seq err data = Inr out" and "mx < 2 ^ W" and "W \<le> 64"
  shows "decode_response W out =
      Some (Inr (seq, err, if data = [] then None else Some (length out - length data, length data)))
    \<and> drop (length out - length data) out = data"
  using assms encode_map_suffix [OF assms(1) [unfolded encode_response_def]]
  by (simp add: decode_response_def decode_map_map_bytes data_ref_def)

theorem response_roundtrip_witness:
  "decode_response 64 (projr (encode_response 64 1 0 [])) = Some (Inr (1, 0, None))"
proof -
  have "encode_response 64 1 0 [] = Inr [0xA2, 0x63, 0x65, 0x72, 0x72, 0, 0x63, 0x73, 0x65, 0x71, 1]"
    by (simp add: encode_response_def encode_map_def emit_tstr_def emit_head_def head_need_def
        head_bytes_def MT_defs str_bytes_def)
  from response_roundtrip [OF this, of 64] this show ?thesis by simp
qed

text \<open>
  The encoder is exact about its buffer: it fails with \<open>-ENOMEM\<close> precisely when
  the message, whose length is given here, is longer than the buffer.
\<close>

theorem encode_response_capacity:
  "encode_response mx seq err data =
    (if 9 + head_need (unat err) + head_need (unat seq)
        + (if data = [] then 0 else 5 + head_need (length data) + length data) \<le> mx
     then Inr (map_bytes (str_bytes ''err'') err (str_bytes ''seq'') seq (str_bytes ''data'') data)
     else Inl ENOMEM)"
  by (simp add: encode_response_def encode_map_eq) (simp add: map_bytes_def head_need_def)

text \<open>
  Integers are written in the shortest form.  What \<open>emit_head\<close> appends reads back
  as the same major type and value, and no accepted encoding of that value is
  shorter.
\<close>

theorem head_shortest:
  assumes "is_major m" and "v < 2 ^ 64" and "emit_head mx out m v = Inr out'"
    and "read_head buf off = Inr (m', v, off')"
  shows "read_head (out' @ rest) (length out) = Inr (m, v, length out')
    \<and> length out' - length out \<le> off' - off"
  using assms read_head_head_bytes [OF assms(1,2), of out rest] read_head_bounds(4) [OF assms(4)]
  by (simp add: emit_head_eq_Inr)

theorem head_shortest_witness:
  "read_head ([0x18, 200] @ []) (length ([] :: byte list)) = Inr (MT_UINT, 200, length [0x18, 200 :: byte])
    \<and> length [0x18, 200 :: byte] - length ([] :: byte list) \<le> 3 - 0"
  by (rule head_shortest [where mx = 2 and buf = "[0x19, 0, 200]" and m' = MT_UINT])
    (simp_all add: emit_head_def head_need_def head_bytes_def read_head_def MT_defs Let_def is_major_def)

text \<open>
  C17: On an input without a wrapping string length, decoding a request returns, and
  a data pointer and length it returns lie inside the input.
\<close>

theorem decode_request_safe:
  assumes "no_wrap buf" and "length buf < 2 ^ W"
  shows "\<exists>r. decode_request W buf = Some r \<and>
    (\<forall>cmd seq p l. r = Inr (cmd, seq, Some (p, l)) \<longrightarrow> p + l \<le> length buf)"
proof -
  obtain r where r: "decode_map W buf (str_bytes ''cmd'') (str_bytes ''seq'') = Some r"
    and "\<And>f. r = Inr f \<Longrightarrow> data_in buf f"
    using decode_map_total [OF assms] by blast
  then show ?thesis
    by (auto simp: decode_request_def data_ref_def data_in_def split: sum.split)
qed

theorem decode_request_safe_witness:
  "\<exists>r. decode_request 32 [0xA2, 0x41, 7] = Some r \<and>
    (\<forall>cmd seq p l. r = Inr (cmd, seq, Some (p, l)) \<longrightarrow> p + l \<le> length [0xA2, 0x41, 7 :: byte])"
  by (rule decode_request_safe)
    (simp_all add: no_wrap_def upt_rec read_head_def Let_def MT_defs)

text \<open>
  C18: \<open>skip_item\<close> does not return on an array of two or more items whose first item
  is a byte string with a length that wraps the offset back to the array.  No
  number of skipped items helps.
\<close>

theorem skip_item_loops:
  assumes "read_head buf p = Inr (MT_ARRAY, v, p1)" and "2 \<le> v"
    and "read_head buf p1 = Inr (MT_BSTR, w, p2)" and "(p2 + w) mod 2 ^ 64 = p"
    and "W \<le> 64" and "length buf < 2 ^ W"
  shows "skip_item W buf p = None"
  using skip_items_loop [OF assms, of 1] by (simp add: skip_item_def)

text \<open>The message below makes the request decoder of the device loop that way.\<close>

theorem skip_item_loops_witness:
  "skip_item 32 [0xA2, 0x82, 0x5B, 0xFF, 0xFF, 0xFF, 0xFF, 0xFF, 0xFF, 0xFF, 0xF6] 1 = None
   \<and> decode_request 32 [0xA2, 0x82, 0x5B, 0xFF, 0xFF, 0xFF, 0xFF, 0xFF, 0xFF, 0xFF, 0xF6] = None"
proof -
  let ?m = "[0xA2, 0x82, 0x5B, 0xFF, 0xFF, 0xFF, 0xFF, 0xFF, 0xFF, 0xFF, 0xF6] :: byte list"
  have h: "read_head ?m 0 = Inr (MT_MAP, 2, 1)" "read_head ?m 1 = Inr (MT_ARRAY, 2, 2)"
    "read_head ?m 2 = Inr (MT_BSTR, 2 ^ 64 - 10, 11)"
    by (simp_all add: read_head_def Let_def MT_defs)
  from skip_item_loops [OF h(2) _ h(3), of 32] have s: "skip_item 32 ?m 1 = None" by simp
  have "match_tstr ?m 1 k = Inl EINVAL" for k
    by (simp add: match_tstr_def h(2) [simplified])
  with s h(1) have "decode_request 32 ?m = None"
    by (simp add: decode_request_def decode_map_def numeral_2_eq_2)
  with s show ?thesis by blast
qed

text \<open>
  A byte string whose 64-bit length wraps the bounds check is accepted:
  \<open>read_bstr\<close> then reports a length that reaches past the end of the input, and
  moves the offset backwards.
\<close>

theorem read_bstr_wrapped:
  assumes "read_head buf off = Inr (MT_BSTR, v, o1)" and "2 ^ 64 \<le> o1 + v"
    and "length buf < 2 ^ W" and "W \<le> 64"
  shows "read_bstr W buf off = Inr (o1, v mod 2 ^ W, o1 + v - 2 ^ 64)
    \<and> length buf < o1 + v mod 2 ^ W \<and> o1 + v - 2 ^ 64 < o1"
proof -
  note w = wrapped_string [OF assms]
  have "(o1 + v) mod 2 ^ 64 \<le> length buf"
    using w(1,2) read_head_bounds(2) [OF assms(1)] by simp
  from w advance_eq [OF assms(4) this assms(3)] this assms(1) show ?thesis
    by (simp add: read_bstr_def read_str_def)
qed

theorem read_bstr_wrapped_witness:
  "read_bstr 32 [0x5B, 0xFF, 0xFF, 0xFF, 0xFF, 0xFF, 0xFF, 0xFF, 0xFF] 0 = Inr (9, 4294967295, 8)"
proof -
  have "read_head [0x5B, 0xFF, 0xFF, 0xFF, 0xFF, 0xFF, 0xFF, 0xFF, 0xFF] 0 = Inr (MT_BSTR, 2 ^ 64 - 1, 9)"
    by (simp add: read_head_def Let_def MT_defs)
  from read_bstr_wrapped [OF this, of 32] show ?thesis by simp
qed

end
