(* ===== verification/Issued.thy ===== *)
theory Issued
  imports Storage Cbor Crl
begin

text \<open>
  The records of the certificates that the device has issued, from
  \<open>firmware/src/ca/ca.c\<close>: the packed metadata blob and its two versions, revoking,
  expiring and protecting, the certificate list for the host, and collecting the
  entries of a CRL.

  Each operation works on the store of theory \<open>Storage\<close>.  What the operations do to the
  collection of records as a whole is stated over \<open>registry_of\<close>, the map from serials to
  the records that can be read.
\<close>

definition ISSUED_META_VERSION :: byte where "ISSUED_META_VERSION = 2"
definition ISSUED_META_V1_SIZE :: nat where "ISSUED_META_V1_SIZE = 108"
definition ISSUED_META_SIZE :: nat where "ISSUED_META_SIZE = 116"
definition ISSUED_FLAG_REVOKED :: byte where "ISSUED_FLAG_REVOKED = 0x01"
definition ISSUED_FLAG_PROTECTED :: byte where "ISSUED_FLAG_PROTECTED = 0x02"
definition ISSUED_FLAG_EXPIRED :: byte where "ISSUED_FLAG_EXPIRED = 0x04"

record issued_cert_meta =
  im_version :: byte
  im_flags :: byte
  im_serial_len :: byte
  im_revocation_reason :: byte
  im_issuer_slot :: "32 word"
  im_not_before_unix :: "64 word"
  im_not_after_unix :: "64 word"
  im_serial :: "byte list"
  im_cn :: "byte list"
  im_revoked_at_unix :: "64 word"

text \<open>The bytes of the packed struct, and the struct at the start of a buffer.\<close>

definition meta_bytes :: "issued_cert_meta \<Rightarrow> byte list" where
  "meta_bytes m = [im_version m, im_flags m, im_serial_len m, im_revocation_reason m]
    @ le_bytes 4 (unat (im_issuer_slot m)) @ le_bytes 8 (unat (im_not_before_unix m))
    @ le_bytes 8 (unat (im_not_after_unix m)) @ im_serial m @ im_cn m @ le_bytes 8 (unat (im_revoked_at_unix m))"

definition meta_of_bytes :: "byte list \<Rightarrow> issued_cert_meta" where
  "meta_of_bytes b =
    \<lparr>im_version = b ! 0, im_flags = b ! 1, im_serial_len = b ! 2, im_revocation_reason = b ! 3,
     im_issuer_slot = word_of_nat (le_nat (take 4 (drop 4 b))),
     im_not_before_unix = word_of_nat (le_nat (take 8 (drop 8 b))),
     im_not_after_unix = word_of_nat (le_nat (take 8 (drop 16 b))),
     im_serial = take 20 (drop 24 b), im_cn = take 64 (drop 44 b),
     im_revoked_at_unix = word_of_nat (le_nat (take 8 (drop 108 b)))\<rparr>"

definition decode_issued_meta :: "byte list \<Rightarrow> issued_cert_meta res" where
  "decode_issued_meta buf =
    (if length buf < 1 then Inl EINVAL
     else if buf ! 0 = ISSUED_META_VERSION then
       if length buf < ISSUED_META_SIZE then Inl EINVAL else Inr (meta_of_bytes buf)
     else if buf ! 0 = 1 then
       if length buf < ISSUED_META_V1_SIZE then Inl EINVAL
       else Inr ((meta_of_bytes (take ISSUED_META_V1_SIZE buf @ replicate 8 0))
         \<lparr>im_revocation_reason := 0, im_version := ISSUED_META_VERSION\<rparr>)
     else Inl EINVAL)"

definition read_issued_meta :: "'fs fs_api \<Rightarrow> byte list \<Rightarrow> 'fs \<Rightarrow> issued_cert_meta res" where
  "read_issued_meta F serial s =
    ok_then (storage_issued_meta_read F serial (ISSUED_META_SIZE + 8) s) decode_issued_meta"

definition has_flag :: "byte \<Rightarrow> issued_cert_meta \<Rightarrow> bool" where
  "has_flag f m \<longleftrightarrow> im_flags m AND f \<noteq> 0"

definition set_flag :: "byte \<Rightarrow> issued_cert_meta \<Rightarrow> issued_cert_meta" where
  "set_flag f m = m\<lparr>im_flags := im_flags m OR f\<rparr>"

subsection \<open>Revoking, expiring, protecting\<close>

definition crl_number_bump :: "'fs fs_api \<Rightarrow> nat \<Rightarrow> 'fs \<Rightarrow> 'fs" where
  "crl_number_bump F slot s =
    (let n = (case storage_slot_crl_number_read F slot s of Inr n \<Rightarrow> n | Inl _ \<Rightarrow> 0) in
     snd (storage_slot_crl_number_write F slot (n + 1) s))"

definition ca_revoke_cert :: "'fs fs_api \<Rightarrow> byte list \<Rightarrow> 64 word \<Rightarrow> 'fs \<Rightarrow> errno option \<times> 'fs" where
  "ca_revoke_cert F serial now_unix s =
    (if length serial = 0 \<or> length serial > 20 then (Some EINVAL, s)
     else case read_issued_meta F serial s of
       Inl e \<Rightarrow> (Some e, s)
     | Inr m \<Rightarrow>
         if has_flag ISSUED_FLAG_PROTECTED m then (Some EACCES, s)
         else if has_flag ISSUED_FLAG_REVOKED m then (Some EALREADY, s)
         else
           let m = (set_flag ISSUED_FLAG_REVOKED m)\<lparr>im_revoked_at_unix := now_unix, im_revocation_reason := 0\<rparr> in
           (case storage_issued_meta_write F serial (meta_bytes m) s of
              (Some e, s) \<Rightarrow> (Some e, s)
            | (None, s) \<Rightarrow> (None, crl_number_bump F (unat (im_issuer_slot m)) s)))"

record expire_ctx =
  ex_now_unix :: "64 word"
  ex_count :: "32 word"
  ex_err :: "errno option"

definition expire_cb :: "'fs fs_api \<Rightarrow> byte list \<Rightarrow> expire_ctx \<Rightarrow> 'fs \<Rightarrow> iter_rc option \<times> expire_ctx \<times> 'fs" where
  "expire_cb F serial ctx s =
    (case read_issued_meta F serial s of
       Inl _ \<Rightarrow> (None, ctx, s)
     | Inr m \<Rightarrow>
         if im_not_after_unix m = 0 then (None, ctx, s)
         else if has_flag ISSUED_FLAG_EXPIRED m then (None, ctx, s)
         else if ex_now_unix ctx < im_not_after_unix m then (None, ctx, s)
         else
           (case storage_issued_meta_write F serial (meta_bytes (set_flag ISSUED_FLAG_EXPIRED m)) s of
              (Some e, s) \<Rightarrow> (Some IterStop, ctx\<lparr>ex_err := Some e\<rparr>, s)
            | (None, s) \<Rightarrow> (None, ctx\<lparr>ex_count := ex_count ctx + 1\<rparr>, s)))"

definition ca_auto_expire :: "'fs fs_api \<Rightarrow> 64 word \<Rightarrow> 'fs \<Rightarrow> 32 word res \<times> 'fs" where
  "ca_auto_expire F now_unix s =
    (if now_unix = 0 then (Inl EINVAL, s)
     else case storage_issued_certs_iter F (expire_cb F) \<lparr>ex_now_unix = now_unix, ex_count = 0, ex_err = None\<rparr> s of
       (Some (IterErr e), ctx, s) \<Rightarrow> (Inl e, s)
     | (_, ctx, s) \<Rightarrow> (case ex_err ctx of Some e \<Rightarrow> (Inl e, s) | None \<Rightarrow> (Inr (ex_count ctx), s)))"

record propagate_ctx =
  pr_slot :: "32 word"
  pr_count :: "32 word"

definition propagate_protected_cb :: "'fs fs_api \<Rightarrow> byte list \<Rightarrow> propagate_ctx \<Rightarrow> 'fs
    \<Rightarrow> iter_rc option \<times> propagate_ctx \<times> 'fs" where
  "propagate_protected_cb F serial ctx s =
    (case read_issued_meta F serial s of
       Inl _ \<Rightarrow> (None, ctx, s)
     | Inr m \<Rightarrow>
         if im_issuer_slot m \<noteq> pr_slot ctx then (None, ctx, s)
         else if has_flag ISSUED_FLAG_PROTECTED m then (None, ctx, s)
         else
           (case storage_issued_meta_write F serial (meta_bytes (set_flag ISSUED_FLAG_PROTECTED m)) s of
              (None, s) \<Rightarrow> (None, ctx\<lparr>pr_count := pr_count ctx + 1\<rparr>, s)
            | (Some _, s) \<Rightarrow> (None, ctx, s)))"

text \<open>The second half of \<open>ca_protect_slot\<close>, which runs if the issued certificates are to be protected too.\<close>

definition protect_issued_certs :: "'fs fs_api \<Rightarrow> 32 word \<Rightarrow> 'fs \<Rightarrow> errno option \<times> 'fs" where
  "protect_issued_certs F slot s =
    (case storage_issued_certs_iter F (propagate_protected_cb F) \<lparr>pr_slot = slot, pr_count = 0\<rparr> s of
       (Some (IterErr e), ctx, s) \<Rightarrow> (Some e, s)
     | (_, ctx, s) \<Rightarrow> (None, s))"

subsection \<open>Listing\<close>

record list_certs_ctx =
  lc_out :: "byte list"
  lc_count :: "32 word"
  lc_first_err :: "errno option"
  lc_stop :: bool

text \<open>One \<open>map(4)\<close> entry; the buffer holds \<open>cap\<close> bytes and \<open>out\<close> is what it holds already.\<close>

definition emit_cert_entry :: "nat \<Rightarrow> byte list \<Rightarrow> byte \<Rightarrow> 32 word \<Rightarrow> byte list \<Rightarrow> byte list \<Rightarrow> byte list res" where
  "emit_cert_entry cap out flags issuer_slot cn serial =
    ok_then (emit_map cap out 4) (\<lambda>out.
    ok_then (emit_tstr cap out (str_bytes ''f'')) (\<lambda>out.
    ok_then (emit_uint cap out (unat flags)) (\<lambda>out.
    ok_then (emit_tstr cap out (str_bytes ''i'')) (\<lambda>out.
    ok_then (emit_uint cap out (unat issuer_slot)) (\<lambda>out.
    ok_then (emit_tstr cap out (str_bytes ''n'')) (\<lambda>out.
    ok_then (emit_tstr cap out cn) (\<lambda>out.
    ok_then (emit_tstr cap out (str_bytes ''s'')) (\<lambda>out.
    emit_bstr cap out serial))))))))"

definition list_certs_cb :: "'fs fs_api \<Rightarrow> nat \<Rightarrow> byte list \<Rightarrow> list_certs_ctx \<Rightarrow> 'fs
    \<Rightarrow> iter_rc option \<times> list_certs_ctx \<times> 'fs" where
  "list_certs_cb F cap serial ctx s =
    (if lc_stop ctx then (Some IterStop, ctx, s)
     else
       let (issuer_slot, flags, cn) = (case read_issued_meta F serial s of
             Inr meta \<Rightarrow> (im_issuer_slot meta, im_flags meta, takeWhile (\<lambda>b. b \<noteq> 0) (im_cn meta))
           | Inl _ \<Rightarrow> (0, 0, []))
       in case emit_cert_entry cap (lc_out ctx) flags issuer_slot cn serial of
            Inl e \<Rightarrow> (Some IterStop, ctx\<lparr>lc_stop := True, lc_first_err := Some e\<rparr>, s)
          | Inr out \<Rightarrow> (None, ctx\<lparr>lc_out := out, lc_count := lc_count ctx + 1\<rparr>, s))"

definition ca_list_certs :: "'fs fs_api \<Rightarrow> nat \<Rightarrow> 'fs \<Rightarrow> byte list res" where
  "ca_list_certs F cap s =
    (if cap < 16 then Inl EINVAL
     else ok_then (storage_count_issued_certs F s) (\<lambda>total.
       case emit_array cap [] (word_of_nat total) of
         Inl _ \<Rightarrow> Inl ENOMEM
       | Inr out \<Rightarrow>
           (case storage_issued_certs_iter F (list_certs_cb F cap) \<lparr>lc_out = out, lc_count = 0, lc_first_err = None, lc_stop = False\<rparr> s of
              (Some (IterErr e), ctx, _) \<Rightarrow> Inl e
            | (_, ctx, _) \<Rightarrow>
                if lc_count ctx \<noteq> word_of_nat total then Inl ENOMEM else Inr (lc_out ctx))))"

definition ca_get_cert_count :: "'fs fs_api \<Rightarrow> 'fs \<Rightarrow> nat res" where
  "ca_get_cert_count F s = storage_count_issued_certs F s"

definition ca_get_issued_cert :: "'fs fs_api \<Rightarrow> byte list \<Rightarrow> nat \<Rightarrow> 'fs \<Rightarrow> byte list res" where
  "ca_get_issued_cert F serial cap s = storage_issued_cert_read F serial cap s"

subsection \<open>The entries of a CRL\<close>

record crl_collect_ctx =
  cc_target_slot :: "32 word"
  cc_this_update :: "64 word"
  cc_entries :: "crl_entry list"
  cc_overflow :: bool

definition crl_collect_cb :: "'fs fs_api \<Rightarrow> byte list \<Rightarrow> crl_collect_ctx \<Rightarrow> 'fs
    \<Rightarrow> iter_rc option \<times> crl_collect_ctx \<times> 'fs" where
  "crl_collect_cb F serial ctx s =
    (case read_issued_meta F serial s of
       Inl _ \<Rightarrow> (None, ctx, s)
     | Inr m \<Rightarrow>
         if im_issuer_slot m \<noteq> cc_target_slot ctx then (None, ctx, s)
         else if \<not> has_flag ISSUED_FLAG_REVOKED m then (None, ctx, s)
         else if length (cc_entries ctx) \<ge> CRL_MAX_REVOKED then (None, ctx\<lparr>cc_overflow := True\<rparr>, s)
         else (None, ctx\<lparr>cc_entries := cc_entries ctx @ [\<lparr>ce_serial = serial,
             revoked_at_unix = unat (if im_revoked_at_unix m \<noteq> 0 then im_revoked_at_unix m else cc_this_update ctx)\<rparr>]\<rparr>, s))"

definition crl_collect :: "'fs fs_api \<Rightarrow> 32 word \<Rightarrow> 64 word \<Rightarrow> 'fs \<Rightarrow> crl_collect_ctx res" where
  "crl_collect F issuer_slot now_unix s =
    (case storage_issued_certs_iter F (crl_collect_cb F)
        \<lparr>cc_target_slot = issuer_slot, cc_this_update = now_unix, cc_entries = [], cc_overflow = False\<rparr> s of
       (Some (IterErr e), ctx, _) \<Rightarrow> Inl e
     | (_, ctx, _) \<Rightarrow> Inr ctx)"

subsection \<open>The records as a whole\<close>

text \<open>
  \<open>registry_of\<close> is the map from the serials of 1 to 20 bytes to the records that can be
  read for them.  The \<open>reg_\<close> definitions say what the operations are to do to it.
\<close>

type_synonym registry = "byte list \<Rightarrow> issued_cert_meta option"

definition serial_range :: "byte list \<Rightarrow> bool" where
  "serial_range serial \<longleftrightarrow> 1 \<le> length serial \<and> length serial \<le> 20"

definition registry_of :: "'fs fs_api \<Rightarrow> 'fs \<Rightarrow> registry" where
  "registry_of F s serial =
    (if serial_range serial then case read_issued_meta F serial s of Inr m \<Rightarrow> Some m | Inl _ \<Rightarrow> None else None)"

definition revocable :: "issued_cert_meta \<Rightarrow> bool" where
  "revocable m \<longleftrightarrow> \<not> has_flag ISSUED_FLAG_PROTECTED m \<and> \<not> has_flag ISSUED_FLAG_REVOKED m"

definition revoked :: "64 word \<Rightarrow> issued_cert_meta \<Rightarrow> issued_cert_meta" where
  "revoked now m = (set_flag ISSUED_FLAG_REVOKED m)\<lparr>im_revoked_at_unix := now, im_revocation_reason := 0\<rparr>"

definition reg_revoke :: "byte list \<Rightarrow> 64 word \<Rightarrow> registry \<Rightarrow> registry" where
  "reg_revoke serial now R = (case R serial of None \<Rightarrow> R | Some m \<Rightarrow> if revocable m then R(serial \<mapsto> revoked now m) else R)"

definition expires :: "64 word \<Rightarrow> issued_cert_meta \<Rightarrow> bool" where
  "expires now m \<longleftrightarrow> im_not_after_unix m \<noteq> 0 \<and> \<not> has_flag ISSUED_FLAG_EXPIRED m \<and> im_not_after_unix m \<le> now"

definition reg_expire :: "64 word \<Rightarrow> registry \<Rightarrow> registry" where
  "reg_expire now R = (\<lambda>k. map_option (\<lambda>m. if expires now m then set_flag ISSUED_FLAG_EXPIRED m else m) (R k))"

definition reg_protect :: "32 word \<Rightarrow> registry \<Rightarrow> registry" where
  "reg_protect slot R = (\<lambda>k. map_option (\<lambda>m. if im_issuer_slot m = slot then set_flag ISSUED_FLAG_PROTECTED m else m) (R k))"

definition on_crl :: "32 word \<Rightarrow> issued_cert_meta \<Rightarrow> bool" where
  "on_crl slot m \<longleftrightarrow> im_issuer_slot m = slot \<and> has_flag ISSUED_FLAG_REVOKED m"

definition crl_entry_of :: "64 word \<Rightarrow> byte list \<Rightarrow> issued_cert_meta \<Rightarrow> crl_entry" where
  "crl_entry_of now serial m = \<lparr>ce_serial = serial,
     revoked_at_unix = unat (if im_revoked_at_unix m \<noteq> 0 then im_revoked_at_unix m else now)\<rparr>"

definition meta_wf :: "issued_cert_meta \<Rightarrow> bool" where
  "meta_wf m \<longleftrightarrow> im_version m = ISSUED_META_VERSION \<and> length (im_serial m) = 20 \<and> length (im_cn m) = 64"

definition meta_path :: "byte list \<Rightarrow> string" where
  "meta_path serial = child (child certs_dir (hex_str serial)) ''meta.bin''"

definition registry_view :: "(string \<Rightarrow> node option) \<Rightarrow> registry" where
  "registry_view v serial =
    (if serial_range serial then
       case v (meta_path serial) of
         Some (File c) \<Rightarrow> (case decode_issued_meta (take 124 c) of Inr m \<Rightarrow> Some m | Inl _ \<Rightarrow> None)
       | _ \<Rightarrow> None
     else None)"

text \<open>A volume with one record, for the witnesses.\<close>

definition demo_meta :: issued_cert_meta where
  "demo_meta = \<lparr>im_version = 2, im_flags = 0, im_serial_len = 2, im_revocation_reason = 0, im_issuer_slot = 3,
     im_not_before_unix = 5, im_not_after_unix = 100, im_serial = [0x0A, 0x1B] @ replicate 18 0,
     im_cn = replicate 64 0, im_revoked_at_unix = 0\<rparr>"

definition demo_issued_fs :: memfs where
  "demo_issued_fs = [(''/lfs'', Dir), (''/lfs/certs'', Dir), (''/lfs/certs/0a1b'', Dir),
     (''/lfs/certs/0a1b/meta.bin'', File (meta_bytes demo_meta))]"

subsection \<open>The layout of a record\<close>

lemma word64_of_le: "(word_of_nat (le_nat (le_bytes 8 (unat w))) :: 64 word) = w"
  using unsigned_less [of w, where 'a = nat] by (simp add: le_nat_le_bytes)

lemma length_meta_bytes: "meta_wf m \<Longrightarrow> length (meta_bytes m) = 116"
  by (simp add: meta_bytes_def meta_wf_def)

lemma meta_of_bytes_meta_bytes: "meta_wf m \<Longrightarrow> meta_of_bytes (meta_bytes m) = m"
  by (simp add: meta_of_bytes_def meta_bytes_def meta_wf_def word32_of_le word64_of_le)

lemma decode_meta_bytes: "meta_wf m \<Longrightarrow> decode_issued_meta (take 124 (meta_bytes m)) = Inr m"
  using length_meta_bytes [of m] meta_of_bytes_meta_bytes [of m]
  by (simp add: decode_issued_meta_def ISSUED_META_SIZE_def) (simp add: meta_bytes_def meta_wf_def)

lemma decode_meta_wf: "decode_issued_meta b = Inr m \<Longrightarrow> meta_wf m"
  by (auto simp: decode_issued_meta_def meta_wf_def meta_of_bytes_def ISSUED_META_SIZE_def ISSUED_META_V1_SIZE_def split: if_splits)

lemma meta_wf_updates [simp]:
  "meta_wf (set_flag f m) = meta_wf m" "meta_wf (revoked now m) = meta_wf m"
  by (simp_all add: meta_wf_def set_flag_def revoked_def)

lemma has_set_flag: "f \<noteq> 0 \<Longrightarrow> has_flag f (set_flag f m)"
proof -
  have "(im_flags m OR f) AND f = f" by (intro bit_eqI) (auto simp: bit_simps)
  then show "f \<noteq> 0 \<Longrightarrow> has_flag f (set_flag f m)" by (simp add: has_flag_def set_flag_def)
qed

lemma set_flag_idem: "has_flag ISSUED_FLAG_PROTECTED m \<Longrightarrow> set_flag ISSUED_FLAG_PROTECTED m = m"
proof -
  assume "has_flag ISSUED_FLAG_PROTECTED m"
  then have "bit (im_flags m) 1"
    using bit_iff_and_push_bit_not_eq_0 [of "im_flags m" 1] by (simp add: has_flag_def ISSUED_FLAG_PROTECTED_def)
  then have "set_bit 1 (im_flags m) = im_flags m"
    by (intro bit_eqI) (auto simp: bit_set_bit_iff)
  then have "im_flags m OR 2 = im_flags m" by (simp add: set_bit_eq_or)
  then show ?thesis by (simp add: set_flag_def ISSUED_FLAG_PROTECTED_def)
qed

subsection \<open>Paths of the records\<close>

lemma meta_path_inject [simp]: "meta_path a = meta_path b \<longleftrightarrow> a = b"
proof
  assume "meta_path a = meta_path b"
  then have "hex_str a @ ''/'' @ ''meta.bin'' = hex_str b @ ''/'' @ ''meta.bin''"
    by (simp add: meta_path_def child_def)
  from slash_split [OF this] show "a = b" by simp
qed simp

lemma slot_path_not_meta [simp]: "meta_path serial \<noteq> slot_path slot f" "slot_path slot f \<noteq> meta_path serial"
  by (simp_all add: meta_path_def slot_path_def slot_dir_def child_def certs_dir_def keys_dir_def)

lemma hex_path_meta: "serial_range serial \<Longrightarrow> hex_path serial ''meta.bin'' = Inr (meta_path serial)"
  by (simp add: hex_path_def serial_range_def meta_path_def PATH_MAX_LEN_def Let_def child_def certs_dir_def)

lemma length_meta_path: "serial_range serial \<Longrightarrow> length (meta_path serial) \<le> 127"
  by (simp add: meta_path_def serial_range_def child_def certs_dir_def)

lemma registry_view_range: "registry_view v serial \<noteq> None \<Longrightarrow> serial_range serial"
  by (simp add: registry_view_def split: if_splits)

lemma registry_view_wf: "registry_view v serial = Some m \<Longrightarrow> meta_wf m"
  by (auto simp: registry_view_def split: if_splits option.splits node.splits sum.splits dest: decode_meta_wf)

context fs_laws begin

lemma registry_view_write_other:
  assumes "mounted s" and "write_file F p d s = (r, s')" and "\<And>serial. p \<noteq> meta_path serial"
  shows "registry_view (view s') = registry_view (view s)"
proof
  fix serial
  have "meta_path serial \<noteq> p" using assms(3) by metis
  then have "view s' (meta_path serial) = view s (meta_path serial)
      \<or> view s (meta_path serial) = None \<and> view s' (meta_path serial) = Some Dir"
    using write_file_props [OF assms(1,2)] by blast
  then show "registry_view (view s') serial = registry_view (view s) serial"
    by (auto simp: registry_view_def)
qed

lemma registry_view_write_rest:
  assumes "mounted s" and "write_file F (meta_path serial) d s = (r, s')" and "k \<noteq> serial"
  shows "registry_view (view s') k = registry_view (view s) k"
proof -
  have "meta_path k \<noteq> meta_path serial" using assms(3) by simp
  then have "view s' (meta_path k) = view s (meta_path k) \<or> view s (meta_path k) = None \<and> view s' (meta_path k) = Some Dir"
    using write_file_props [OF assms(1,2)] by blast
  then show ?thesis by (auto simp: registry_view_def)
qed

end

context fs_reliable begin

lemma registry_of_view: "mounted s \<Longrightarrow> registry_of F s = registry_view (view s)"
proof
  fix serial
  assume m: "mounted s"
  show "registry_of F s serial = registry_view (view s) serial"
  proof (cases "serial_range serial")
    case r: True
    show ?thesis
    proof (cases "is_file (view s (meta_path serial))")
      case True
      then obtain c where "view s (meta_path serial) = Some (File c)" by (auto simp: is_file_def)
      with read_file_ok [OF m this] r show ?thesis
        by (simp add: registry_of_def registry_view_def read_issued_meta_def storage_issued_meta_read_def hex_path_meta ISSUED_META_SIZE_def)
    next
      case False
      then obtain e where "read_file F (meta_path serial) 124 s = Inl e"
        using read_file_Inr [OF m, of "meta_path serial" 124] by (cases "read_file F (meta_path serial) 124 s") (auto simp: is_file_def)
      with False r show ?thesis
        by (auto simp: registry_of_def registry_view_def read_issued_meta_def storage_issued_meta_read_def hex_path_meta
            ISSUED_META_SIZE_def is_file_def split: option.splits node.splits)
    qed
  qed (simp add: registry_of_def registry_view_def)
qed

lemma registry_of_wf: "mounted s \<Longrightarrow> registry_of F s serial = Some m \<Longrightarrow> meta_wf m \<and> serial_range serial \<and> is_file (view s (meta_path serial))"
  using registry_view_wf registry_view_range [of "view s" serial]
  by (auto simp: registry_of_view is_file_def) (auto simp: registry_view_def split: if_splits option.splits node.splits)

lemma registry_written:
  assumes "mounted s" and "storage_issued_meta_write F serial (meta_bytes m) s = (r, s')" and "serial_range serial" and "meta_wf m"
  shows "mounted s' \<and> (\<forall>k. k \<noteq> serial \<longrightarrow> registry_of F s' k = registry_of F s k)
    \<and> (r = None \<longrightarrow> registry_of F s' = (registry_of F s)(serial \<mapsto> m))"
proof -
  from assms(2,3) have w: "write_file F (meta_path serial) (meta_bytes m) s = (r, s')"
    by (simp add: storage_issued_meta_write_def hex_path_meta)
  have m': "mounted s'" using write_file_props [OF assms(1) w] by blast
  have rest: "registry_of F s' k = registry_of F s k" if "k \<noteq> serial" for k
    using registry_view_write_rest [OF assms(1) w that] by (simp add: registry_of_view m' assms(1))
  moreover have "registry_of F s' serial = Some m" if "r = None"
  proof -
    have "view s' (meta_path serial) = Some (File (meta_bytes m))"
      using write_file_done [OF assms(1)] w that by simp
    with assms(3) decode_meta_bytes [OF assms(4)] show ?thesis
      by (simp add: registry_of_view [OF m'] registry_view_def)
  qed
  ultimately show ?thesis using m' by (auto simp: fun_eq_iff)
qed

lemma crl_bump_registry:
  assumes "mounted s"
  shows "mounted (crl_number_bump F slot s) \<and> registry_of F (crl_number_bump F slot s) = registry_of F s"
proof -
  obtain r s' where w: "write_file F (slot_path slot ''crl_number.bin'')
      (be_bytes 4 (unat ((case storage_slot_crl_number_read F slot s of Inr n \<Rightarrow> n | Inl _ \<Rightarrow> 0) + 1))) s = (r, s')"
    by (metis surj_pair)
  then have "crl_number_bump F slot s = s'"
    by (simp add: crl_number_bump_def storage_slot_crl_number_write_def Let_def)
  moreover have "mounted s'" using write_file_props [OF assms w] by blast
  moreover have "registry_view (view s') = registry_view (view s)"
    by (rule registry_view_write_other [OF assms w]) simp
  ultimately show ?thesis using assms by (simp add: registry_of_view)
qed

lemma read_meta_registry:
  "serial_range serial \<Longrightarrow> registry_of F s serial = (case read_issued_meta F serial s of Inr m \<Rightarrow> Some m | Inl _ \<Rightarrow> None)"
  by (simp add: registry_of_def)

lemma iter_registry:
  assumes "distinct ks" and "mounted s" and "Q u"
    and step: "\<And>k u s. mounted s \<Longrightarrow> k \<in> set ks \<Longrightarrow> Q u \<Longrightarrow> \<exists>s'. cb k u s = (None, g u k (registry_of F s k), s') \<and> mounted s'
      \<and> registry_of F s' = (registry_of F s)(k := f (registry_of F s k)) \<and> Q (g u k (registry_of F s k))"
  shows "\<exists>s'. iter_entries Some cb ks u s = (None, foldl (\<lambda>u k. g u k (registry_of F s k)) u ks, s') \<and> mounted s'
    \<and> registry_of F s' = (\<lambda>k. if k \<in> set ks then f (registry_of F s k) else registry_of F s k)"
  using assms
proof (induction ks arbitrary: u s)
  case (Cons k ks)
  from Cons.prems(4) [OF Cons.prems(2) list.set_intros(1) Cons.prems(3)] obtain s1 where s1: "cb k u s = (None, g u k (registry_of F s k), s1)"
    "mounted s1" "registry_of F s1 = (registry_of F s)(k := f (registry_of F s k))" "Q (g u k (registry_of F s k))" by blast
  have same: "registry_of F s1 x = registry_of F s x" if "x \<in> set ks" for x
    using that Cons.prems(1) s1(3) by auto
  have fold: "foldl (\<lambda>u k. g u k (registry_of F s1 k)) v ks = foldl (\<lambda>u k. g u k (registry_of F s k)) v ks" for v
    using same by (intro foldl_cong) auto
  have "\<exists>s'. iter_entries Some cb ks (g u k (registry_of F s k)) s1 =
      (None, foldl (\<lambda>u k. g u k (registry_of F s1 k)) (g u k (registry_of F s k)) ks, s') \<and> mounted s'
      \<and> registry_of F s' = (\<lambda>x. if x \<in> set ks then f (registry_of F s1 x) else registry_of F s1 x)"
  proof (rule Cons.IH [OF _ s1(2,4)])
    show "distinct ks" using Cons.prems(1) by simp
    show "\<exists>s'. cb x u s = (None, g u x (registry_of F s x), s') \<and> mounted s'
      \<and> registry_of F s' = (registry_of F s)(x := f (registry_of F s x)) \<and> Q (g u x (registry_of F s x))"
      if "mounted s" "x \<in> set ks" "Q u" for x u s
      by (rule Cons.prems(4) [OF that(1) _ that(3)]) (use that(2) in simp)
  qed
  then obtain s' where "iter_entries Some cb ks (g u k (registry_of F s k)) s1 =
      (None, foldl (\<lambda>u k. g u k (registry_of F s k)) (g u k (registry_of F s k)) ks, s')" "mounted s'"
      "registry_of F s' = (\<lambda>x. if x \<in> set ks then f (registry_of F s1 x) else registry_of F s1 x)" unfolding fold by blast
  with s1 same Cons.prems(1) show ?case by (intro exI [of _ s']) (auto simp: fun_eq_iff)
qed simp

lemma revoke_cases:
  assumes "mounted s" and "ca_revoke_cert F serial now s = (r, s')"
  shows "mounted s' \<and> (case registry_of F s serial of None \<Rightarrow> r \<noteq> None \<and> s' = s
    | Some m \<Rightarrow> if has_flag ISSUED_FLAG_PROTECTED m then r = Some EACCES \<and> s' = s
        else if has_flag ISSUED_FLAG_REVOKED m then r = Some EALREADY \<and> s' = s
        else (r = None \<longrightarrow> registry_of F s' = (registry_of F s)(serial \<mapsto> revoked now m))
          \<and> (\<forall>k. k \<noteq> serial \<longrightarrow> registry_of F s' k = registry_of F s k))"
proof (cases "registry_of F s serial")
  case None
  with assms show ?thesis
    by (auto simp: ca_revoke_cert_def registry_of_def serial_range_def Suc_le_eq split: if_splits sum.splits)
next
  case (Some m)
  note wf = registry_of_wf [OF assms(1) Some]
  from Some have rd: "read_issued_meta F serial s = Inr m" by (auto simp: registry_of_def split: if_splits sum.splits)
  have len: "\<not> (length serial = 0 \<or> length serial > 20)" using wf by (auto simp: serial_range_def)
  show ?thesis
  proof (cases "revocable m")
    case True
    obtain r1 s1 where w: "storage_issued_meta_write F serial (meta_bytes (revoked now m)) s = (r1, s1)" by (metis surj_pair)
    have W: "mounted s1 \<and> (\<forall>k. k \<noteq> serial \<longrightarrow> registry_of F s1 k = registry_of F s k)
        \<and> (r1 = None \<longrightarrow> registry_of F s1 = (registry_of F s)(serial \<mapsto> revoked now m))"
      using wf by (intro registry_written [OF assms(1) w]) simp_all
    have "(r, s') = (r1, s1) \<and> r1 \<noteq> None \<or> r = None \<and> r1 = None \<and> s' = crl_number_bump F (unat (im_issuer_slot m)) s1"
      using assms(2) True rd len w
      by (auto simp: ca_revoke_cert_def revocable_def revoked_def set_flag_def split: option.splits if_splits)
    with W crl_bump_registry [of s1 "unat (im_issuer_slot m)"] Some True show ?thesis
      by (auto simp: revocable_def)
  next
    case False
    with assms rd len Some show ?thesis
      by (auto simp: ca_revoke_cert_def revocable_def split: if_splits)
  qed
qed

lemma iter_issued_registry:
  assumes "mounted s" and "\<not> is_file (view s certs_dir)" and "f None = None" and "Q u"
    and step: "\<And>k u s. mounted s \<Longrightarrow> serial_range k \<Longrightarrow> Q u \<Longrightarrow> \<exists>s'. cb k u s = (None, g u k (registry_of F s k), s') \<and> mounted s'
      \<and> registry_of F s' = (registry_of F s)(k := f (registry_of F s k)) \<and> Q (g u k (registry_of F s k))"
  shows "\<exists>ks s'. distinct ks \<and> {k. registry_of F s k \<noteq> None} \<subseteq> set ks \<and> (\<forall>k \<in> set ks. serial_range k)
    \<and> storage_issued_certs_iter F cb u s = (None, foldl (\<lambda>u k. g u k (registry_of F s k)) u ks, s')
    \<and> mounted s' \<and> registry_of F s' = (\<lambda>k. f (registry_of F s k))"
proof -
  from issued_iter [OF assms(1,2), of cb u] obtain ks where ks: "distinct ks"
    "set ks = {serial. (1 \<le> length serial \<and> length serial \<le> 20) \<and> view s (child certs_dir (hex_str serial)) = Some Dir}"
    "storage_issued_certs_iter F cb u s = iter_entries Some cb ks u s" by blast
  have range: "serial_range k" if "k \<in> set ks" for k using that ks(2) by (simp add: serial_range_def)
  have "\<exists>s'. cb k u s = (None, g u k (registry_of F s k), s') \<and> mounted s'
      \<and> registry_of F s' = (registry_of F s)(k := f (registry_of F s k)) \<and> Q (g u k (registry_of F s k))"
    if "mounted s" "k \<in> set ks" "Q u" for k u s
    by (rule step [OF that(1) range [OF that(2)] that(3)])
  from iter_registry [where cb = cb and g = g and f = f and u = u and Q = Q, OF ks(1) assms(1,4) this] obtain s' where s':
    "iter_entries Some cb ks u s = (None, foldl (\<lambda>u k. g u k (registry_of F s k)) u ks, s')" "mounted s'"
    "registry_of F s' = (\<lambda>k. if k \<in> set ks then f (registry_of F s k) else registry_of F s k)" by blast
  have dom: "k \<in> set ks" if some: "registry_of F s k = Some m" for k m
  proof -
    from registry_of_wf [OF assms(1) some] have r: "serial_range k" "view s (meta_path k) \<noteq> None" by (auto simp: is_file_def)
    have "child certs_dir (hex_str k) \<noteq> []" by (simp add: child_def)
    from path_law [OF assms(1) this, of "''meta.bin''"] r show ?thesis
      by (simp add: ks(2) serial_range_def meta_path_def child_def)
  qed
  have "registry_of F s' k = f (registry_of F s k)" for k
    using dom [of k] assms(3) by (cases "registry_of F s k") (auto simp: s'(3))
  with ks s' dom range show ?thesis by (intro exI [of _ ks] exI [of _ s']) auto
qed

lemma crl_collect_registry:
  assumes "mounted s" and "\<not> is_file (view s certs_dir)"
  shows "\<exists>ks. distinct ks \<and> set ks = {k. \<exists>m. registry_of F s k = Some m \<and> on_crl slot m}
    \<and> crl_collect F slot now s = Inr \<lparr>cc_target_slot = slot, cc_this_update = now,
        cc_entries = map (\<lambda>k. crl_entry_of now k (the (registry_of F s k))) (take 64 ks), cc_overflow = 64 < length ks\<rparr>"
proof -
  let ?g = "\<lambda>(ctx :: crl_collect_ctx) k x. case x of None \<Rightarrow> ctx | Some m \<Rightarrow>
     if \<not> on_crl (cc_target_slot ctx) m then ctx
     else if length (cc_entries ctx) \<ge> CRL_MAX_REVOKED then ctx\<lparr>cc_overflow := True\<rparr>
     else ctx\<lparr>cc_entries := cc_entries ctx @ [crl_entry_of (cc_this_update ctx) k m]\<rparr>"
  let ?c = "\<lparr>cc_target_slot = slot, cc_this_update = now, cc_entries = [], cc_overflow = False\<rparr>"
  have step: "\<exists>s'. crl_collect_cb F k u s = (None, ?g u k (registry_of F s k), s') \<and> mounted s'
      \<and> registry_of F s' = (registry_of F s)(k := id (registry_of F s k)) \<and> True" if "mounted s" "serial_range k" True for k u s
    using that by (auto simp: crl_collect_cb_def read_meta_registry on_crl_def crl_entry_of_def split: sum.splits)
  from iter_issued_registry [where f = id and cb = "crl_collect_cb F" and g = ?g and u = ?c and Q = "\<lambda>_. True", OF assms _ _ step] obtain ks s' where ks: "distinct ks"
    "{k. registry_of F s k \<noteq> None} \<subseteq> set ks"
    "storage_issued_certs_iter F (crl_collect_cb F) ?c s = (None, foldl (\<lambda>u k. ?g u k (registry_of F s k)) ?c ks, s')"
    by auto
  define P where "P k = (case registry_of F s k of None \<Rightarrow> False | Some m \<Rightarrow> on_crl slot m)" for k
  have fold: "foldl (\<lambda>u k. ?g u k (registry_of F s k)) \<lparr>cc_target_slot = slot, cc_this_update = now,
        cc_entries = map (\<lambda>k. crl_entry_of now k (the (registry_of F s k))) (take 64 zs), cc_overflow = 64 < length zs\<rparr> ks
      = \<lparr>cc_target_slot = slot, cc_this_update = now,
        cc_entries = map (\<lambda>k. crl_entry_of now k (the (registry_of F s k))) (take 64 (zs @ filter P ks)),
        cc_overflow = 64 < length (zs @ filter P ks)\<rparr>" for zs ks
  proof (induction ks arbitrary: zs)
    case (Cons k ks)
    show ?case
    proof (cases "P k")
      case True
      then obtain m where m: "registry_of F s k = Some m" "on_crl slot m" by (auto simp: P_def split: option.splits)
      show ?thesis
        using Cons.IH [of "zs @ [k]"] m True
        by (cases "length zs < 64") (simp_all add: CRL_MAX_REVOKED_def min_def)
    next
      case False
      then show ?thesis using Cons.IH [of zs] by (auto simp: P_def split: option.splits)
    qed
  qed simp
  have "set (filter P ks) = {k. \<exists>m. registry_of F s k = Some m \<and> on_crl slot m}"
    using ks(2) by (auto simp: P_def split: option.splits)
  with ks fold [of "[]" ks] show ?thesis
    by (intro exI [of _ "filter P ks"]) (simp add: crl_collect_def)
qed

lemma revoked_on_crl:
  assumes "mounted s" and "registry_of F s serial = Some m" and "ca_revoke_cert F serial now s = (None, s')"
    and "card {k. \<exists>x. registry_of F s' k = Some x \<and> on_crl (im_issuer_slot m) x} \<le> 64"
  shows "\<exists>ctx. crl_collect F (im_issuer_slot m) t s' = Inr ctx \<and> \<not> cc_overflow ctx
    \<and> distinct (map ce_serial (cc_entries ctx))
    \<and> set (map ce_serial (cc_entries ctx)) = {k. \<exists>x. registry_of F s' k = Some x \<and> on_crl (im_issuer_slot m) x}
    \<and> \<lparr>ce_serial = serial, revoked_at_unix = unat (if now \<noteq> 0 then now else t)\<rparr> \<in> set (cc_entries ctx)"
proof -
  have s': "mounted s'" "registry_of F s' = (registry_of F s)(serial \<mapsto> revoked now m)"
    using revoke_cases [OF assms(1,3)] assms(2) by (auto split: if_splits)
  then have some: "registry_of F s' serial = Some (revoked now m)" by simp
  have "certs_dir \<noteq> []" by (simp add: certs_dir_def)
  from path_law [OF s'(1) this, of "hex_str serial @ ''/'' @ ''meta.bin''"] registry_of_wf [OF s'(1) some]
  have "\<not> is_file (view s' certs_dir)" by (auto simp: is_file_def meta_path_def child_def)
  from crl_collect_registry [OF s'(1) this, of "im_issuer_slot m" t] obtain ks where ks: "distinct ks"
    "set ks = {k. \<exists>x. registry_of F s' k = Some x \<and> on_crl (im_issuer_slot m) x}"
    "crl_collect F (im_issuer_slot m) t s' = Inr \<lparr>cc_target_slot = im_issuer_slot m, cc_this_update = t,
        cc_entries = map (\<lambda>k. crl_entry_of t k (the (registry_of F s' k))) (take 64 ks), cc_overflow = 64 < length ks\<rparr>" by blast
  have len: "length ks \<le> 64" using assms(4) distinct_card [OF ks(1)] ks(2) by simp
  have "on_crl (im_issuer_slot m) (revoked now m)"
    using has_set_flag [of ISSUED_FLAG_REVOKED m]
    by (simp add: on_crl_def revoked_def has_flag_def set_flag_def ISSUED_FLAG_REVOKED_def)
  with some ks(2) have mem: "serial \<in> set ks" by blast
  have "crl_entry_of t serial (revoked now m) = \<lparr>ce_serial = serial, revoked_at_unix = unat (if now \<noteq> 0 then now else t)\<rparr>"
    by (simp add: crl_entry_of_def revoked_def)
  with mem some have ent: "\<lparr>ce_serial = serial, revoked_at_unix = unat (if now \<noteq> 0 then now else t)\<rparr>
      \<in> set (map (\<lambda>k. crl_entry_of t k (the (registry_of F s' k))) ks)" by (force simp: image_iff)
  have ser: "map ce_serial (map (\<lambda>k. crl_entry_of t k (the (registry_of F s' k))) ks) = ks"
    by (simp add: crl_entry_of_def comp_def)
  show ?thesis
    unfolding ks(3) using len ks(1,2) ent ser by (simp del: map_map set_map)
qed

end

text \<open>A volume with room: overwriting a file does not fail.\<close>

locale fs_roomy = fs_reliable +
  assumes overwrite_ok: "mounted s \<Longrightarrow> is_file (view s p) \<Longrightarrow> length p \<le> 127 \<Longrightarrow> fst (write_file F p d s) = None"
begin

lemma meta_overwritten:
  assumes "mounted s" and "registry_of F s serial = Some m" and "meta_wf m'"
  shows "\<exists>s'. storage_issued_meta_write F serial (meta_bytes m') s = (None, s') \<and> mounted s'
    \<and> registry_of F s' = (registry_of F s)(serial \<mapsto> m')"
proof -
  note wf = registry_of_wf [OF assms(1,2)]
  have "fst (write_file F (meta_path serial) (meta_bytes m') s) = None"
    using wf by (intro overwrite_ok [OF assms(1)] length_meta_path) simp_all
  then obtain s' where "storage_issued_meta_write F serial (meta_bytes m') s = (None, s')"
    using wf by (cases "write_file F (meta_path serial) (meta_bytes m') s") (simp add: storage_issued_meta_write_def hex_path_meta)
  with registry_written [OF assms(1) this _ assms(3)] wf show ?thesis by blast
qed

lemma revoke_registry:
  assumes "mounted s"
  shows "mounted (snd (ca_revoke_cert F serial now s))
    \<and> registry_of F (snd (ca_revoke_cert F serial now s)) = reg_revoke serial now (registry_of F s)
    \<and> (fst (ca_revoke_cert F serial now s) = None \<longleftrightarrow> (\<exists>m. registry_of F s serial = Some m \<and> revocable m))"
proof -
  obtain r s' where e: "ca_revoke_cert F serial now s = (r, s')" by (metis surj_pair)
  note c = revoke_cases [OF assms e]
  show ?thesis
  proof (cases "\<exists>m. registry_of F s serial = Some m \<and> revocable m")
    case True
    then obtain m where m: "registry_of F s serial = Some m" "revocable m" by blast
    from registry_of_wf [OF assms m(1)] have "meta_wf (revoked now m)" by simp
    from meta_overwritten [OF assms m(1) this] registry_of_wf [OF assms m(1)] m have "r = None"
      using e by (auto simp: ca_revoke_cert_def read_meta_registry serial_range_def revocable_def revoked_def set_flag_def
          split: sum.splits if_splits)
    with c e m show ?thesis by (simp add: reg_revoke_def revocable_def)
  next
    case False
    with c e show ?thesis by (cases "registry_of F s serial") (auto simp: reg_revoke_def revocable_def split: if_splits)
  qed
qed

lemma expire_registry:
  assumes "mounted s" and "\<not> is_file (view s certs_dir)" and "now \<noteq> 0"
  shows "\<exists>s'. ca_auto_expire F now s = (Inr (word_of_nat (card {k. \<exists>m. registry_of F s k = Some m \<and> expires now m})), s')
    \<and> mounted s' \<and> registry_of F s' = reg_expire now (registry_of F s)"
proof -
  let ?f = "map_option (\<lambda>m. if expires now m then set_flag ISSUED_FLAG_EXPIRED m else m)"
  let ?ex = "\<lambda>ctx x. case x of None \<Rightarrow> False | Some m \<Rightarrow> expires (ex_now_unix ctx) m"
  let ?g = "\<lambda>(ctx :: expire_ctx) k x. if ?ex ctx x then ctx\<lparr>ex_count := ex_count ctx + 1\<rparr> else ctx"
  let ?c = "\<lparr>ex_now_unix = now, ex_count = 0, ex_err = None\<rparr>"
  have step: "\<exists>s'. expire_cb F k u s = (None, ?g u k (registry_of F s k), s') \<and> mounted s'
      \<and> registry_of F s' = (registry_of F s)(k := ?f (registry_of F s k)) \<and> ex_now_unix (?g u k (registry_of F s k)) = now \<and> ex_err (?g u k (registry_of F s k)) = None"
    if that: "mounted s" "serial_range k" "ex_now_unix u = now \<and> ex_err u = None" for k u s
  proof (cases "registry_of F s k")
    case None
    with that show ?thesis by (auto simp: expire_cb_def read_meta_registry split: sum.splits)
  next
    case (Some m)
    with that have rd: "read_issued_meta F k s = Inr m" by (simp add: read_meta_registry split: sum.splits)
    have "meta_wf (set_flag ISSUED_FLAG_EXPIRED m)" using registry_of_wf [OF that(1) Some] by simp
    from meta_overwritten [OF that(1) Some this] obtain s' where
      "storage_issued_meta_write F k (meta_bytes (set_flag ISSUED_FLAG_EXPIRED m)) s = (None, s')" "mounted s'"
      "registry_of F s' = (registry_of F s)(k \<mapsto> set_flag ISSUED_FLAG_EXPIRED m)" by blast
    with rd that Some show ?thesis by (cases "expires now m") (auto simp: expire_cb_def expires_def not_less fun_eq_iff)
  qed
  have init: "?f None = None" "ex_now_unix ?c = now \<and> ex_err ?c = None" by simp_all
  from iter_issued_registry [where f = ?f and cb = "expire_cb F" and g = ?g and u = ?c
      and Q = "\<lambda>u. ex_now_unix u = now \<and> ex_err u = None", OF assms(1,2) init step]
  obtain ks s' where ks: "distinct ks" "{k. registry_of F s k \<noteq> None} \<subseteq> set ks"
    "storage_issued_certs_iter F (expire_cb F) ?c s = (None, foldl (\<lambda>u k. ?g u k (registry_of F s k)) ?c ks, s')"
    "mounted s'" "registry_of F s' = (\<lambda>k. ?f (registry_of F s k))" by blast
  define P where "P k = (case registry_of F s k of None \<Rightarrow> False | Some m \<Rightarrow> expires now m)" for k
  have fold: "foldl (\<lambda>u k. ?g u k (registry_of F s k)) \<lparr>ex_now_unix = now, ex_count = c, ex_err = None\<rparr> ks
      = \<lparr>ex_now_unix = now, ex_count = c + word_of_nat (length (filter P ks)), ex_err = None\<rparr>" for c ks
    by (induction ks arbitrary: c) (auto simp: P_def split: option.splits)
  have "set (filter P ks) = {k. \<exists>m. registry_of F s k = Some m \<and> expires now m}"
    using ks(2) by (auto simp: P_def split: option.splits)
  then have "length (filter P ks) = card {k. \<exists>m. registry_of F s k = Some m \<and> expires now m}"
    using distinct_card [OF distinct_filter [OF ks(1)], of P] by simp
  with ks fold [of 0 ks] assms(3) show ?thesis by (simp add: ca_auto_expire_def reg_expire_def)
qed

lemma protect_registry:
  assumes "mounted s" and "\<not> is_file (view s certs_dir)"
  shows "\<exists>s'. protect_issued_certs F slot s = (None, s') \<and> mounted s' \<and> registry_of F s' = reg_protect slot (registry_of F s)"
proof -
  let ?f = "map_option (\<lambda>m. if im_issuer_slot m = slot then set_flag ISSUED_FLAG_PROTECTED m else m)"
  let ?g = "\<lambda>(ctx :: propagate_ctx) k x. case x of None \<Rightarrow> ctx | Some m \<Rightarrow>
     if im_issuer_slot m = pr_slot ctx \<and> \<not> has_flag ISSUED_FLAG_PROTECTED m then ctx\<lparr>pr_count := pr_count ctx + 1\<rparr> else ctx"
  have step: "\<exists>s'. propagate_protected_cb F k u s = (None, ?g u k (registry_of F s k), s') \<and> mounted s'
      \<and> registry_of F s' = (registry_of F s)(k := ?f (registry_of F s k)) \<and> pr_slot (?g u k (registry_of F s k)) = slot"
    if that: "mounted s" "serial_range k" "pr_slot u = slot" for k u s
  proof (cases "registry_of F s k")
    case None
    with that show ?thesis by (auto simp: propagate_protected_cb_def read_meta_registry split: sum.splits)
  next
    case (Some m)
    with that have rd: "read_issued_meta F k s = Inr m" by (simp add: read_meta_registry split: sum.splits)
    have "meta_wf (set_flag ISSUED_FLAG_PROTECTED m)" using registry_of_wf [OF that(1) Some] by simp
    from meta_overwritten [OF that(1) Some this] obtain s' where
      "storage_issued_meta_write F k (meta_bytes (set_flag ISSUED_FLAG_PROTECTED m)) s = (None, s')" "mounted s'"
      "registry_of F s' = (registry_of F s)(k \<mapsto> set_flag ISSUED_FLAG_PROTECTED m)" by blast
    with rd that Some show ?thesis
      by (cases "has_flag ISSUED_FLAG_PROTECTED m") (auto simp: propagate_protected_cb_def set_flag_idem fun_eq_iff)
  qed
  let ?c = "\<lparr>pr_slot = slot, pr_count = 0\<rparr>"
  have init: "?f None = None" "pr_slot ?c = slot" by simp_all
  from iter_issued_registry [where f = ?f and cb = "propagate_protected_cb F" and g = ?g and u = ?c
      and Q = "\<lambda>u. pr_slot u = slot", OF assms init step]
  obtain ks s' where "storage_issued_certs_iter F (propagate_protected_cb F) ?c s = (None, foldl (\<lambda>u k. ?g u k (registry_of F s k)) ?c ks, s')"
    "mounted s'" "registry_of F s' = (\<lambda>k. ?f (registry_of F s k))" by blast
  then show ?thesis by (simp add: protect_issued_certs_def reg_protect_def)
qed

end


subsection \<open>Instances\<close>

interpretation memroom: fs_roomy mem_api mem_inv map_of
proof (unfold_locales, goal_cases)
  case (1 s p d)
  then have "path_ok s p" "map_of s p \<noteq> Some Dir" using mem_inv_path [of s p] by (auto simp: is_file_def)
  with 1 show ?case by (simp add: mem_write_file)
qed

lemma demo_meta_path: "meta_path [0x0A, 0x1B] = ''/lfs/certs/0a1b/meta.bin''"
  by (simp add: meta_path_def child_def certs_dir_def hex_digit_def char_of_eq_iff take_bit_eq_mod)

lemma demo_issued_inv: "mem_inv demo_issued_fs" "\<not> is_file (map_of demo_issued_fs certs_dir)"
  by (simp_all add: demo_issued_fs_def mem_inv_def path_ok_def comp_ok_def name_ok_def upt_rec certs_dir_def is_file_def)

lemma demo_meta_wf: "meta_wf demo_meta"
  by (simp add: meta_wf_def demo_meta_def ISSUED_META_VERSION_def)

lemma demo_revocable: "revocable demo_meta"
  by (simp add: revocable_def has_flag_def demo_meta_def)

lemma demo_registry: "registry_of mem_api demo_issued_fs [0x0A, 0x1B] = Some demo_meta"
proof -
  have "map_of demo_issued_fs (meta_path [0x0A, 0x1B]) = Some (File (meta_bytes demo_meta))"
    by (simp add: demo_meta_path demo_issued_fs_def)
  with decode_meta_bytes [OF demo_meta_wf] show ?thesis
    by (simp add: memr.registry_of_view [OF demo_issued_inv(1)] registry_view_def serial_range_def)
qed





end
