(* ===== verification/Ca.thy ===== *)
theory Ca
  imports Ca_Params Issued
begin

text \<open>
  The certificate authority, \<open>firmware/src/ca/ca.c\<close>: the key slots and their
  certificates.  The encoders and the records of issued certificates that it uses are in
  the theories \<open>Crl\<close>, \<open>Issued\<close> and \<open>Ca_Params\<close>, the X.509 seam in \<open>Certgen\<close> and \<open>Certparse\<close>.

  The environment \<open>E\<close> bundles the libraries and the build constants; the state is the
  mounted volume, the variable \<open>provisioned\<close> and the entropy source.  Operations that
  change the state are actions, functions from a state to a result and a state;
  \<open>act_then\<close> is "if (rc) return rc;" for them.  Operations that read only are functions of
  the state.  Null-pointer checks have no counterpart, and wiping secrets from the stack
  (\<open>cantil_zeroize\<close>) does not change a result.
\<close>

definition CA_SLOT :: nat where "CA_SLOT = 0"
definition KEY_BLOB_MAX :: nat where "KEY_BLOB_MAX = 128"
definition X509_DATA_MAX :: nat where "X509_DATA_MAX = 512"
definition SIGN_CSR_VALIDITY_DAYS :: "16 word" where "SIGN_CSR_VALIDITY_DAYS = 365"
definition SIGN_CSR_NOT_BEFORE_UNIX :: "64 word" where "SIGN_CSR_NOT_BEFORE_UNIX = 1767225600"
definition KEY_TYPE_P256 :: byte where "KEY_TYPE_P256 = 1"

record ('fs, 'k, 'r) ca_env =
  env_fs :: "'fs fs_api"
  env_wc :: "'r wolfcrypt"
  env_asn :: wolfasn
  env_gen :: "('k, 'r) wolfcert"
  max_key_slots :: nat
  crl_validity_sec :: "64 word"
  sizeof_size_t :: nat

record ('fs, 'r) ca_state =
  ca_vol :: "'fs vol"
  provisioned :: bool
  ca_rng :: 'r

type_synonym ('s, 'a) act = "'s \<Rightarrow> 'a res \<times> 's"

definition act_then :: "('s, 'a) act \<Rightarrow> ('a \<Rightarrow> ('s, 'b) act) \<Rightarrow> ('s, 'b) act" where
  "act_then m f s = (case m s of (Inl e, s) \<Rightarrow> (Inl e, s) | (Inr x, s) \<Rightarrow> f x s)"

definition fails :: "errno \<Rightarrow> ('s, 'a) act" where "fails e s = (Inl e, s)"

definition gives :: "'a \<Rightarrow> ('s, 'a) act" where "gives x s = (Inr x, s)"

abbreviation ca_fs :: "('fs, 'r) ca_state \<Rightarrow> 'fs" where "ca_fs S \<equiv> vfs (ca_vol S)"

definition put_fs :: "'fs \<Rightarrow> ('fs, 'r) ca_state \<Rightarrow> ('fs, 'r) ca_state" where
  "put_fs s S = S\<lparr>ca_vol := (ca_vol S)\<lparr>vfs := s\<rparr>\<rparr>"

definition fs_get :: "('fs \<Rightarrow> 'a res) \<Rightarrow> (('fs, 'r) ca_state, 'a) act" where
  "fs_get f S = (f (ca_fs S), S)"

definition fs_do :: "('fs \<Rightarrow> errno option \<times> 'fs) \<Rightarrow> (('fs, 'r) ca_state, unit) act" where
  "fs_do f S = (case f (ca_fs S) of (rc, s) \<Rightarrow> (case rc of None \<Rightarrow> Inr () | Some e \<Rightarrow> Inl e, put_fs s S))"

text \<open>A call whose result is ignored.\<close>

definition fs_try :: "('fs \<Rightarrow> errno option \<times> 'fs) \<Rightarrow> (('fs, 'r) ca_state, unit) act" where
  "fs_try f S = (Inr (), put_fs (snd (f (ca_fs S))) S)"

definition rng_do :: "('r \<Rightarrow> 'a res \<times> 'r) \<Rightarrow> (('fs, 'r) ca_state, 'a) act" where
  "rng_do f S = (case f (ca_rng S) of (x, r) \<Rightarrow> (x, S\<lparr>ca_rng := r\<rparr>))"

text \<open>The answer of an existence check, as \<open>== 1\<close> reads it.\<close>

definition is_1 :: "bool res \<Rightarrow> bool" where "is_1 x \<longleftrightarrow> x = Inr True"

subsection \<open>Slot metadata and keys\<close>

record slot_meta =
  sm_version :: byte
  sm_key_type :: byte
  sm_is_protected :: byte
  sm_protect_issued :: byte
  sm_flags :: "32 word"
  sm_created_unix :: "64 word"
  sm_reserved :: "byte list"

definition slot_meta_bytes :: "slot_meta \<Rightarrow> byte list" where
  "slot_meta_bytes m = [sm_version m, sm_key_type m, sm_is_protected m, sm_protect_issued m]
    @ le_bytes 4 (unat (sm_flags m)) @ le_bytes 8 (unat (sm_created_unix m)) @ sm_reserved m"

definition slot_meta_of_bytes :: "byte list \<Rightarrow> slot_meta" where
  "slot_meta_of_bytes b =
    \<lparr>sm_version = b ! 0, sm_key_type = b ! 1, sm_is_protected = b ! 2, sm_protect_issued = b ! 3,
     sm_flags = word_of_nat (le_nat (take 4 (drop 4 b))), sm_created_unix = word_of_nat (le_nat (take 8 (drop 8 b))),
     sm_reserved = take 8 (drop 16 b)\<rparr>"

definition meta_read :: "'fs fs_api \<Rightarrow> nat \<Rightarrow> 'fs \<Rightarrow> slot_meta res" where
  "meta_read F slot s =
    ok_then (storage_slot_meta_read F slot 24 s) (\<lambda>buf.
      if length buf \<noteq> 24 \<or> buf ! 0 \<noteq> 1 then Inl EINVAL else Inr (slot_meta_of_bytes buf))"

definition meta_write :: "'fs fs_api \<Rightarrow> nat \<Rightarrow> slot_meta \<Rightarrow> 'fs \<Rightarrow> errno option \<times> 'fs" where
  "meta_write F slot m s = storage_slot_meta_write F slot (slot_meta_bytes m) s"

definition new_slot_meta :: "byte \<Rightarrow> byte \<Rightarrow> byte \<Rightarrow> slot_meta" where
  "new_slot_meta key_type is_protected protect_issued =
    \<lparr>sm_version = 1, sm_key_type = key_type, sm_is_protected = is_protected, sm_protect_issued = protect_issued,
     sm_flags = 0, sm_created_unix = 0, sm_reserved = replicate 8 0\<rparr>"

definition load_slot_privkey :: "('fs, 'k, 'r) ca_env \<Rightarrow> nat \<Rightarrow> nat \<Rightarrow> 'fs \<Rightarrow> byte list res" where
  "load_slot_privkey E slot cap s =
    ok_then (crypto_storage_key_derive (env_wc E)) (\<lambda>storage_key.
    ok_then (storage_key_read (env_fs E) slot KEY_BLOB_MAX s) (\<lambda>blob.
    crypto_decrypt_blob (env_wc E) storage_key blob cap))"

text \<open>The idiom "if (rc || privkey_len != 32) return rc ? rc : -EIO".\<close>

definition load_privkey_32 :: "('fs, 'k, 'r) ca_env \<Rightarrow> nat \<Rightarrow> 'fs \<Rightarrow> byte list res" where
  "load_privkey_32 E slot s =
    ok_then (load_slot_privkey E slot 32 s) (\<lambda>priv. if length priv \<noteq> 32 then Inl EIO else Inr priv)"

definition derive_slot_pubkey :: "('fs, 'k, 'r) ca_env \<Rightarrow> nat \<Rightarrow> 'fs \<Rightarrow> byte list res" where
  "derive_slot_pubkey E slot s =
    ok_then (load_privkey_32 E slot s) (\<lambda>priv.
    ok_then (crypto_pubkey_from_privkey (env_wc E) priv 65) (\<lambda>pub.
    if length pub = 65 then Inr pub else Inl EIO))"

definition load_issuer_x509_params :: "'fs fs_api \<Rightarrow> nat \<Rightarrow> 'fs \<Rightarrow> x509_params res" where
  "load_issuer_x509_params F slot s = ok_then (storage_slot_x509_read F slot X509_DATA_MAX s) x509_parse"

subsection \<open>Self-signed certificates and the session identity\<close>

definition path_len_of :: "x509_params \<Rightarrow> int" where
  "path_len_of p = (if xp_path_len p = 0xFF then -1 else uint (xp_path_len p))"

definition build_self_signed_cert :: "('fs, 'k, 'r) ca_env \<Rightarrow> nat \<Rightarrow> x509_params \<Rightarrow> (('fs, 'r) ca_state, unit) act" where
  "build_self_signed_cert E slot p =
    (if slot \<ge> max_key_slots E then fails EINVAL
     else
       act_then (fs_get (load_privkey_32 E slot)) (\<lambda>privkey.
       act_then (rng_do (gen_serial (env_wc E))) (\<lambda>serial.
         let dn = params_to_dn p;
             ku = (if xp_is_ca p \<noteq> 0 then xp_key_usage p OR (KU_KEY_CERT_SIGN OR KU_CRL_SIGN) else xp_key_usage p);
             key = \<lparr>k_priv = Some privkey, k_pub = None\<rparr>;
             cp = \<lparr>p_serial = serial, p_not_before = NOT_BEFORE_BASE, p_not_after = compute_not_after (xp_validity_days p),
               p_emit_bc = xp_is_ca p \<noteq> 0, p_is_ca = xp_is_ca p \<noteq> 0, p_path_len = path_len_of p,
               p_key_usage = ku, p_ext = None\<rparr>
         in act_then (rng_do (certgen_build_cert (env_gen E) key key dn dn cp CERT_DER_MAX)) (\<lambda>der.
            fs_do (storage_slot_cert_write (env_fs E) slot der)))))"

text \<open>
  The check of the constant and the override that the three session functions share.
  An override that is no string, or the empty one, leaves the common name.
\<close>

definition session_params :: "byte list \<Rightarrow> byte list option \<Rightarrow> x509_params res" where
  "session_params x509_blob cn_override =
    ok_then (x509_parse x509_blob) (\<lambda>p.
      if xp_is_ca p \<noteq> 0 then Inl EINVAL
      else case cn_override of
        None \<Rightarrow> Inr p
      | Some cn \<Rightarrow> if cstr cn = [] then Inr p
          else if length (cstr cn) \<ge> 65 then Inl EINVAL else Inr (p\<lparr>xp_cn := cstr cn\<rparr>))"

definition ca_build_session_cert :: "('fs, 'k, 'r) ca_env \<Rightarrow> byte list \<Rightarrow> byte list option \<Rightarrow> byte list \<Rightarrow> byte list
    \<Rightarrow> nat \<Rightarrow> 'r \<Rightarrow> byte list res \<times> 'r" where
  "ca_build_session_cert E x509_blob cn_override id_priv x25519_pub cap r =
    (case session_params x509_blob cn_override of
       Inl e \<Rightarrow> (Inl e, r)
     | Inr p \<Rightarrow>
    (case gen_serial (env_wc E) r of
       (Inl e, r) \<Rightarrow> (Inl e, r)
     | (Inr serial, r) \<Rightarrow>
         let dn = params_to_dn p; key = \<lparr>k_priv = Some id_priv, k_pub = None\<rparr>;
             cp = \<lparr>p_serial = serial, p_not_before = NOT_BEFORE_BASE, p_not_after = compute_not_after (xp_validity_days p),
               p_emit_bc = False, p_is_ca = False, p_path_len = 0, p_key_usage = xp_key_usage p,
               p_ext = Some (OID_SESSION_X25519, x25519_pub)\<rparr>
         in certgen_build_cert (env_gen E) key key dn dn cp cap r))"

definition ca_build_session_csr :: "('fs, 'k, 'r) ca_env \<Rightarrow> byte list \<Rightarrow> byte list option \<Rightarrow> byte list \<Rightarrow> byte list
    \<Rightarrow> nat \<Rightarrow> 'r \<Rightarrow> byte list res \<times> 'r" where
  "ca_build_session_csr E x509_blob cn_override id_priv x25519_pub cap r =
    (case session_params x509_blob cn_override of
       Inl e \<Rightarrow> (Inl e, r)
     | Inr p \<Rightarrow> certgen_build_csr (env_gen E) \<lparr>k_priv = Some id_priv, k_pub = None\<rparr> (params_to_dn p) (xp_key_usage p)
         (Some (OID_SESSION_X25519, x25519_pub)) cap r)"

definition ca_session_cert_matches_constant :: "wolfasn \<Rightarrow> byte list \<Rightarrow> byte list \<Rightarrow> bool res" where
  "ca_session_cert_matches_constant W cert_der x509_blob =
    ok_then (x509_parse x509_blob) (\<lambda>want.
      case certparse_cert W cert_der of
        Inl _ \<Rightarrow> Inl EINVAL
      | Inr got \<Rightarrow> Inr (
          \<not> cp_dn_overflow got
          \<and> cstr (dn_o (cp_subject got)) = cstr (xp_o want) \<and> cstr (dn_ou (cp_subject got)) = cstr (xp_ou want)
          \<and> cstr (dn_c (cp_subject got)) = cstr (xp_c want) \<and> cstr (dn_st (cp_subject got)) = cstr (xp_st want)
          \<and> cstr (dn_l (cp_subject got)) = cstr (xp_l want)
          \<and> cp_key_usage got = xp_key_usage want
          \<and> (cp_self_signed got \<longrightarrow>
              (let na = compute_not_after (xp_validity_days want) in
               cp_na got = (dec_val (take 4 na), dec_val (take 2 (drop 4 na)), dec_val (take 2 (drop 6 na)))))))"

subsection \<open>Start-up and provisioning\<close>

definition ca_init :: "('fs, 'k, 'r) ca_env \<Rightarrow> ('fs, 'r) ca_state \<Rightarrow> ('fs, 'r) ca_state" where
  "ca_init E S =
    (case storage_key_read (env_fs E) CA_SLOT KEY_BLOB_MAX (ca_fs S) of
       Inl _ \<Rightarrow> S
     | Inr blob \<Rightarrow>
         if length blob = 0 then S
         else
           let S = S\<lparr>provisioned := True\<rparr> in
           if storage_slot_cert_exists (env_fs E) CA_SLOT (ca_fs S) \<noteq> Inr False then S
           else case load_issuer_x509_params (env_fs E) CA_SLOT (ca_fs S) of
             Inl _ \<Rightarrow> S
           | Inr p \<Rightarrow> snd (build_self_signed_cert E CA_SLOT p S))"

definition ca_provisioned :: "('fs, 'k, 'r) ca_env \<Rightarrow> ('fs, 'r) ca_state \<Rightarrow> bool" where
  "ca_provisioned E S \<longleftrightarrow> is_1 (storage_slot_key_exists (env_fs E) CA_SLOT (ca_fs S))"

text \<open>Generating a key, encrypting it and writing it with its metadata, as \<open>ca_provision\<close> and \<open>ca_gen_key\<close> do.\<close>

definition mint_key :: "('fs, 'k, 'r) ca_env \<Rightarrow> nat \<Rightarrow> slot_meta \<Rightarrow> (('fs, 'r) ca_state, unit) act" where
  "mint_key E slot m =
    act_then (fs_get (\<lambda>_. crypto_storage_key_derive (env_wc E))) (\<lambda>storage_key.
    act_then (rng_do (crypto_keygen (env_wc E) 64)) (\<lambda>privkey.
    act_then (rng_do (crypto_encrypt_blob (env_wc E) storage_key privkey KEY_BLOB_MAX)) (\<lambda>blob.
    act_then (fs_do (storage_key_write (env_fs E) slot blob)) (\<lambda>_.
    fs_do (meta_write (env_fs E) slot m)))))"

definition ca_provision :: "('fs, 'k, 'r) ca_env \<Rightarrow> byte \<Rightarrow> (('fs, 'r) ca_state, unit) act" where
  "ca_provision E key_type S =
    (let key_type = (if key_type = 0 then KEY_TYPE_P256 else key_type) in
     if key_type \<noteq> KEY_TYPE_P256 then (Inl ENOTSUP, S)
     else case storage_slot_key_exists (env_fs E) CA_SLOT (ca_fs S) of
       Inl e \<Rightarrow> (Inl e, S)
     | Inr True \<Rightarrow> (Inl EEXIST, S)
     | Inr False \<Rightarrow>
         if \<not> storage_volume_may_mint (env_fs E) (ca_vol S) then (Inl EPERM, S)
         else act_then (mint_key E CA_SLOT (new_slot_meta key_type 1 1)) (\<lambda>_ S. (Inr (), S\<lparr>provisioned := True\<rparr>)) S)"

definition ca_ready :: "('fs, 'k, 'r) ca_env \<Rightarrow> ('fs, 'r) ca_state \<Rightarrow> bool" where
  "ca_ready E S \<longleftrightarrow> provisioned S \<and> is_1 (storage_slot_cert_exists (env_fs E) CA_SLOT (ca_fs S))"

subsection \<open>Slots\<close>

text \<open>
  Whether a slot is protected, as the operations ask it: an unreadable metadata blob
  counts as not protected.
\<close>

definition slot_protected :: "'fs fs_api \<Rightarrow> nat \<Rightarrow> 'fs \<Rightarrow> bool" where
  "slot_protected F slot s = (case meta_read F slot s of Inr m \<Rightarrow> sm_is_protected m \<noteq> 0 | Inl _ \<Rightarrow> False)"

definition ca_push_key_x509 :: "('fs, 'k, 'r) ca_env \<Rightarrow> nat \<Rightarrow> byte list \<Rightarrow> (('fs, 'r) ca_state, unit) act" where
  "ca_push_key_x509 E slot data S =
    (if data = [] \<or> length data > X509_DATA_MAX then (Inl EINVAL, S)
     else
       let guard = (if slot_protected (env_fs E) slot (ca_fs S)
             then case storage_slot_cert_exists (env_fs E) slot (ca_fs S) of
                 Inl e \<Rightarrow> Some e | Inr True \<Rightarrow> Some EACCES | Inr False \<Rightarrow> None
             else None)
       in case guard of
            Some e \<Rightarrow> (Inl e, S)
          | None \<Rightarrow>
              (case x509_parse data of
                 Inl e \<Rightarrow> (Inl e, S)
               | Inr p \<Rightarrow>
                   act_then (fs_do (storage_slot_x509_write (env_fs E) slot data)) (\<lambda>_.
                   act_then (build_self_signed_cert E slot p) (\<lambda>_.
                   fs_try (storage_slot_chain_delete (env_fs E) slot))) S))"

fun first_free :: "'fs fs_api \<Rightarrow> 'fs \<Rightarrow> nat list \<Rightarrow> nat res" where
  "first_free F s [] = Inl ENOSPC"
| "first_free F s (i # is) =
    (case storage_slot_key_exists F i s of
       Inl e \<Rightarrow> Inl e
     | Inr ex \<Rightarrow> if ex then first_free F s is else Inr i)"

definition ca_gen_key :: "('fs, 'k, 'r) ca_env \<Rightarrow> byte \<Rightarrow> (('fs, 'r) ca_state, nat) act" where
  "ca_gen_key E key_type S =
    (let key_type = (if key_type = 0 then KEY_TYPE_P256 else key_type) in
     if key_type \<noteq> KEY_TYPE_P256 then (Inl ENOTSUP, S)
     else if \<not> storage_volume_may_mint (env_fs E) (ca_vol S) then (Inl EPERM, S)
     else case first_free (env_fs E) (ca_fs S) [1..<max_key_slots E] of
       Inl e \<Rightarrow> (Inl e, S)
     | Inr slot \<Rightarrow> act_then (mint_key E slot (new_slot_meta KEY_TYPE_P256 0 0)) (\<lambda>_. gives slot) S)"

text \<open>\<open>None\<close> when \<open>rm_rf\<close> does not return.\<close>

definition ca_delete_key :: "('fs, 'k, 'r) ca_env \<Rightarrow> nat \<Rightarrow> 'fs \<Rightarrow> (errno option \<times> 'fs) option" where
  "ca_delete_key E slot s =
    (if slot = CA_SLOT then Some (Some EPERM, s)
     else if slot \<ge> max_key_slots E then Some (Some EINVAL, s)
     else if \<not> is_1 (storage_slot_key_exists (env_fs E) slot s) then Some (Some ENOENT, s)
     else if slot_protected (env_fs E) slot s then Some (Some EACCES, s)
     else storage_slot_delete (env_fs E) slot s)"

definition ca_protect_slot :: "('fs, 'k, 'r) ca_env \<Rightarrow> nat \<Rightarrow> bool \<Rightarrow> 'fs \<Rightarrow> errno option \<times> 'fs" where
  "ca_protect_slot E slot protect_issued s =
    (if slot \<ge> max_key_slots E then (Some EINVAL, s)
     else if \<not> is_1 (storage_slot_key_exists (env_fs E) slot s) then (Some ENOENT, s)
     else case meta_read (env_fs E) slot s of
       Inl e \<Rightarrow> (Some e, s)
     | Inr m \<Rightarrow>
         (case meta_write (env_fs E) slot (m\<lparr>sm_is_protected := 1, sm_protect_issued := if protect_issued then 1 else 0\<rparr>) s of
            (Some e, s) \<Rightarrow> (Some e, s)
          | (None, s) \<Rightarrow> if protect_issued then protect_issued_certs (env_fs E) (word_of_nat slot) s else (None, s)))"

definition ca_unprotect_slot :: "('fs, 'k, 'r) ca_env \<Rightarrow> nat \<Rightarrow> 'fs \<Rightarrow> errno option \<times> 'fs" where
  "ca_unprotect_slot E slot s =
    (if slot \<ge> max_key_slots E then (Some EINVAL, s)
     else if \<not> is_1 (storage_slot_key_exists (env_fs E) slot s) then (Some ENOENT, s)
     else case meta_read (env_fs E) slot s of
       Inl e \<Rightarrow> (Some e, s)
     | Inr m \<Rightarrow> meta_write (env_fs E) slot (m\<lparr>sm_is_protected := 0, sm_protect_issued := 0\<rparr>) s)"

definition ca_gen_key_csr :: "('fs, 'k, 'r) ca_env \<Rightarrow> nat \<Rightarrow> byte list \<Rightarrow> (('fs, 'r) ca_state, unit) act" where
  "ca_gen_key_csr E slot subject_dn S =
    (if subject_dn = [] then (Inl EINVAL, S)
     else if slot \<ge> max_key_slots E then (Inl EINVAL, S)
     else if \<not> is_1 (storage_slot_key_exists (env_fs E) slot (ca_fs S)) then (Inl ENOENT, S)
     else
       act_then (fs_get (load_privkey_32 E slot)) (\<lambda>privkey.
       act_then (fs_get (\<lambda>_. rfc4514_to_dn subject_dn)) (\<lambda>dn.
       act_then (rng_do (certgen_build_csr (env_gen E) \<lparr>k_priv = Some privkey, k_pub = None\<rparr> dn 0 None CERT_DER_MAX)) (\<lambda>csr.
       fs_do (storage_slot_csr_write (env_fs E) slot csr)))) S)"

definition ca_get_key_csr :: "'fs fs_api \<Rightarrow> nat \<Rightarrow> nat \<Rightarrow> 'fs \<Rightarrow> byte list res" where
  "ca_get_key_csr F slot cap s = storage_slot_csr_read F slot cap s"

text \<open>The certificate and its chain, or no chain, as \<open>ca_push_cert\<close> and \<open>ca_push_key_cert\<close> install them.\<close>

definition install_cert :: "'fs fs_api \<Rightarrow> nat \<Rightarrow> byte list \<Rightarrow> byte list \<Rightarrow> 'fs \<Rightarrow> errno option \<times> 'fs" where
  "install_cert F slot cert_der chain_der s =
    (case storage_slot_cert_write F slot cert_der s of
       (Some e, s) \<Rightarrow> (Some e, s)
     | (None, s) \<Rightarrow>
         if length chain_der > 0 then storage_slot_chain_write F slot chain_der s
         else (None, snd (storage_slot_chain_delete F slot s)))"

definition ca_push_cert :: "'fs fs_api \<Rightarrow> byte list \<Rightarrow> byte list \<Rightarrow> 'fs \<Rightarrow> errno option \<times> 'fs" where
  "ca_push_cert F cert_der chain_der s = install_cert F CA_SLOT cert_der chain_der s"

definition ca_push_key_cert :: "('fs, 'k, 'r) ca_env \<Rightarrow> nat \<Rightarrow> byte list \<Rightarrow> byte list \<Rightarrow> 'fs \<Rightarrow> errno option \<times> 'fs" where
  "ca_push_key_cert E slot cert_der chain_der s =
    (if cert_der = [] then (Some EINVAL, s)
     else if slot \<ge> max_key_slots E then (Some EINVAL, s)
     else if \<not> is_1 (storage_slot_key_exists (env_fs E) slot s) then (Some ENOENT, s)
     else if slot_protected (env_fs E) slot s \<and> is_1 (storage_slot_cert_exists (env_fs E) slot s) then (Some EACCES, s)
     else case certparse_cert (env_asn E) cert_der of
       Inl _ \<Rightarrow> (Some EINVAL, s)
     | Inr parsed \<Rightarrow>
    (case cp_pubkey parsed of
       None \<Rightarrow> (Some EINVAL, s)
     | Some pubkey \<Rightarrow>
    (case derive_slot_pubkey E slot s of
       Inl e \<Rightarrow> (Some e, s)
     | Inr slot_pub \<Rightarrow>
         if pubkey \<noteq> slot_pub then (Some EINVAL, s) else install_cert (env_fs E) slot cert_der chain_der s)))"

subsection \<open>Issuing\<close>

definition pad_to :: "nat \<Rightarrow> byte list \<Rightarrow> byte list" where
  "pad_to n bs = bs @ replicate (n - length bs) 0"

definition new_issued_meta :: "nat \<Rightarrow> byte list \<Rightarrow> byte list \<Rightarrow> issued_cert_meta" where
  "new_issued_meta issuer_slot serial cn =
    \<lparr>im_version = 1, im_flags = 0, im_serial_len = word_of_nat (length serial), im_revocation_reason = 0,
     im_issuer_slot = word_of_nat issuer_slot, im_not_before_unix = SIGN_CSR_NOT_BEFORE_UNIX,
     im_not_after_unix = SIGN_CSR_NOT_BEFORE_UNIX + ucast SIGN_CSR_VALIDITY_DAYS * 86400,
     im_serial = pad_to 20 serial, im_cn = pad_to 64 (take 63 (cstr cn)), im_revoked_at_unix = 0\<rparr>"

text \<open>Storing a certificate that was just signed, and its record.\<close>

definition register_cert :: "'fs fs_api \<Rightarrow> nat \<Rightarrow> byte list \<Rightarrow> byte list \<Rightarrow> byte list \<Rightarrow> (('fs, 'r) ca_state, unit) act" where
  "register_cert F issuer_slot serial cn der =
    act_then (fs_do (storage_issued_cert_write F serial der)) (\<lambda>_.
    fs_do (storage_issued_meta_write F serial (meta_bytes (new_issued_meta issuer_slot serial cn))))"

text \<open>
  The certificate for a request, with its serial and the common name of its subject, as
  \<open>ca_sign_csr_slot\<close> has them when it copies the certificate to the caller's buffer; it
  registers the certificate afterwards.
\<close>

definition sign_csr_der :: "('fs, 'k, 'r) ca_env \<Rightarrow> nat \<Rightarrow> byte list \<Rightarrow> nat
    \<Rightarrow> (('fs, 'r) ca_state, byte list \<times> byte list \<times> byte list) act" where
  "sign_csr_der E issuer_slot csr_der cap S =
    (if csr_der = [] \<or> cap = 0 then (Inl EINVAL, S)
     else if issuer_slot \<ge> max_key_slots E then (Inl EINVAL, S)
     else if \<not> is_1 (storage_slot_key_exists (env_fs E) issuer_slot (ca_fs S)) then (Inl ENOENT, S)
     else if issuer_slot = CA_SLOT \<and> \<not> ca_ready E S then (Inl ENOENT, S)
     else
       act_then (fs_get (\<lambda>_. certparse_csr (env_asn E) csr_der)) (\<lambda>(subject_dn, subject_pub).
       act_then (fs_get (load_issuer_x509_params (env_fs E) issuer_slot)) (\<lambda>ca_params.
       act_then (fs_get (load_privkey_32 E issuer_slot)) (\<lambda>privkey.
       act_then (rng_do (gen_serial (env_wc E))) (\<lambda>serial.
         let cp = \<lparr>p_serial = serial, p_not_before = NOT_BEFORE_BASE, p_not_after = compute_not_after SIGN_CSR_VALIDITY_DAYS,
               p_emit_bc = True, p_is_ca = False, p_path_len = -1, p_key_usage = KU_DIGITAL_SIGNATURE, p_ext = None\<rparr>
         in act_then (rng_do (certgen_build_cert (env_gen E) \<lparr>k_priv = None, k_pub = Some subject_pub\<rparr>
               \<lparr>k_priv = Some privkey, k_pub = None\<rparr> subject_dn (params_to_dn ca_params) cp CERT_DER_MAX)) (\<lambda>der.
            if length der > cap then fails ENOMEM else gives (serial, dn_cn subject_dn, der)))))) S)"

definition ca_sign_csr_slot :: "('fs, 'k, 'r) ca_env \<Rightarrow> nat \<Rightarrow> byte list \<Rightarrow> nat \<Rightarrow> (('fs, 'r) ca_state, byte list) act" where
  "ca_sign_csr_slot E issuer_slot csr_der cap =
    act_then (sign_csr_der E issuer_slot csr_der cap) (\<lambda>(serial, cn, der).
    act_then (register_cert (env_fs E) issuer_slot serial cn der) (\<lambda>_. gives der))"

definition ca_sign_csr :: "('fs, 'k, 'r) ca_env \<Rightarrow> byte list \<Rightarrow> nat \<Rightarrow> (('fs, 'r) ca_state, byte list) act" where
  "ca_sign_csr E csr_der cap = ca_sign_csr_slot E CA_SLOT csr_der cap"

definition ca_sign_session_cert :: "('fs, 'k, 'r) ca_env \<Rightarrow> nat \<Rightarrow> byte list \<Rightarrow> byte list option \<Rightarrow> byte list \<Rightarrow> byte list
    \<Rightarrow> nat \<Rightarrow> (('fs, 'r) ca_state, byte list) act" where
  "ca_sign_session_cert E issuer_slot x509_blob cn_override id_priv x25519_pub cap S =
    (if cap = 0 then (Inl EINVAL, S)
     else if issuer_slot \<ge> max_key_slots E then (Inl EINVAL, S)
     else if \<not> is_1 (storage_slot_key_exists (env_fs E) issuer_slot (ca_fs S)) then (Inl ENOENT, S)
     else if issuer_slot = CA_SLOT \<and> \<not> ca_ready E S then (Inl ENOENT, S)
     else
       act_then (fs_get (\<lambda>_. session_params x509_blob cn_override)) (\<lambda>p.
       act_then (fs_get (load_issuer_x509_params (env_fs E) issuer_slot)) (\<lambda>ca_params.
       act_then (fs_get (load_privkey_32 E issuer_slot)) (\<lambda>ca_priv.
       act_then (rng_do (gen_serial (env_wc E))) (\<lambda>serial.
         let cp = \<lparr>p_serial = serial, p_not_before = NOT_BEFORE_BASE, p_not_after = compute_not_after (xp_validity_days p),
               p_emit_bc = True, p_is_ca = False, p_path_len = -1, p_key_usage = xp_key_usage p,
               p_ext = Some (OID_SESSION_X25519, x25519_pub)\<rparr>
         in rng_do (certgen_build_cert (env_gen E) \<lparr>k_priv = Some id_priv, k_pub = None\<rparr>
              \<lparr>k_priv = Some ca_priv, k_pub = None\<rparr> (params_to_dn p) (params_to_dn ca_params) cp cap))))) S)"

definition ca_sign_key_slot :: "('fs, 'k, 'r) ca_env \<Rightarrow> nat \<Rightarrow> nat \<Rightarrow> (('fs, 'r) ca_state, unit) act" where
  "ca_sign_key_slot E issuer_slot subject_slot S =
    (if issuer_slot \<ge> max_key_slots E \<or> subject_slot \<ge> max_key_slots E then (Inl EINVAL, S)
     else if \<not> is_1 (storage_slot_key_exists (env_fs E) issuer_slot (ca_fs S)) then (Inl ENOENT, S)
     else if \<not> is_1 (storage_slot_key_exists (env_fs E) subject_slot (ca_fs S)) then (Inl ENOENT, S)
     else case (load_issuer_x509_params (env_fs E) issuer_slot (ca_fs S), load_issuer_x509_params (env_fs E) subject_slot (ca_fs S)) of
       (Inr issuer_params, Inr subject_params) \<Rightarrow>
         act_then (fs_get (derive_slot_pubkey E subject_slot)) (\<lambda>subject_pub.
         act_then (fs_get (load_privkey_32 E issuer_slot)) (\<lambda>issuer_priv.
         act_then (rng_do (gen_serial (env_wc E))) (\<lambda>serial.
           let is_ca = xp_is_ca subject_params \<noteq> 0;
               ku = (if is_ca then xp_key_usage subject_params OR (KU_KEY_CERT_SIGN OR KU_CRL_SIGN) else xp_key_usage subject_params);
               ku = (if ku = 0 then KU_DIGITAL_SIGNATURE else ku);
               cp = \<lparr>p_serial = serial, p_not_before = NOT_BEFORE_BASE, p_not_after = compute_not_after SIGN_CSR_VALIDITY_DAYS,
                 p_emit_bc = True, p_is_ca = is_ca, p_path_len = path_len_of subject_params, p_key_usage = ku, p_ext = None\<rparr>
           in act_then (rng_do (certgen_build_cert (env_gen E) \<lparr>k_priv = None, k_pub = Some subject_pub\<rparr>
                 \<lparr>k_priv = Some issuer_priv, k_pub = None\<rparr> (params_to_dn subject_params) (params_to_dn issuer_params) cp CERT_DER_MAX)) (\<lambda>der.
              act_then (fs_do (storage_slot_cert_write (env_fs E) subject_slot der)) (\<lambda>_.
              act_then (fs_try (storage_slot_chain_delete (env_fs E) subject_slot)) (\<lambda>_.
              register_cert (env_fs E) issuer_slot serial (xp_cn subject_params) der)))))) S
     | _ \<Rightarrow> (Inl ENOENT, S))"

subsection \<open>Checking certificates from outside\<close>

text \<open>The split of a chain blob; \<open>n\<close> is the number of parts that still fit.\<close>

fun split_chain :: "nat \<Rightarrow> nat \<Rightarrow> byte list \<Rightarrow> byte list list res" where
  "split_chain S 0 chain = (if length chain \<le> 1 then Inr [] else Inl EINVAL)"
| "split_chain S (Suc n) chain =
    (if length chain \<le> 1 then Inr []
     else case der_tlv_len S chain ASN1_SEQ of
       Inl _ \<Rightarrow> Inl EINVAL
     | Inr this_len \<Rightarrow> ok_then (split_chain S n (drop this_len chain)) (\<lambda>parts. Inr (take this_len chain # parts)))"

text \<open>The result on success is \<open>*out_ca_signed\<close>.\<close>

definition ca_validate_pushed_session_cert :: "('fs, 'k, 'r) ca_env \<Rightarrow> byte list \<Rightarrow> byte list \<Rightarrow> byte list \<Rightarrow> byte list
    \<Rightarrow> byte list \<Rightarrow> bool res" where
  "ca_validate_pushed_session_cert E cert_der chain_der id_pub x25519_pub x509_blob =
    (if cert_der = [] then Inl EINVAL
     else case certparse_cert (env_asn E) cert_der of
       Inl _ \<Rightarrow> Inl EINVAL
     | Inr leaf \<Rightarrow>
         if cp_pubkey leaf \<noteq> Some id_pub then Inl EINVAL
         else if cp_x25519 leaf \<noteq> Some x25519_pub then Inl EINVAL
         else if \<not> is_1 (ca_session_cert_matches_constant (env_asn E) cert_der x509_blob) then Inl EINVAL
         else if cp_self_signed leaf then Inr False
         else if chain_der = [] then Inl EINVAL
         else ok_then (split_chain (sizeof_size_t E) CERTPARSE_MAX_CHAIN chain_der) (\<lambda>parts.
           if parts = [] then Inl EINVAL
           else if certparse_verify_chain (env_asn E) cert_der (butlast parts) (last parts) \<noteq> None then Inl EINVAL
           else Inr True))"

definition ca_validate_client_cert_chain :: "('fs, 'k, 'r) ca_env \<Rightarrow> byte list list \<Rightarrow> nat \<Rightarrow> 'fs \<Rightarrow> errno option" where
  "ca_validate_client_cert_chain E cert_ders anchor_slot s =
    (if cert_ders = [] then Some EINVAL
     else case storage_slot_cert_read (env_fs E) anchor_slot 1024 s of
       Inl e \<Rightarrow> Some (if e = ENOENT then ENOENT else EIO)
     | Inr anchor \<Rightarrow>
         if length cert_ders - 1 > CERTPARSE_MAX_CHAIN then Some EINVAL
         else if certparse_verify_chain (env_asn E) (hd cert_ders) (tl cert_ders) anchor \<noteq> None then Some EINVAL
         else None)"

subsection \<open>Reading\<close>

definition ca_get_cert :: "'fs fs_api \<Rightarrow> nat \<Rightarrow> 'fs \<Rightarrow> byte list res" where
  "ca_get_cert F cap s = storage_slot_cert_read F CA_SLOT cap s"

definition ca_get_csr :: "'fs fs_api \<Rightarrow> nat \<Rightarrow> 'fs \<Rightarrow> byte list res" where
  "ca_get_csr F cap s = storage_slot_csr_read F CA_SLOT cap s"

text \<open>
  \<open>fuel\<close> is \<open>CONFIG_CANTIL_MAX_KEY_SLOTS - depth\<close>, and \<open>out\<close> what was appended so far.
\<close>

fun chain_walk :: "('fs, 'k, 'r) ca_env \<Rightarrow> nat \<Rightarrow> nat \<Rightarrow> byte list \<Rightarrow> nat \<Rightarrow> 'fs \<Rightarrow> byte list res" where
  "chain_walk E cap slot out 0 s = Inl ELOOP"
| "chain_walk E cap slot out (Suc fuel) s =
    (if slot \<ge> max_key_slots E then Inl EINVAL
     else if \<not> is_1 (storage_slot_cert_exists (env_fs E) slot s) then Inl ENOENT
     else ok_then (storage_slot_cert_read (env_fs E) slot (cap - length out) s) (\<lambda>cert.
       let out = out @ cert in
       if is_1 (storage_slot_chain_exists (env_fs E) slot s) then
         ok_then (storage_slot_chain_read (env_fs E) slot (cap - length out) s) (\<lambda>chain. Inr (out @ chain))
       else case certparse_cert (env_asn E) cert of
         Inl _ \<Rightarrow> Inl EIO
       | Inr parsed \<Rightarrow>
           let issuer = (case read_issued_meta (env_fs E) (cp_serial parsed) s of
                 Inr m \<Rightarrow> unat (im_issuer_slot m) | Inl _ \<Rightarrow> slot)
           in if issuer = slot then Inr out else chain_walk E cap issuer out fuel s))"

definition ca_get_chain_slot :: "('fs, 'k, 'r) ca_env \<Rightarrow> nat \<Rightarrow> nat \<Rightarrow> 'fs \<Rightarrow> byte list res" where
  "ca_get_chain_slot E slot cap s = (if cap = 0 then Inl EINVAL else chain_walk E cap slot [] (max_key_slots E) s)"

definition ca_get_chain :: "('fs, 'k, 'r) ca_env \<Rightarrow> nat \<Rightarrow> 'fs \<Rightarrow> byte list res" where
  "ca_get_chain E cap s = ca_get_chain_slot E CA_SLOT cap s"

definition ca_get_serial :: "('fs, 'k, 'r) ca_env \<Rightarrow> nat \<Rightarrow> 'fs \<Rightarrow> byte list res" where
  "ca_get_serial E cap s =
    (if cap = 0 then Inl EINVAL
     else ok_then (storage_slot_cert_read (env_fs E) CA_SLOT CERT_DER_MAX s) (\<lambda>cert.
       case certparse_cert (env_asn E) cert of
         Inl _ \<Rightarrow> Inl EIO
       | Inr parsed \<Rightarrow> if length (cp_serial parsed) > cap then Inl ENOMEM else Inr (cp_serial parsed)))"

definition emit_key_entry :: "nat \<Rightarrow> byte list \<Rightarrow> bool \<Rightarrow> nat \<Rightarrow> bool \<Rightarrow> nat \<Rightarrow> byte \<Rightarrow> byte list res" where
  "emit_key_entry cap out has_cert protect_bits has_csr slot key_type =
    ok_then (emit_map cap out 5) (\<lambda>out.
    ok_then (emit_tstr cap out (str_bytes ''c'')) (\<lambda>out.
    ok_then (emit_uint cap out (if has_cert then 1 else 0)) (\<lambda>out.
    ok_then (emit_tstr cap out (str_bytes ''p'')) (\<lambda>out.
    ok_then (emit_uint cap out protect_bits) (\<lambda>out.
    ok_then (emit_tstr cap out (str_bytes ''r'')) (\<lambda>out.
    ok_then (emit_uint cap out (if has_csr then 1 else 0)) (\<lambda>out.
    ok_then (emit_tstr cap out (str_bytes ''s'')) (\<lambda>out.
    ok_then (emit_uint cap out slot) (\<lambda>out.
    ok_then (emit_tstr cap out (str_bytes ''t'')) (\<lambda>out.
    emit_uint cap out (unat key_type)))))))))))"

definition slot_summary :: "'fs fs_api \<Rightarrow> nat \<Rightarrow> 'fs \<Rightarrow> byte \<times> nat" where
  "slot_summary F slot s =
    (case storage_slot_meta_read F slot 64 s of
       Inl _ \<Rightarrow> (0, 0)
     | Inr b \<Rightarrow> if length b \<ge> 24 \<and> b ! 0 = 1
         then (b ! 1, (if b ! 2 \<noteq> 0 then 1 else 0) + (if b ! 3 \<noteq> 0 then 2 else 0)) else (0, 0))"

fun emit_keys :: "'fs fs_api \<Rightarrow> nat \<Rightarrow> 'fs \<Rightarrow> nat list \<Rightarrow> nat \<Rightarrow> byte list \<Rightarrow> (nat \<times> byte list) res" where
  "emit_keys F cap s [] emitted out = Inr (emitted, out)"
| "emit_keys F cap s (slot # slots) emitted out =
    (if \<not> is_1 (storage_slot_key_exists F slot s) then emit_keys F cap s slots emitted out
     else case slot_summary F slot s of (key_type, protect_bits) \<Rightarrow>
       (case emit_key_entry cap out (is_1 (storage_slot_cert_exists F slot s)) protect_bits
            (is_1 (storage_slot_csr_exists F slot s)) slot key_type of
          Inl _ \<Rightarrow> Inl ENOMEM
        | Inr out \<Rightarrow> emit_keys F cap s slots (emitted + 1) out))"

definition ca_list_keys :: "('fs, 'k, 'r) ca_env \<Rightarrow> nat \<Rightarrow> 'fs \<Rightarrow> byte list res" where
  "ca_list_keys E cap s =
    (if cap < 16 then Inl EINVAL
     else
       let count = storage_count_slots_used (env_fs E) (max_key_slots E) s in
       case emit_array cap [] (word_of_nat count) of
         Inl _ \<Rightarrow> Inl ENOMEM
       | Inr out \<Rightarrow>
           ok_then (emit_keys (env_fs E) cap s [0..<max_key_slots E] 0 out) (\<lambda>(emitted, out).
             if emitted \<noteq> count then Inl EIO else Inr out))"

subsection \<open>The CRL\<close>

definition build_crl_der :: "('fs, 'k, 'r) ca_env \<Rightarrow> nat \<Rightarrow> 64 word \<Rightarrow> nat \<Rightarrow> 'fs \<Rightarrow> byte list res" where
  "build_crl_der E issuer_slot now_unix out_cap s =
    ok_then (crl_collect (env_fs E) (word_of_nat issuer_slot) now_unix s) (\<lambda>ctx.
    let n = (case storage_slot_crl_number_read (env_fs E) issuer_slot s of Inr n \<Rightarrow> n | Inl _ \<Rightarrow> 0);
        crl_number = (if n = 0 then 1 else n) in
    ok_then (storage_slot_cert_read (env_fs E) issuer_slot CERT_DER_MAX s) (\<lambda>issuer_cert.
    case certparse_cert (env_asn E) issuer_cert of
      Inl _ \<Rightarrow> Inl EIO
    | Inr issuer \<Rightarrow>
        if cp_subject_der issuer = [] then Inl EIO
        else case write_tbs_cert_list CERT_DER_MAX (cp_subject_der issuer) (unat now_unix)
               (unat (now_unix + crl_validity_sec E)) (cc_entries ctx) crl_number of
          Inl e \<Rightarrow> Inl (if e = DER_BUF_TOO_SMALL then ENOMEM else EIO)
        | Inr (tbs_len, (_, tbs)) \<Rightarrow>
            (case crypto_sha256 (env_wc E) tbs of
               Inl _ \<Rightarrow> Inl EIO
             | Inr hash \<Rightarrow>
                 ok_then (load_privkey_32 E issuer_slot s) (\<lambda>privkey.
                 case crypto_sign (env_wc E) privkey hash 64 of
                   Inl _ \<Rightarrow> Inl EIO
                 | Inr raw_sig \<Rightarrow> if length raw_sig \<noteq> 64 then Inl EIO else assemble_crl out_cap tbs raw_sig))))"

definition ca_get_crl :: "('fs, 'k, 'r) ca_env \<Rightarrow> nat \<Rightarrow> 64 word \<Rightarrow> nat \<Rightarrow> 'fs \<Rightarrow> byte list res" where
  "ca_get_crl E issuer_slot now_unix cap s =
    (if cap = 0 then Inl EINVAL
     else if issuer_slot \<ge> max_key_slots E then Inl EINVAL
     else if now_unix = 0 then Inl EINVAL
     else if \<not> is_1 (storage_slot_key_exists (env_fs E) issuer_slot s) then Inl ENOENT
     else if \<not> is_1 (storage_slot_cert_exists (env_fs E) issuer_slot s) then Inl ENOENT
     else build_crl_der E issuer_slot now_unix cap s)"

end
