(* ===== verification/Client_Bond.thy ===== *)
theory Client_Bond
  imports Ca
begin

text \<open>
  The table of bonded clients, \<open>firmware/src/clients/client_bond.c\<close>, over the files that
  \<open>Storage\<close> keeps per client.

  A bond is identified by the first four bytes of the client's public key.  The two
  timestamps of \<open>client_meta_t\<close> are stored big-endian, so the record holds the numbers and
  \<open>client_meta_bytes\<close> the bytes.  \<open>None\<close> as the outermost result of an operation is a
  recursive removal that does not return.
\<close>

datatype client_kind = CLIENT_KIND_HOST | CLIENT_KIND_PEER_DEVICE

definition CLIENT_META_VERSION :: byte where "CLIENT_META_VERSION = 1"
definition CLIENT_META_NAME_MAX :: nat where "CLIENT_META_NAME_MAX = 32"
definition CLIENT_META_SIZE :: nat where "CLIENT_META_SIZE = 44"

fun kind_byte :: "client_kind \<Rightarrow> byte" where
  "kind_byte CLIENT_KIND_HOST = 0"
| "kind_byte CLIENT_KIND_PEER_DEVICE = 1"

record client_meta =
  cm_version :: byte
  cm_kind :: byte
  cm_pad :: "byte list"
  cm_created_at :: "32 word"
  cm_last_seen :: "32 word"
  cm_friendly_name :: "byte list"

definition client_meta_bytes :: "client_meta \<Rightarrow> byte list" where
  "client_meta_bytes m = [cm_version m, cm_kind m] @ cm_pad m @ be_bytes 4 (unat (cm_created_at m))
    @ be_bytes 4 (unat (cm_last_seen m)) @ cm_friendly_name m"

definition client_meta_of_bytes :: "byte list \<Rightarrow> client_meta" where
  "client_meta_of_bytes b =
    \<lparr>cm_version = b ! 0, cm_kind = b ! 1, cm_pad = take 2 (drop 2 b),
     cm_created_at = word_of_nat (be_nat (take 4 (drop 4 b))), cm_last_seen = word_of_nat (be_nat (take 4 (drop 8 b))),
     cm_friendly_name = take 32 (drop 12 b)\<rparr>"

text \<open>The limits \<open>CONFIG_CANTIL_MAX_CLIENT_BONDS\<close> and \<open>CONFIG_CANTIL_MAX_PEER_BONDS\<close>.\<close>

record bond_caps =
  max_client_bonds :: nat
  max_peer_bonds :: nat

definition client_bond_id :: "byte list \<Rightarrow> byte list" where
  "client_bond_id pub = take 4 pub"

definition id_matches_pub :: "'fs fs_api \<Rightarrow> byte list \<Rightarrow> byte list \<Rightarrow> 'fs \<Rightarrow> bool res" where
  "id_matches_pub F i pub s = ok_then (storage_client_bond_pubkey_read F i s) (\<lambda>stored. Inr (stored = pub))"

definition client_bond_exists :: "'fs fs_api \<Rightarrow> byte list \<Rightarrow> 'fs \<Rightarrow> bool res" where
  "client_bond_exists F pub s =
    (if \<not> is_1 (storage_client_bond_exists F (client_bond_id pub) s) then Inr False
     else id_matches_pub F (client_bond_id pub) pub s)"

definition client_bond_meta_read :: "'fs fs_api \<Rightarrow> byte list \<Rightarrow> 'fs \<Rightarrow> client_meta res" where
  "client_bond_meta_read F pub s =
    ok_then (id_matches_pub F (client_bond_id pub) pub s) (\<lambda>matches.
      if \<not> matches then Inl ENOENT
      else ok_then (storage_client_bond_meta_read F (client_bond_id pub) CLIENT_META_SIZE s) (\<lambda>buf.
        if length buf \<noteq> CLIENT_META_SIZE then Inl EINVAL else Inr (client_meta_of_bytes buf)))"

record count_ctx =
  cnt_host :: nat
  cnt_peer :: nat

definition count_cb :: "'fs fs_api \<Rightarrow> byte list \<Rightarrow> count_ctx \<Rightarrow> 'fs \<Rightarrow> iter_rc option \<times> count_ctx \<times> 'fs" where
  "count_cb F i ctx s =
    (case storage_client_bond_meta_read F i CLIENT_META_SIZE s of
       Inl _ \<Rightarrow> (None, ctx, s)
     | Inr buf \<Rightarrow>
         if length buf < 2 then (None, ctx, s)
         else if buf ! 1 = kind_byte CLIENT_KIND_HOST then (None, ctx\<lparr>cnt_host := cnt_host ctx + 1\<rparr>, s)
         else if buf ! 1 = kind_byte CLIENT_KIND_PEER_DEVICE then (None, ctx\<lparr>cnt_peer := cnt_peer ctx + 1\<rparr>, s)
         else (None, ctx, s))"

text \<open>The number of hosts and of peer devices.  The callback never asks to stop.\<close>

definition client_bond_count :: "'fs fs_api \<Rightarrow> 'fs \<Rightarrow> (nat \<times> nat) res" where
  "client_bond_count F s =
    (case storage_client_bonds_iter F (count_cb F) \<lparr>cnt_host = 0, cnt_peer = 0\<rparr> s of
       (Some (IterErr e), _, _) \<Rightarrow> Inl e
     | (_, ctx, _) \<Rightarrow> Inr (cnt_host ctx, cnt_peer ctx))"

definition new_client_meta :: "client_kind \<Rightarrow> 32 word \<Rightarrow> client_meta" where
  "new_client_meta kind now =
    \<lparr>cm_version = CLIENT_META_VERSION, cm_kind = kind_byte kind, cm_pad = [0, 0], cm_created_at = now, cm_last_seen = now,
     cm_friendly_name = replicate CLIENT_META_NAME_MAX 0\<rparr>"

definition client_bond_add :: "'fs fs_api \<Rightarrow> bond_caps \<Rightarrow> byte list \<Rightarrow> client_kind \<Rightarrow> 32 word \<Rightarrow> 'fs vol
    \<Rightarrow> (errno option \<times> 'fs vol) option" where
  "client_bond_add F C pub kind now_unix v =
    (let i = client_bond_id pub; s = vfs v in
     if \<not> storage_volume_may_mint F v then Some (Some EROFS, v)
     else if is_1 (storage_client_bond_exists F i s) then
       (case id_matches_pub F i pub s of
          Inl e \<Rightarrow> Some (Some e, v)
        | Inr matches \<Rightarrow> Some (Some (if matches then EEXIST else EADDRINUSE), v))
     else case client_bond_count F s of
       Inl e \<Rightarrow> Some (Some e, v)
     | Inr (host_count, peer_count) \<Rightarrow>
         if kind = CLIENT_KIND_HOST \<and> host_count \<ge> max_client_bonds C then Some (Some ENOSPC, v)
         else if kind = CLIENT_KIND_PEER_DEVICE \<and> peer_count \<ge> max_peer_bonds C then Some (Some ENOSPC, v)
         else case storage_client_bond_pubkey_write F i pub s of
           (Some e, s) \<Rightarrow> Some (Some e, v\<lparr>vfs := s\<rparr>)
         | (None, s) \<Rightarrow>
             (case storage_client_bond_meta_write F i (client_meta_bytes (new_client_meta kind now_unix)) s of
                (None, s) \<Rightarrow> Some (None, v\<lparr>vfs := s\<rparr>)
              | (Some e, s) \<Rightarrow>
                  Option.bind (storage_client_bond_delete F i s) (\<lambda>(_, s). Some (Some e, v\<lparr>vfs := s\<rparr>))))"

definition client_bond_remove :: "'fs fs_api \<Rightarrow> byte list \<Rightarrow> 'fs \<Rightarrow> (errno option \<times> 'fs) option" where
  "client_bond_remove F pub s =
    (let i = client_bond_id pub;
         guard = (if is_1 (storage_client_bond_exists F i s)
           then case id_matches_pub F i pub s of
               Inl e \<Rightarrow> Some e | Inr False \<Rightarrow> Some ENOENT | Inr True \<Rightarrow> None
           else None)
     in case guard of Some e \<Rightarrow> Some (Some e, s) | None \<Rightarrow> storage_client_bond_delete F i s)"

definition client_bond_set_name :: "'fs fs_api \<Rightarrow> byte list \<Rightarrow> byte list \<Rightarrow> 'fs \<Rightarrow> errno option \<times> 'fs" where
  "client_bond_set_name F pub name s =
    (if length (cstr name) \<ge> CLIENT_META_NAME_MAX then (Some EINVAL, s)
     else case client_bond_meta_read F pub s of
       Inl e \<Rightarrow> (Some e, s)
     | Inr meta \<Rightarrow>
         storage_client_bond_meta_write F (client_bond_id pub)
           (client_meta_bytes (meta\<lparr>cm_friendly_name := pad_to CLIENT_META_NAME_MAX (cstr name)\<rparr>)) s)"

subsection \<open>Listing\<close>

record bond_list_ctx =
  bl_out :: "byte list"
  bl_count :: nat
  bl_err :: "errno option"

definition emit_bond_entry :: "nat \<Rightarrow> byte list \<Rightarrow> client_meta \<Rightarrow> byte list \<Rightarrow> byte list res" where
  "emit_bond_entry cap out meta pub =
    ok_then (emit_map cap out 4) (\<lambda>out.
    ok_then (emit_tstr cap out (str_bytes ''k'')) (\<lambda>out.
    ok_then (emit_uint cap out (unat (cm_kind meta))) (\<lambda>out.
    ok_then (emit_tstr cap out (str_bytes ''n'')) (\<lambda>out.
    ok_then (emit_uint cap out (unat (cm_created_at meta))) (\<lambda>out.
    ok_then (emit_tstr cap out (str_bytes ''p'')) (\<lambda>out.
    ok_then (emit_bstr cap out pub) (\<lambda>out.
    ok_then (emit_tstr cap out (str_bytes ''t'')) (\<lambda>out.
    emit_tstr cap out (take (CLIENT_META_NAME_MAX - 1) (cstr (cm_friendly_name meta)))))))))))"

definition bond_list_cb :: "'fs fs_api \<Rightarrow> nat \<Rightarrow> byte list \<Rightarrow> bond_list_ctx \<Rightarrow> 'fs \<Rightarrow> iter_rc option \<times> bond_list_ctx \<times> 'fs" where
  "bond_list_cb F cap i ctx s =
    (case storage_client_bond_pubkey_read F i s of
       Inl _ \<Rightarrow> (None, ctx, s)
     | Inr pub \<Rightarrow>
         let meta = (case storage_client_bond_meta_read F i CLIENT_META_SIZE s of
               Inl _ \<Rightarrow> client_meta_of_bytes (replicate CLIENT_META_SIZE 0)
             | Inr b \<Rightarrow> if length b = CLIENT_META_SIZE then client_meta_of_bytes b
                 else client_meta_of_bytes (replicate CLIENT_META_SIZE 0))
         in case emit_bond_entry cap (bl_out ctx) meta pub of
              Inl _ \<Rightarrow> (Some IterStop, ctx\<lparr>bl_err := Some ENOMEM\<rparr>, s)
            | Inr out \<Rightarrow> (None, ctx\<lparr>bl_out := out, bl_count := bl_count ctx + 1\<rparr>, s))"

definition client_bond_list_cbor :: "'fs fs_api \<Rightarrow> nat \<Rightarrow> 'fs \<Rightarrow> byte list res" where
  "client_bond_list_cbor F cap s =
    (if cap < 4 then Inl EINVAL
     else ok_then (storage_count_client_bonds F s) (\<lambda>total.
       case emit_array cap [] (word_of_nat total) of
         Inl _ \<Rightarrow> Inl ENOMEM
       | Inr out \<Rightarrow>
           (case storage_client_bonds_iter F (bond_list_cb F cap) \<lparr>bl_out = out, bl_count = 0, bl_err = None\<rparr> s of
              (rc, ctx, _) \<Rightarrow>
                (case bl_err ctx of
                   Some e \<Rightarrow> Inl e
                 | None \<Rightarrow> (case rc of Some (IterErr e) \<Rightarrow> Inl e | _ \<Rightarrow> Inr (bl_out ctx))))))"

end
