(* ===== verification/Noise.thy ===== *)
theory Noise
  imports Crypto
begin

text \<open>
  The primitives and the symmetric state of Noise: the seam
  \<open>firmware/src/session/noise_crypto_wolfssl.c\<close> and the \<open>sym_\<close> functions of
  \<open>firmware/src/session/session.c\<close>.

  wolfCrypt's curve and AEAD are the parameter \<open>N\<close>; hashing, HKDF and the entropy source are
  those of \<open>Crypto\<close>, the parameter \<open>K\<close>.  A function that would change the state and fails
  leaves no state: its callers abandon the handshake.
\<close>

unbundle bit_operations_syntax

record wolfnoise =
  wc_curve25519_make_pub :: "byte list \<Rightarrow> byte list option"
  wc_curve25519_generic :: "byte list \<Rightarrow> byte list \<Rightarrow> byte list option"
  wc_ChaCha20Poly1305_Encrypt :: "byte list \<Rightarrow> byte list \<Rightarrow> byte list \<Rightarrow> byte list \<Rightarrow> (byte list \<times> byte list) option"
  wc_ChaCha20Poly1305_Decrypt :: "byte list \<Rightarrow> byte list \<Rightarrow> byte list \<Rightarrow> byte list \<Rightarrow> byte list \<Rightarrow> gcm_result"

definition nonce_encode :: "64 word \<Rightarrow> byte list" where
  "nonce_encode n = [0, 0, 0, 0] @ le_bytes 8 (unat n)"

definition x25519_clamp :: "byte list \<Rightarrow> byte list" where
  "x25519_clamp k = k[0 := k ! 0 AND 248, 31 := (k ! 31 AND 127) OR 64]"

definition noise_crypto_dh_keygen :: "'r wolfcrypt \<Rightarrow> wolfnoise \<Rightarrow> 'r \<Rightarrow> (byte list \<times> byte list) res \<times> 'r" where
  "noise_crypto_dh_keygen K N r =
    (case entropy_get K 32 r of
       (Inl _, r) \<Rightarrow> (Inl EIO, r)
     | (Inr bs, r) \<Rightarrow>
         let priv = x25519_clamp bs in
         (case wc_curve25519_make_pub N priv of
            None \<Rightarrow> (Inl EIO, r)
          | Some pub \<Rightarrow> (Inr (priv, pub), r)))"

definition noise_crypto_dh :: "wolfnoise \<Rightarrow> byte list \<Rightarrow> byte list \<Rightarrow> byte list res" where
  "noise_crypto_dh N priv pub = eio (wc_curve25519_generic N (x25519_clamp priv) pub)"

definition noise_crypto_encrypt :: "wolfnoise \<Rightarrow> nat \<Rightarrow> byte list \<Rightarrow> 64 word \<Rightarrow> byte list \<Rightarrow> byte list \<Rightarrow> byte list res" where
  "noise_crypto_encrypt N cap key nonce ad pt =
    (if cap < length pt + 16 then Inl EINVAL
     else case wc_ChaCha20Poly1305_Encrypt N key (nonce_encode nonce) ad pt of
       None \<Rightarrow> Inl EIO
     | Some (ct, tag) \<Rightarrow> Inr (ct @ tag))"

definition noise_crypto_decrypt :: "wolfnoise \<Rightarrow> nat \<Rightarrow> byte list \<Rightarrow> 64 word \<Rightarrow> byte list \<Rightarrow> byte list \<Rightarrow> byte list res" where
  "noise_crypto_decrypt N cap key nonce ad ct =
    (if length ct < 16 then Inl EINVAL
     else let body_len = length ct - 16 in
       if cap < body_len then Inl EINVAL
       else case wc_ChaCha20Poly1305_Decrypt N key (nonce_encode nonce) ad (take body_len ct) (drop body_len ct) of
         GcmAuthFail \<Rightarrow> Inl EBADMSG
       | GcmError \<Rightarrow> Inl EIO
       | GcmOk pt \<Rightarrow> Inr pt)"

definition noise_crypto_hash :: "'r wolfcrypt \<Rightarrow> byte list \<Rightarrow> byte list \<Rightarrow> byte list res" where
  "noise_crypto_hash K a b = eio (wc_Sha256Hash K (a @ b))"

definition noise_crypto_hkdf2 :: "'r wolfcrypt \<Rightarrow> byte list \<Rightarrow> byte list \<Rightarrow> (byte list \<times> byte list) res" where
  "noise_crypto_hkdf2 K ck ikm =
    (case wc_HKDF K ikm ck [] 64 of None \<Rightarrow> Inl EIO | Some okm \<Rightarrow> Inr (take 32 okm, drop 32 okm))"

subsection \<open>The symmetric state\<close>

definition PROTOCOL_NAME :: "byte list" where
  "PROTOCOL_NAME = str_bytes ''Noise_XX_25519_ChaChaPoly_SHA256''"

record sym_state =
  ss_h :: "byte list"
  ss_ck :: "byte list"
  ss_k :: "byte list"
  ss_n :: "64 word"
  ss_has_key :: bool

definition sym_init :: sym_state where
  "sym_init = \<lparr>ss_h = PROTOCOL_NAME, ss_ck = PROTOCOL_NAME, ss_k = replicate 32 0, ss_n = 0, ss_has_key = False\<rparr>"

definition sym_mix_hash :: "'r wolfcrypt \<Rightarrow> byte list \<Rightarrow> sym_state \<Rightarrow> sym_state res" where
  "sym_mix_hash K data s = ok_then (noise_crypto_hash K (ss_h s) data) (\<lambda>h. Inr (s\<lparr>ss_h := h\<rparr>))"

definition sym_mix_key :: "'r wolfcrypt \<Rightarrow> byte list \<Rightarrow> sym_state \<Rightarrow> sym_state res" where
  "sym_mix_key K ikm s =
    ok_then (noise_crypto_hkdf2 K (ss_ck s) ikm) (\<lambda>(new_ck, temp_k).
      Inr (s\<lparr>ss_ck := new_ck, ss_k := temp_k, ss_n := 0, ss_has_key := True\<rparr>))"

definition sym_encrypt_and_hash :: "'r wolfcrypt \<Rightarrow> wolfnoise \<Rightarrow> byte list \<Rightarrow> nat \<Rightarrow> sym_state \<Rightarrow> (byte list \<times> sym_state) res" where
  "sym_encrypt_and_hash K N pt cap s =
    (if \<not> ss_has_key s then
       if cap < length pt then Inl ENOBUFS
       else ok_then (sym_mix_hash K pt s) (\<lambda>s. Inr (pt, s))
     else
       ok_then (noise_crypto_encrypt N cap (ss_k s) (ss_n s) (ss_h s) pt) (\<lambda>ct.
       ok_then (sym_mix_hash K ct (s\<lparr>ss_n := ss_n s + 1\<rparr>)) (\<lambda>s. Inr (ct, s))))"

definition sym_decrypt_and_hash :: "'r wolfcrypt \<Rightarrow> wolfnoise \<Rightarrow> byte list \<Rightarrow> nat \<Rightarrow> sym_state \<Rightarrow> (byte list \<times> sym_state) res" where
  "sym_decrypt_and_hash K N ct cap s =
    (if \<not> ss_has_key s then
       if cap < length ct then Inl ENOBUFS
       else ok_then (sym_mix_hash K ct s) (\<lambda>s. Inr (ct, s))
     else
       ok_then (noise_crypto_decrypt N cap (ss_k s) (ss_n s) (ss_h s) ct) (\<lambda>pt.
       ok_then (sym_mix_hash K ct (s\<lparr>ss_n := ss_n s + 1\<rparr>)) (\<lambda>s. Inr (pt, s))))"

definition sym_split :: "'r wolfcrypt \<Rightarrow> sym_state \<Rightarrow> (byte list \<times> byte list) res" where
  "sym_split K s = noise_crypto_hkdf2 K (ss_ck s) []"

end
