(* ===== verification/Session_Slot.thy ===== *)
theory Session_Slot
  imports Ca Noise
begin

text \<open>
  The transport identity of the device, \<open>firmware/src/session/session_slot.c\<close>: the Noise
  static key, the P-256 identity key, and the certificate that binds them.

  \<open>D\<close> bundles the environment of the CA with wolfCrypt's curve functions, the bytes that
  \<open>hwinfo_get_device_id\<close> delivers, the generated constant \<open>cantil_session_x509_constant\<close> and the
  option \<open>CONFIG_CANTIL_SESSION_X509_STRICT\<close>.  The state adds \<open>s_in_recovery\<close> and \<open>s_eph\<close> to that of
  the CA; \<open>s_eph\<close> is \<open>None\<close> while \<open>active\<close> is false, since the structure is wiped whenever it
  stays so.  \<open>ca_do\<close> and \<open>dev_fs\<close> run operations of the CA and of the store inside it.
\<close>

definition SESSION_CERT_DER_MAX :: nat where "SESSION_CERT_DER_MAX = 2048"
definition SESSION_META_VERSION :: byte where "SESSION_META_VERSION = 1"
definition SESSION_META_FLAG_CA_SIGNED :: byte where "SESSION_META_FLAG_CA_SIGNED = 1"
definition SESSION_META_SIZE :: nat where "SESSION_META_SIZE = 44"
definition EPHEMERAL_CERT_MAX :: nat where "EPHEMERAL_CERT_MAX = 1024"

record session_meta =
  se_version :: byte
  se_flags :: byte
  se_reserved :: "byte list"
  se_init_unix :: "64 word"
  se_x25519_pub :: "byte list"

definition session_meta_bytes :: "session_meta \<Rightarrow> byte list" where
  "session_meta_bytes m = [se_version m, se_flags m] @ se_reserved m @ le_bytes 8 (unat (se_init_unix m)) @ se_x25519_pub m"

definition session_meta_of_bytes :: "byte list \<Rightarrow> session_meta" where
  "session_meta_of_bytes b =
    \<lparr>se_version = b ! 0, se_flags = b ! 1, se_reserved = take 2 (drop 2 b),
     se_init_unix = word_of_nat (le_nat (take 8 (drop 4 b))), se_x25519_pub = take 32 (drop 12 b)\<rparr>"

record eph_identity =
  eph_x_priv :: "byte list"
  eph_x_pub :: "byte list"
  eph_cert :: "byte list"

record ('fs, 'k, 'r) dev_env =
  dv_ca :: "('fs, 'k, 'r) ca_env"
  dv_noise :: wolfnoise
  hwinfo :: "byte list"
  session_x509_constant :: "byte list"
  session_x509_strict :: bool

record ('fs, 'r) dev_state =
  ds_ca :: "('fs, 'r) ca_state"
  s_in_recovery :: bool
  s_eph :: "eph_identity option"

abbreviation dv_fs :: "('fs, 'k, 'r) dev_env \<Rightarrow> 'fs fs_api" where "dv_fs D \<equiv> env_fs (dv_ca D)"
abbreviation dv_wc :: "('fs, 'k, 'r) dev_env \<Rightarrow> 'r wolfcrypt" where "dv_wc D \<equiv> env_wc (dv_ca D)"
abbreviation ds_fs :: "('fs, 'r) dev_state \<Rightarrow> 'fs" where "ds_fs S \<equiv> ca_fs (ds_ca S)"

definition ca_do :: "(('fs, 'r) ca_state, 'a) act \<Rightarrow> (('fs, 'r) dev_state, 'a) act" where
  "ca_do m S = (case m (ds_ca S) of (x, C) \<Rightarrow> (x, S\<lparr>ds_ca := C\<rparr>))"

definition dev_get :: "('fs \<Rightarrow> 'a res) \<Rightarrow> (('fs, 'r) dev_state, 'a) act" where
  "dev_get f = ca_do (fs_get f)"

definition dev_fs :: "('fs \<Rightarrow> errno option \<times> 'fs) \<Rightarrow> (('fs, 'r) dev_state, unit) act" where
  "dev_fs f = ca_do (fs_do f)"

definition dev_rng :: "('r \<Rightarrow> 'a res \<times> 'r) \<Rightarrow> (('fs, 'r) dev_state, 'a) act" where
  "dev_rng f = ca_do (rng_do f)"

subsection \<open>Start-up\<close>

definition session_slot_is_ephemeral :: "('fs, 'r) dev_state \<Rightarrow> bool" where
  "session_slot_is_ephemeral S \<longleftrightarrow> s_eph S \<noteq> None"

definition session_slot_get_ephemeral_static :: "('fs, 'r) dev_state \<Rightarrow> (byte list \<times> byte list) res" where
  "session_slot_get_ephemeral_static S =
    (case s_eph S of None \<Rightarrow> Inl ENOENT | Some e \<Rightarrow> Inr (eph_x_priv e, eph_x_pub e))"

definition verify_session_identity :: "('fs, 'k, 'r) dev_env \<Rightarrow> (('fs, 'r) dev_state, unit) act" where
  "verify_session_identity D S =
    (case storage_session_cert_read (dv_fs D) SESSION_CERT_DER_MAX (ds_fs S) of
       Inl e \<Rightarrow> if session_x509_strict D then (Inr (), S\<lparr>s_in_recovery := True\<rparr>) else (Inl e, S)
     | Inr cert \<Rightarrow>
         if is_1 (ca_session_cert_matches_constant (env_asn (dv_ca D)) cert (session_x509_constant D)) then (Inr (), S)
         else if session_x509_strict D then (Inr (), S\<lparr>s_in_recovery := True\<rparr>)
         else (Inr (), S))"

fun hex_upper :: "byte list \<Rightarrow> string" where
  "hex_upper [] = []"
| "hex_upper (b # bs) =
    (let digit = \<lambda>d. if d < 10 then char_of (48 + d) else char_of (55 + d) in
     digit (unat b div 16) # digit (unat b mod 16) # hex_upper bs)"

definition derive_cn :: "('fs, 'k, 'r) dev_env \<Rightarrow> byte list" where
  "derive_cn D = str_bytes (if length (hwinfo D) = 8 then ''Cantil-'' @ hex_upper (hwinfo D) else ''Cantil'')"

text \<open>The identity key, with the check of its length that every caller makes.\<close>

definition keygen_32 :: "('fs, 'k, 'r) dev_env \<Rightarrow> (('fs, 'r) dev_state, byte list) act" where
  "keygen_32 D =
    act_then (dev_rng (crypto_keygen (dv_wc D) 64)) (\<lambda>id_priv. if length id_priv \<noteq> 32 then fails EIO else gives id_priv)"

definition session_slot_init_ephemeral :: "('fs, 'k, 'r) dev_env \<Rightarrow> (('fs, 'r) dev_state, unit) act" where
  "session_slot_init_ephemeral D S =
    act_then (dev_rng (noise_crypto_dh_keygen (dv_wc D) (dv_noise D))) (\<lambda>(x_priv, x_pub).
    act_then (keygen_32 D) (\<lambda>id_priv.
    act_then (dev_rng (ca_build_session_cert (dv_ca D) (session_x509_constant D) (Some (derive_cn D)) id_priv x_pub
      SESSION_CERT_DER_MAX)) (\<lambda>cert.
    if length cert > EPHEMERAL_CERT_MAX then fails ENOMEM
    else (\<lambda>S. (Inr (), S\<lparr>s_eph := Some \<lparr>eph_x_priv = x_priv, eph_x_pub = x_pub, eph_cert = cert\<rparr>\<rparr>)))))
    (S\<lparr>s_eph := None\<rparr>)"

definition encrypt_and_write :: "('fs, 'k, 'r) dev_env \<Rightarrow> byte list \<Rightarrow> byte list
    \<Rightarrow> ('fs fs_api \<Rightarrow> byte list \<Rightarrow> 'fs \<Rightarrow> errno option \<times> 'fs) \<Rightarrow> (('fs, 'r) dev_state, unit) act" where
  "encrypt_and_write D storage_key priv wr =
    act_then (dev_rng (crypto_encrypt_blob (dv_wc D) storage_key priv KEY_BLOB_LEN)) (\<lambda>enc. dev_fs (wr (dv_fs D) enc))"

definition first_boot :: "('fs, 'k, 'r) dev_env \<Rightarrow> (('fs, 'r) dev_state, unit) act" where
  "first_boot D =
    act_then (dev_rng (noise_crypto_dh_keygen (dv_wc D) (dv_noise D))) (\<lambda>(x_priv, x_pub).
    act_then (keygen_32 D) (\<lambda>id_priv.
    act_then (dev_rng (ca_build_session_cert (dv_ca D) (session_x509_constant D) (Some (derive_cn D)) id_priv x_pub
      SESSION_CERT_DER_MAX)) (\<lambda>cert.
    act_then (dev_get (\<lambda>_. crypto_storage_key_derive (dv_wc D))) (\<lambda>storage_key.
    act_then (encrypt_and_write D storage_key x_priv storage_session_key_write) (\<lambda>_.
    act_then (encrypt_and_write D storage_key id_priv storage_session_id_key_write) (\<lambda>_.
    act_then (dev_fs (storage_session_cert_write (dv_fs D) cert)) (\<lambda>_.
    dev_fs (storage_session_meta_write (dv_fs D) (session_meta_bytes
      \<lparr>se_version = SESSION_META_VERSION, se_flags = 0, se_reserved = [0, 0], se_init_unix = 0, se_x25519_pub = x_pub\<rparr>)))))))))"

definition session_slot_init :: "('fs, 'k, 'r) dev_env \<Rightarrow> (('fs, 'r) dev_state, unit) act" where
  "session_slot_init D S =
    (let S = S\<lparr>s_eph := None\<rparr> in
     if \<not> storage_volume_trusted (ca_vol (ds_ca S)) then session_slot_init_ephemeral D S
     else case storage_session_cert_exists (dv_fs D) (ds_fs S) of
       Inl e \<Rightarrow> (Inl e, S)
     | Inr True \<Rightarrow> verify_session_identity D S
     | Inr False \<Rightarrow>
         if \<not> storage_volume_may_mint (dv_fs D) (ca_vol (ds_ca S)) then session_slot_init_ephemeral D S
         else first_boot D S)"

subsection \<open>Changing the certificate\<close>

definition check_resign_allowed :: "byte \<Rightarrow> bool \<Rightarrow> errno option" where
  "check_resign_allowed flags force = (if flags AND SESSION_META_FLAG_CA_SIGNED \<noteq> 0 \<and> \<not> force then Some EEXIST else None)"

definition read_session_meta :: "'fs fs_api \<Rightarrow> 'fs \<Rightarrow> session_meta res" where
  "read_session_meta F s =
    ok_then (storage_session_meta_read F SESSION_META_SIZE s) (\<lambda>buf.
      if length buf \<noteq> SESSION_META_SIZE \<or> buf ! 0 \<noteq> SESSION_META_VERSION then Inl EINVAL
      else Inr (session_meta_of_bytes buf))"

text \<open>The identity key as the three users of \<open>/session/id_key.bin\<close> unwrap it.\<close>

definition load_id_priv :: "('fs, 'k, 'r) dev_env \<Rightarrow> 'fs \<Rightarrow> byte list res" where
  "load_id_priv D s =
    ok_then (storage_session_id_key_read (dv_fs D) KEY_BLOB_LEN s) (\<lambda>enc.
    ok_then (crypto_storage_key_derive (dv_wc D)) (\<lambda>storage_key.
    ok_then (crypto_decrypt_blob (dv_wc D) storage_key enc 32) (\<lambda>id_priv.
    if length id_priv \<noteq> 32 then Inl EIO else Inr id_priv)))"

definition session_slot_get_pubkey :: "('fs, 'k, 'r) dev_env \<Rightarrow> ('fs, 'r) dev_state \<Rightarrow> byte list res" where
  "session_slot_get_pubkey D S =
    (case s_eph S of
       Some e \<Rightarrow> Inr (eph_x_pub e)
     | None \<Rightarrow> ok_then (read_session_meta (dv_fs D) (ds_fs S)) (\<lambda>m. Inr (se_x25519_pub m)))"

definition session_slot_sign_from_slot :: "('fs, 'k, 'r) dev_env \<Rightarrow> nat \<Rightarrow> bool \<Rightarrow> (('fs, 'r) dev_state, unit) act" where
  "session_slot_sign_from_slot D issuer_slot force S =
    (if \<not> is_1 (storage_session_cert_exists (dv_fs D) (ds_fs S)) then (Inl ENOENT, S)
     else
       act_then (dev_get (read_session_meta (dv_fs D))) (\<lambda>m.
       case check_resign_allowed (se_flags m) force of
         Some e \<Rightarrow> fails e
       | None \<Rightarrow>
       act_then (dev_get (load_id_priv D)) (\<lambda>id_priv.
       act_then (ca_do (ca_sign_session_cert (dv_ca D) issuer_slot (session_x509_constant D) (Some (derive_cn D)) id_priv
         (se_x25519_pub m) SESSION_CERT_DER_MAX)) (\<lambda>cert.
       act_then (dev_fs (storage_session_cert_write (dv_fs D) cert)) (\<lambda>_.
       dev_fs (storage_session_meta_write (dv_fs D)
         (session_meta_bytes (m\<lparr>se_flags := se_flags m OR SESSION_META_FLAG_CA_SIGNED\<rparr>)))))) ) S)"

definition session_slot_push_cert :: "('fs, 'k, 'r) dev_env \<Rightarrow> byte list \<Rightarrow> byte list \<Rightarrow> bool \<Rightarrow> (('fs, 'r) dev_state, unit) act" where
  "session_slot_push_cert D cert chain force S =
    (if cert = [] then (Inl EINVAL, S)
     else if \<not> is_1 (storage_session_cert_exists (dv_fs D) (ds_fs S)) then (Inl ENOENT, S)
     else
       act_then (dev_get (read_session_meta (dv_fs D))) (\<lambda>m.
       case check_resign_allowed (se_flags m) force of
         Some e \<Rightarrow> fails e
       | None \<Rightarrow>
       act_then (\<lambda>S. (session_slot_get_pubkey D S, S)) (\<lambda>x25519_pub.
       act_then (dev_get (load_id_priv D)) (\<lambda>id_priv.
       act_then (dev_get (\<lambda>_. crypto_pubkey_from_privkey (dv_wc D) id_priv 65)) (\<lambda>id_pub.
       if length id_pub \<noteq> 65 then fails EIO
       else
       act_then (dev_get (\<lambda>_. ca_validate_pushed_session_cert (dv_ca D) cert chain id_pub x25519_pub (session_x509_constant D))) (\<lambda>ca_signed.
       act_then (dev_fs (storage_session_cert_write (dv_fs D) cert)) (\<lambda>_.
       act_then (dev_fs (if chain \<noteq> [] then storage_session_chain_write (dv_fs D) chain
         else storage_session_chain_delete (dv_fs D))) (\<lambda>_.
       dev_fs (storage_session_meta_write (dv_fs D) (session_meta_bytes (m\<lparr>se_flags :=
         if ca_signed then se_flags m OR SESSION_META_FLAG_CA_SIGNED
         else se_flags m AND NOT SESSION_META_FLAG_CA_SIGNED\<rparr>)))))))))) S)"

definition session_slot_get_cert :: "('fs, 'k, 'r) dev_env \<Rightarrow> nat \<Rightarrow> ('fs, 'r) dev_state \<Rightarrow> byte list res" where
  "session_slot_get_cert D cap S =
    (case s_eph S of
       Some e \<Rightarrow> if cap < length (eph_cert e) then Inl ENOMEM else Inr (eph_cert e)
     | None \<Rightarrow> storage_session_cert_read (dv_fs D) cap (ds_fs S))"

definition session_slot_get_csr :: "('fs, 'k, 'r) dev_env \<Rightarrow> nat \<Rightarrow> (('fs, 'r) dev_state, byte list) act" where
  "session_slot_get_csr D cap S =
    (if \<not> is_1 (storage_session_cert_exists (dv_fs D) (ds_fs S)) then (Inl ENOENT, S)
     else
       act_then (\<lambda>S. (session_slot_get_pubkey D S, S)) (\<lambda>x_pub.
       act_then (dev_get (load_id_priv D)) (\<lambda>id_priv.
       act_then (dev_rng (ca_build_session_csr (dv_ca D) (session_x509_constant D) (Some (derive_cn D)) id_priv x_pub cap)) (\<lambda>csr.
       act_then (ca_do (fs_try (storage_session_csr_write (dv_fs D) csr))) (\<lambda>_. gives csr)))) S)"

end
