(* ===== verification/Session.thy ===== *)
theory Session
  imports Session_Slot Cbor
begin

text \<open>
  The secure channel of the device, \<open>firmware/src/session/session.c\<close>: framing on a byte
  transport, the responder of the Noise XX handshake, and the encrypted messages after it.

  The transport is the parameter \<open>T\<close> on a state \<open>'t\<close>, which also carries the clock.  A
  receive that never returns is \<open>None\<close>.  The handshake is written as the functions on
  messages (\<open>hs_read_msg1\<close>, \<open>hs_write_msg2\<close>, \<open>hs_read_msg3\<close>) that \<open>session_open\<close> runs in order
  between the transfers.  \<open>size_t\<close> has \<open>size_bits\<close> bits, 32 on the device.
\<close>

definition NOISE_TAG_LEN :: nat where "NOISE_TAG_LEN = 16"
definition RECV_TIMEOUT_MS :: int where "RECV_TIMEOUT_MS = 2000"
definition MAX_FRAME_PAYLOAD :: nat where "MAX_FRAME_PAYLOAD = 4096"
definition SESSION_CBOR_KEY_CHAIN :: nat where "SESSION_CBOR_KEY_CHAIN = 1"
definition SESSION_LEAF_DER_MAX :: nat where "SESSION_LEAF_DER_MAX = 1024"
definition SESSION_CHAIN_DER_MAX :: nat where "SESSION_CHAIN_DER_MAX = 1536"
definition SESSION_CHAIN_MAX_CERTS :: nat where "SESSION_CHAIN_MAX_CERTS = 4"
definition SESSION_CHAIN_PT_MAX :: nat where "SESSION_CHAIN_PT_MAX = 2048"
definition SESSION_HS_MSG_MAX :: nat where "SESSION_HS_MSG_MAX = 32 + 48 + SESSION_CHAIN_PT_MAX + NOISE_TAG_LEN"
definition SESSION_CLIENT_CHAIN_MAX :: nat where "SESSION_CLIENT_CHAIN_MAX = 2048"

definition size_bits :: nat where "size_bits = 32"

subsection \<open>Framing\<close>

text \<open>A driver without the \<open>connected\<close> hook is one whose \<open>t_connected\<close> is always true.\<close>

record 't transport =
  t_send :: "byte list \<Rightarrow> 't \<Rightarrow> errno option \<times> 't"
  t_recv :: "nat \<Rightarrow> 't \<Rightarrow> byte list res \<times> 't"
  t_connected :: "'t \<Rightarrow> bool"
  t_uptime :: "'t \<Rightarrow> int"
  t_msleep :: "'t \<Rightarrow> 't"

partial_function (option) recv_loop :: "'t transport \<Rightarrow> nat \<Rightarrow> int \<Rightarrow> byte list \<Rightarrow> 't \<Rightarrow> (byte list res \<times> 't) option" where
  "recv_loop T len deadline got t =
    (if length got \<ge> len then Some (Inr got, t)
     else case t_recv T (len - length got) t of
       (Inl e, t) \<Rightarrow> Some (Inl e, t)
     | (Inr bs, t) \<Rightarrow>
         if bs \<noteq> [] then recv_loop T len deadline (got @ bs) t
         else if \<not> t_connected T t then Some (Inl ENOTCONN, t)
         else if t_uptime T t \<ge> deadline then Some (Inl ETIMEDOUT, t)
         else recv_loop T len deadline got (t_msleep T t))"

declare recv_loop.simps [code]

definition raw_recv_exact :: "'t transport \<Rightarrow> nat \<Rightarrow> 't \<Rightarrow> (byte list res \<times> 't) option" where
  "raw_recv_exact T len t = recv_loop T len (t_uptime T t + RECV_TIMEOUT_MS) [] t"

definition frame_header :: "nat \<Rightarrow> byte list" where
  "frame_header len = [word_of_nat (len div 256), word_of_nat (len mod 256)]"

definition send_frame :: "'t transport \<Rightarrow> byte list \<Rightarrow> 't \<Rightarrow> errno option \<times> 't" where
  "send_frame T buf t =
    (case t_send T (frame_header (length buf)) t of
       (Some e, t) \<Rightarrow> (Some e, t)
     | (None, t) \<Rightarrow> t_send T buf t)"

definition recv_frame :: "'t transport \<Rightarrow> nat \<Rightarrow> 't \<Rightarrow> (byte list res \<times> 't) option" where
  "recv_frame T max_len t =
    Option.bind (raw_recv_exact T 2 t) (\<lambda>(r, t).
      case r of
        Inl e \<Rightarrow> Some (Inl e, t)
      | Inr hdr \<Rightarrow>
          let frame_len = unat (hdr ! 0) * 256 + unat (hdr ! 1) in
          if frame_len > max_len then Some (Inl ENOBUFS, t) else raw_recv_exact T frame_len t)"

subsection \<open>Keys and certificates\<close>

definition load_static_keypair :: "('fs, 'k, 'r) dev_env \<Rightarrow> ('fs, 'r) dev_state \<Rightarrow> (byte list \<times> byte list) res" where
  "load_static_keypair D S =
    (if session_slot_is_ephemeral S then session_slot_get_ephemeral_static S
     else
       ok_then (storage_session_key_read (dv_fs D) 60 (ds_fs S)) (\<lambda>blob.
       ok_then (crypto_storage_key_derive (dv_wc D)) (\<lambda>storage_key.
       ok_then (crypto_decrypt_blob (dv_wc D) storage_key blob 32) (\<lambda>priv.
       if length priv \<noteq> 32 then Inl EINVAL
       else ok_then (session_slot_get_pubkey D S) (\<lambda>pub. Inr (priv, pub))))))"

text \<open>The split of \<open>/session/chain.der\<close>; \<open>n\<close> certificates still fit.\<close>

fun chain_parts :: "nat \<Rightarrow> nat \<Rightarrow> byte list \<Rightarrow> byte list list" where
  "chain_parts S 0 chain = []"
| "chain_parts S (Suc n) chain =
    (if length chain \<le> 1 then []
     else case der_tlv_len S chain ASN1_SEQ of
       Inl _ \<Rightarrow> []
     | Inr this_len \<Rightarrow>
         if this_len > length chain then [] else take this_len chain # chain_parts S n (drop this_len chain))"

definition collect_local_certs :: "('fs, 'k, 'r) dev_env \<Rightarrow> ('fs, 'r) dev_state \<Rightarrow> byte list list res" where
  "collect_local_certs D S =
    (case session_slot_get_cert D SESSION_LEAF_DER_MAX S of
       Inl e \<Rightarrow> if e = ENOENT then Inr [] else Inl e
     | Inr leaf \<Rightarrow>
         (case storage_session_chain_read (dv_fs D) SESSION_CHAIN_DER_MAX (ds_fs S) of
            Inl _ \<Rightarrow> Inr [leaf]
          | Inr chain \<Rightarrow> Inr (leaf # chain_parts (sizeof_size_t (dv_ca D)) (SESSION_CHAIN_MAX_CERTS - 1) chain)))"

fun emit_bstrs :: "nat \<Rightarrow> byte list \<Rightarrow> byte list list \<Rightarrow> byte list res" where
  "emit_bstrs cap out [] = Inr out"
| "emit_bstrs cap out (c # cs) = ok_then (emit_bstr cap out c) (\<lambda>out. emit_bstrs cap out cs)"

definition encode_chain_cbor :: "nat \<Rightarrow> byte list list \<Rightarrow> byte list res" where
  "encode_chain_cbor cap certs =
    ok_then (emit_map cap [] 1) (\<lambda>out.
    ok_then (emit_uint cap out SESSION_CBOR_KEY_CHAIN) (\<lambda>out.
    ok_then (emit_array cap out (word_of_nat (length certs))) (\<lambda>out.
    emit_bstrs cap out certs)))"

text \<open>
  The certificates that are copied out of a handshake payload, with the limits of the
  receiver: at most \<open>maxc\<close> certificates and \<open>maxb\<close> bytes, \<open>W\<close> bits in a \<open>size_t\<close>.  \<open>Wild_copy\<close>
  is a \<open>memcpy\<close> past the end of both buffers, which the check of the total lets through
  when the sum wraps.
\<close>

datatype chain_copy = Copied "byte list list" | Wild_copy

fun copy_certs :: "nat \<Rightarrow> nat \<Rightarrow> nat \<Rightarrow> byte list \<Rightarrow> nat \<Rightarrow> nat \<Rightarrow> byte list list \<Rightarrow> chain_copy" where
  "copy_certs W maxc maxb pt 0 off certs = Copied certs"
| "copy_certs W maxc maxb pt (Suc n) off certs =
    (case read_bstr W pt off of
       Inl _ \<Rightarrow> Copied certs
     | Inr (p, cl, off) \<Rightarrow>
         let total = length (concat certs) in
         if length certs \<ge> maxc then Copied certs
         else if (total + cl) mod 2 ^ W > maxb then Copied certs
         else if total + cl > maxb \<or> p + cl > length pt then Wild_copy
         else copy_certs W maxc maxb pt n off (certs @ [take cl (drop p pt)]))"

definition parse_chain :: "nat \<Rightarrow> nat \<Rightarrow> nat \<Rightarrow> byte list \<Rightarrow> chain_copy" where
  "parse_chain W maxc maxb pt =
    (if pt = [] then Copied []
     else case read_head pt 0 of
       Inl _ \<Rightarrow> Copied []
     | Inr (major, val, off) \<Rightarrow>
         if major \<noteq> MT_MAP \<or> val mod 2 ^ W = 0 then Copied []
         else case read_uint32 pt off of
           Inl _ \<Rightarrow> Copied []
         | Inr (key, off) \<Rightarrow>
             if unat key \<noteq> SESSION_CBOR_KEY_CHAIN then Copied []
             else case read_head pt off of
               Inl _ \<Rightarrow> Copied []
             | Inr (amaj, acount, off) \<Rightarrow>
                 if amaj \<noteq> MT_ARRAY then Copied [] else copy_certs W maxc maxb pt (acount mod 2 ^ W) off [])"

definition parse_client_chain :: "byte list \<Rightarrow> chain_copy" where
  "parse_client_chain pt = parse_chain size_bits SESSION_CHAIN_MAX_CERTS SESSION_CLIENT_CHAIN_MAX pt"

subsection \<open>The handshake\<close>

record cantil_session =
  rx_key :: "byte list"
  tx_key :: "byte list"
  rx_nonce :: "64 word"
  tx_nonce :: "64 word"
  remote_s_pub :: "byte list"
  local_s_pub :: "byte list"
  established :: bool
  client_certs :: "byte list list"

definition hs_read_msg1 :: "'r wolfcrypt \<Rightarrow> byte list \<Rightarrow> sym_state \<Rightarrow> sym_state res" where
  "hs_read_msg1 K eI_pub sy = ok_then (sym_mix_hash K eI_pub sy) (sym_mix_hash K [])"

text \<open>The size expression \<open>sizeof(msg2) - msg2_pos\<close>, where \<open>msg2\<close> is a pointer.\<close>

definition msg2_room :: "nat \<Rightarrow> nat" where
  "msg2_room pos = (size_bits div 8 + (2 ^ size_bits - pos)) mod 2 ^ size_bits"

definition hs_write_msg2 :: "'r wolfcrypt \<Rightarrow> wolfnoise \<Rightarrow> byte list \<times> byte list \<Rightarrow> byte list \<times> byte list \<Rightarrow> byte list
    \<Rightarrow> byte list \<Rightarrow> sym_state \<Rightarrow> (byte list \<times> sym_state) res" where
  "hs_write_msg2 K N st ep eI_pub chain_pt sy =
    (case st of (s_priv, s_pub) \<Rightarrow> case ep of (e_priv, e_pub) \<Rightarrow>
     ok_then (sym_mix_hash K e_pub sy) (\<lambda>sy.
     ok_then (noise_crypto_dh N e_priv eI_pub) (\<lambda>ee.
     ok_then (sym_mix_key K ee sy) (\<lambda>sy.
     ok_then (sym_encrypt_and_hash K N s_pub (msg2_room 32) sy) (\<lambda>(enc_s, sy).
     ok_then (noise_crypto_dh N s_priv eI_pub) (\<lambda>es.
     ok_then (sym_mix_key K es sy) (\<lambda>sy.
     ok_then (sym_encrypt_and_hash K N chain_pt (msg2_room (32 + length enc_s)) sy) (\<lambda>(enc_chain, sy).
     Inr (e_pub @ enc_s @ enc_chain, sy)))))))))"

definition hs_read_msg3 :: "'r wolfcrypt \<Rightarrow> wolfnoise \<Rightarrow> byte list option \<Rightarrow> byte list \<Rightarrow> byte list \<Rightarrow> sym_state
    \<Rightarrow> (byte list \<times> byte list \<times> sym_state) res" where
  "hs_read_msg3 K N expected_client_pub e_priv msg3 sy =
    ok_then (sym_decrypt_and_hash K N (take 48 msg3) 32 sy) (\<lambda>(remote, sy).
    if (case expected_client_pub of None \<Rightarrow> False | Some p \<Rightarrow> remote \<noteq> p) then Inl EACCES
    else
    ok_then (noise_crypto_dh N e_priv remote) (\<lambda>se.
    ok_then (sym_mix_key K se sy) (\<lambda>sy.
    ok_then (sym_decrypt_and_hash K N (drop 48 msg3) SESSION_CHAIN_PT_MAX sy) (\<lambda>(client_pt, sy).
    Inr (remote, client_pt, sy)))))"

definition new_session :: "byte list \<times> byte list \<Rightarrow> byte list \<Rightarrow> byte list \<Rightarrow> byte list list \<Rightarrow> cantil_session" where
  "new_session ks remote local certs = (case ks of (k1, k2) \<Rightarrow>
    \<lparr>rx_key = k1, tx_key = k2, rx_nonce = 0, tx_nonce = 0, remote_s_pub = remote, local_s_pub = local,
     established = True, client_certs = certs\<rparr>)"

text \<open>
  The result of \<open>session_open\<close>: an error, the session, or the wild copy of the chain
  parser.  \<open>pool_used\<close> says whether the single session object is taken; the caller keeps the
  session and so knows.
\<close>

datatype open_result = Open_err errno | Open_ok cantil_session | Open_fault

text \<open>The third message and the end of the handshake.\<close>

definition hs_finish :: "'r wolfcrypt \<Rightarrow> wolfnoise \<Rightarrow> byte list option \<Rightarrow> byte list \<Rightarrow> byte list \<Rightarrow> sym_state \<Rightarrow> byte list res \<Rightarrow> open_result" where
  "hs_finish K N expected_client_pub e_priv s_pub sy r =
    (case r of
       Inl e \<Rightarrow> Open_err e
     | Inr msg3 \<Rightarrow>
         if length msg3 < 64 then Open_err EPROTO
         else case hs_read_msg3 K N expected_client_pub e_priv msg3 sy of
           Inl e \<Rightarrow> Open_err e
         | Inr (remote, client_pt, sy) \<Rightarrow>
             (case parse_client_chain client_pt of
                Wild_copy \<Rightarrow> Open_fault
              | Copied certs \<Rightarrow>
                  (case sym_split K sy of
                     Inl e \<Rightarrow> Open_err e
                   | Inr ks \<Rightarrow> Open_ok (new_session ks remote s_pub certs))))"

definition session_open :: "('fs, 'k, 'r) dev_env \<Rightarrow> 't transport \<Rightarrow> byte list option \<Rightarrow> bool \<Rightarrow> ('fs, 'r) dev_state \<Rightarrow> 't
    \<Rightarrow> (open_result \<times> ('fs, 'r) dev_state \<times> 't) option" where
  "session_open D T expected_client_pub pool_used S t =
    (let K = dv_wc D; N = dv_noise D in
     if pool_used then Some (Open_err ENOMEM, S, t)
     else case load_static_keypair D S of
       Inl e \<Rightarrow> Some (Open_err e, S, t)
     | Inr st \<Rightarrow>
    (case dev_rng (noise_crypto_dh_keygen K N) S of
       (Inl e, S) \<Rightarrow> Some (Open_err e, S, t)
     | (Inr ep, S) \<Rightarrow>
    (case sym_mix_hash K [] sym_init of
       Inl e \<Rightarrow> Some (Open_err e, S, t)
     | Inr sy \<Rightarrow>
     Option.bind (recv_frame T 32 t) (\<lambda>(r, t). case r of
       Inl e \<Rightarrow> Some (Open_err e, S, t)
     | Inr msg1 \<Rightarrow>
         if length msg1 \<noteq> 32 then Some (Open_err EPROTO, S, t)
         else case hs_read_msg1 K msg1 sy of
           Inl e \<Rightarrow> Some (Open_err e, S, t)
         | Inr sy \<Rightarrow>
        (case (case collect_local_certs D S of
             Inr (c # cs) \<Rightarrow> encode_chain_cbor SESSION_CHAIN_PT_MAX (c # cs) | _ \<Rightarrow> Inr []) of
           Inl e \<Rightarrow> Some (Open_err e, S, t)
         | Inr chain_pt \<Rightarrow>
        (case hs_write_msg2 K N st ep msg1 chain_pt sy of
           Inl e \<Rightarrow> Some (Open_err e, S, t)
         | Inr (msg2, sy) \<Rightarrow>
        (case send_frame T msg2 t of
           (Some e, t) \<Rightarrow> Some (Open_err e, S, t)
         | (None, t) \<Rightarrow>
         Option.bind (recv_frame T SESSION_HS_MSG_MAX t) (\<lambda>(r, t).
           Some (hs_finish K N expected_client_pub (fst ep) (snd st) sy r, S, t)))))))))"

subsection \<open>Messages\<close>

definition session_send :: "wolfnoise \<Rightarrow> 't transport \<Rightarrow> cantil_session \<Rightarrow> byte list \<Rightarrow> 't
    \<Rightarrow> errno option \<times> cantil_session \<times> 't" where
  "session_send N T sess buf t =
    (if \<not> established sess then (Some EINVAL, sess, t)
     else case noise_crypto_encrypt N (MAX_FRAME_PAYLOAD + NOISE_TAG_LEN) (tx_key sess) (tx_nonce sess) [] buf of
       Inl e \<Rightarrow> (Some e, sess, t)
     | Inr ct \<Rightarrow>
         (case send_frame T ct t of (rc, t) \<Rightarrow> (rc, sess\<lparr>tx_nonce := tx_nonce sess + 1\<rparr>, t)))"

definition session_recv :: "wolfnoise \<Rightarrow> 't transport \<Rightarrow> cantil_session \<Rightarrow> nat \<Rightarrow> 't
    \<Rightarrow> (byte list res \<times> cantil_session \<times> 't) option" where
  "session_recv N T sess max_len t =
    (if \<not> established sess then Some (Inl EINVAL, sess, t)
     else Option.bind (recv_frame T (MAX_FRAME_PAYLOAD + NOISE_TAG_LEN) t) (\<lambda>(r, t).
       case r of
         Inl e \<Rightarrow> Some (Inl e, sess, t)
       | Inr ct \<Rightarrow>
           if length ct < NOISE_TAG_LEN then Some (Inl EPROTO, sess, t)
           else case noise_crypto_decrypt N max_len (rx_key sess) (rx_nonce sess) [] ct of
             Inl e \<Rightarrow> Some (Inl e, sess, t)
           | Inr pt \<Rightarrow> Some (Inr pt, sess\<lparr>rx_nonce := rx_nonce sess + 1\<rparr>, t)))"

definition session_get_remote_pubkey :: "cantil_session \<Rightarrow> byte list res" where
  "session_get_remote_pubkey sess = (if \<not> established sess then Inl EINVAL else Inr (remote_s_pub sess))"

definition session_get_local_pubkey :: "cantil_session \<Rightarrow> byte list res" where
  "session_get_local_pubkey sess = (if \<not> established sess then Inl EINVAL else Inr (local_s_pub sess))"

definition session_get_client_cert :: "cantil_session \<Rightarrow> nat \<Rightarrow> byte list res" where
  "session_get_client_cert sess idx = (if idx \<ge> length (client_certs sess) then Inl ENOENT else Inr (client_certs sess ! idx))"

end
