(* ===== verification/Names.thy ===== *)
theory Names
  imports Crypto
begin

text \<open>
  Random names, \<open>firmware/src/names/names.c\<close>.  The tables that \<open>scripts/gen_names_data.py\<close>
  generates into \<open>names_data.c\<close> are the record \<open>name_tables\<close>.
\<close>

definition NAMES_COUNT :: nat where "NAMES_COUNT = 1918"
definition NAMES_BATCH_MAX :: nat where "NAMES_BATCH_MAX = 64"
definition SEPARATOR :: byte where "SEPARATOR = 0xFF"

record name_tables =
  names_data :: "byte list"
  names_byte_offsets :: "16 word list"
  names_byte_lengths :: "byte list"

definition name_at :: "name_tables \<Rightarrow> nat \<Rightarrow> byte list" where
  "name_at NT idx = take (unat (names_byte_lengths NT ! idx)) (drop (unat (names_byte_offsets NT ! idx)) (names_data NT))"

text \<open>The loop over the random bytes, two for a name.\<close>

fun names_loop :: "name_tables \<Rightarrow> nat \<Rightarrow> byte list \<Rightarrow> byte list \<Rightarrow> byte list" where
  "names_loop NT out_size (r1 # r2 # rs) out =
    (let idx = be_nat [r1, r2] mod NAMES_COUNT in
     if length out + unat (names_byte_lengths NT ! idx) + 1 > out_size then out
     else names_loop NT out_size rs (out @ name_at NT idx @ [SEPARATOR]))"
| "names_loop NT out_size _ out = out"

definition names_get_random_batch :: "'r wolfcrypt \<Rightarrow> name_tables \<Rightarrow> nat \<Rightarrow> nat \<Rightarrow> 'r \<Rightarrow> byte list res \<times> 'r" where
  "names_get_random_batch K NT count out_size r =
    (if count = 0 \<or> out_size = 0 then (Inr [], r)
     else
       let count = (if count > NAMES_BATCH_MAX then NAMES_BATCH_MAX else count) in
       case crypto_trng K (count * 2) r of
         (Inl _, r) \<Rightarrow> (Inl EIO, r)
       | (Inr rand_buf, r) \<Rightarrow> (Inr (names_loop NT out_size rand_buf []), r))"

subsection \<open>What a batch holds\<close>

text \<open>
  \<open>tables_ok NT\<close>: every name lies in the data, and no byte of it is the separator.  \<open>split_names\<close>
  is how a reader takes a batch apart.
\<close>

definition tables_ok :: "name_tables \<Rightarrow> bool" where
  "tables_ok NT \<longleftrightarrow> length (names_byte_offsets NT) = NAMES_COUNT \<and> length (names_byte_lengths NT) = NAMES_COUNT
    \<and> (\<forall>i < NAMES_COUNT. unat (names_byte_offsets NT ! i) + unat (names_byte_lengths NT ! i) \<le> length (names_data NT))
    \<and> SEPARATOR \<notin> set (names_data NT)"

fun split_names :: "byte list \<Rightarrow> byte list \<Rightarrow> byte list list" where
  "split_names cur [] = []"
| "split_names cur (b # bs) = (if b = SEPARATOR then cur # split_names [] bs else split_names (cur @ [b]) bs)"

fun picked :: "byte list \<Rightarrow> nat list" where
  "picked (r1 # r2 # rs) = (be_nat [r1, r2] mod NAMES_COUNT) # picked rs"
| "picked _ = []"

definition batch_bytes :: "byte list list \<Rightarrow> byte list" where
  "batch_bytes ns = concat (map (\<lambda>n. n @ [SEPARATOR]) ns)"

lemma split_names_name: "SEPARATOR \<notin> set n \<Longrightarrow> split_names cur (n @ SEPARATOR # bs) = (cur @ n) # split_names [] bs"
  by (induction n arbitrary: cur) auto

lemma split_batch: "\<forall>n \<in> set ns. SEPARATOR \<notin> set n \<Longrightarrow> split_names [] (batch_bytes ns) = ns"
  by (induction ns) (simp_all add: batch_bytes_def split_names_name)

lemma name_at_sep: "tables_ok NT \<Longrightarrow> SEPARATOR \<notin> set (name_at NT i)"
  by (auto simp: tables_ok_def name_at_def dest!: in_set_takeD in_set_dropD)

lemma length_name_at: "tables_ok NT \<Longrightarrow> i < NAMES_COUNT \<Longrightarrow> length (name_at NT i) = unat (names_byte_lengths NT ! i)"
  by (auto simp: tables_ok_def name_at_def)

lemma names_loop_picked:
  "tables_ok NT \<Longrightarrow> length out \<le> n \<Longrightarrow> \<exists>k \<le> length (picked rs).
    names_loop NT n rs out = out @ batch_bytes (map (name_at NT) (take k (picked rs)))
    \<and> length (names_loop NT n rs out) \<le> n"
proof (induction NT n rs out rule: names_loop.induct)
  case (1 NT n r1 r2 rs out)
  define idx where "idx = be_nat [r1, r2] mod NAMES_COUNT"
  have idx: "idx < NAMES_COUNT" by (simp add: idx_def NAMES_COUNT_def)
  have [simp]: "(unat r1 * 256 + unat r2) mod NAMES_COUNT = idx" by (simp add: idx_def)
  note len = length_name_at [OF 1(2) idx]
  show ?case
  proof (cases "length out + unat (names_byte_lengths NT ! idx) + 1 > n")
    case True
    with 1(3) show ?thesis by (auto simp: Let_def batch_bytes_def intro!: exI [of _ 0])
  next
    case False
    with 1(1) [OF idx_def _ 1(2)] len obtain k where "k \<le> length (picked rs)"
      "names_loop NT n rs (out @ name_at NT idx @ [SEPARATOR])
        = (out @ name_at NT idx @ [SEPARATOR]) @ batch_bytes (map (name_at NT) (take k (picked rs)))"
      "length (names_loop NT n rs (out @ name_at NT idx @ [SEPARATOR])) \<le> n"
      by auto
    with False show ?thesis by (intro exI [of _ "Suc k"]) (simp add: Let_def batch_bytes_def)
  qed
qed (auto simp: batch_bytes_def)

lemma length_picked: "length (picked rs) = length rs div 2"
  by (induction rs rule: picked.induct) auto

lemma picked_less: "i \<in> set (picked rs) \<Longrightarrow> i < NAMES_COUNT"
  by (induction rs rule: picked.induct) (auto simp: NAMES_COUNT_def)

lemma names_batch:
  assumes "tables_ok NT" and "names_get_random_batch K NT count n r = (Inr out, r')"
  shows "length out \<le> n \<and> (\<exists>is. set is \<subseteq> {..<NAMES_COUNT} \<and> split_names [] out = map (name_at NT) is)"
proof -
  have b: "split_names [] (batch_bytes (map (name_at NT) is)) = map (name_at NT) is" for "is"
    by (rule split_batch) (simp add: name_at_sep [OF assms(1)])
  have "\<exists>is. set is \<subseteq> {..<NAMES_COUNT} \<and> out = batch_bytes (map (name_at NT) is) \<and> length out \<le> n"
  proof (cases "count = 0 \<or> n = 0")
    case True
    with assms(2) show ?thesis by (auto simp: names_get_random_batch_def batch_bytes_def intro!: exI [of _ "[]"])
  next
    case False
    with assms(2) obtain rs where rs: "out = names_loop NT n rs []"
      by (auto simp: names_get_random_batch_def Let_def split: prod.splits sum.splits if_splits)
    from names_loop_picked [OF assms(1), of "[]" n rs] obtain k where
      "out = batch_bytes (map (name_at NT) (take k (picked rs)))" "length out \<le> n"
      by (auto simp: rs)
    then show ?thesis by (intro exI [of _ "take k (picked rs)"]) (auto dest!: in_set_takeD picked_less)
  qed
  with b show ?thesis by auto
qed

end
