(* ===== verification/Protocol.thy ===== *)
theory Protocol
  imports Gesture Session Client_Bond Names
begin

text \<open>
  The request dispatcher of the device, \<open>firmware/src/protocol/protocol.c\<close>.

  A handler runs on the whole \<open>appliance\<close>: the certificate authority and its volume, the
  session identity, the gesture engine with its clock, what the user and the timers do
  while a handler waits (\<open>ap_user\<close>), the session of the client and its transport.  A handler
  yields \<open>None\<close> when it does not return.  The gesture engine works on the same file system
  as the rest; \<open>to_gest\<close> and \<open>from_gest\<close> carry it over.

  \<open>Respond err data\<close> is the error code and the bytes of \<open>resp_data\<close> that \<open>resp_data_len\<close> covers
  when the dispatcher encodes the response.
\<close>

subsection \<open>Commands and error codes\<close>

datatype cantil_cmd =
    CMD_SIGN_CSR | CMD_GET_CA_CERT | CMD_GET_CA_CHAIN | CMD_GET_CA_SERIAL | CMD_GET_CA_CSR | CMD_PUSH_CA_CERT
  | CMD_LIST_CERTS | CMD_GET_CERT | CMD_GET_CERT_COUNT | CMD_REVOKE_CERT | CMD_AUTO_EXPIRE | CMD_GET_CRL
  | CMD_LIST_KEYS | CMD_GEN_KEY | CMD_GEN_KEY_CSR | CMD_GET_KEY_CSR | CMD_PUSH_KEY_CERT | CMD_SIGN_KEY_SLOT
  | CMD_PUSH_KEY_X509 | CMD_DELETE_KEY | CMD_PROTECT_SLOT | CMD_UNPROTECT_SLOT | CMD_SIGN_CSR_SLOT
  | CMD_DEVICE_STATUS | CMD_SET_UNLOCK_SEQ | CMD_RESET_DEVICE | CMD_UPDATE_FIRMWARE | CMD_PROVISION_CA
  | CMD_GET_RANDOM | CMD_GET_RANDOM_NAMES
  | CMD_GET_SESSION_CERT | CMD_GET_SESSION_CSR | CMD_SIGN_SESSION_FROM_SLOT | CMD_PUSH_SESSION_CERT
  | CMD_LIST_CLIENTS | CMD_UNPAIR_CLIENT | CMD_SET_CLIENT_NAME | CMD_PAIRING_PASSKEY_REPLY

fun cmd_code :: "cantil_cmd \<Rightarrow> 32 word" where
  "cmd_code CMD_SIGN_CSR = 0x01" | "cmd_code CMD_GET_CA_CERT = 0x02" | "cmd_code CMD_GET_CA_CHAIN = 0x03"
| "cmd_code CMD_GET_CA_SERIAL = 0x04" | "cmd_code CMD_GET_CA_CSR = 0x05" | "cmd_code CMD_PUSH_CA_CERT = 0x06"
| "cmd_code CMD_LIST_CERTS = 0x10" | "cmd_code CMD_GET_CERT = 0x11" | "cmd_code CMD_GET_CERT_COUNT = 0x12"
| "cmd_code CMD_REVOKE_CERT = 0x13" | "cmd_code CMD_AUTO_EXPIRE = 0x14" | "cmd_code CMD_GET_CRL = 0x15"
| "cmd_code CMD_LIST_KEYS = 0x20" | "cmd_code CMD_GEN_KEY = 0x21" | "cmd_code CMD_GEN_KEY_CSR = 0x22"
| "cmd_code CMD_GET_KEY_CSR = 0x23" | "cmd_code CMD_PUSH_KEY_CERT = 0x24" | "cmd_code CMD_SIGN_KEY_SLOT = 0x25"
| "cmd_code CMD_PUSH_KEY_X509 = 0x26" | "cmd_code CMD_DELETE_KEY = 0x27" | "cmd_code CMD_PROTECT_SLOT = 0x28"
| "cmd_code CMD_UNPROTECT_SLOT = 0x29" | "cmd_code CMD_SIGN_CSR_SLOT = 0x2A"
| "cmd_code CMD_DEVICE_STATUS = 0x30" | "cmd_code CMD_SET_UNLOCK_SEQ = 0x31" | "cmd_code CMD_RESET_DEVICE = 0x32"
| "cmd_code CMD_UPDATE_FIRMWARE = 0x33" | "cmd_code CMD_PROVISION_CA = 0x34"
| "cmd_code CMD_GET_RANDOM = 0x40" | "cmd_code CMD_GET_RANDOM_NAMES = 0x50"
| "cmd_code CMD_GET_SESSION_CERT = 0x60" | "cmd_code CMD_GET_SESSION_CSR = 0x61"
| "cmd_code CMD_SIGN_SESSION_FROM_SLOT = 0x62" | "cmd_code CMD_PUSH_SESSION_CERT = 0x63"
| "cmd_code CMD_LIST_CLIENTS = 0x70" | "cmd_code CMD_UNPAIR_CLIENT = 0x71" | "cmd_code CMD_SET_CLIENT_NAME = 0x72"
| "cmd_code CMD_PAIRING_PASSKEY_REPLY = 0x73"

definition all_cmds :: "cantil_cmd list" where
  "all_cmds =
    [CMD_SIGN_CSR, CMD_GET_CA_CERT, CMD_GET_CA_CHAIN, CMD_GET_CA_SERIAL, CMD_GET_CA_CSR, CMD_PUSH_CA_CERT,
     CMD_LIST_CERTS, CMD_GET_CERT, CMD_GET_CERT_COUNT, CMD_REVOKE_CERT, CMD_AUTO_EXPIRE, CMD_GET_CRL,
     CMD_LIST_KEYS, CMD_GEN_KEY, CMD_GEN_KEY_CSR, CMD_GET_KEY_CSR, CMD_PUSH_KEY_CERT, CMD_SIGN_KEY_SLOT,
     CMD_PUSH_KEY_X509, CMD_DELETE_KEY, CMD_PROTECT_SLOT, CMD_UNPROTECT_SLOT, CMD_SIGN_CSR_SLOT,
     CMD_DEVICE_STATUS, CMD_SET_UNLOCK_SEQ, CMD_RESET_DEVICE, CMD_UPDATE_FIRMWARE, CMD_PROVISION_CA,
     CMD_GET_RANDOM, CMD_GET_RANDOM_NAMES,
     CMD_GET_SESSION_CERT, CMD_GET_SESSION_CSR, CMD_SIGN_SESSION_FROM_SLOT, CMD_PUSH_SESSION_CERT,
     CMD_LIST_CLIENTS, CMD_UNPAIR_CLIENT, CMD_SET_CLIENT_NAME, CMD_PAIRING_PASSKEY_REPLY]"

text \<open>
  The switch converts the code to the enumeration first.  The width of that type is the
  ABI's choice (one byte with short enumerations, four without), so it is an argument.
\<close>

definition cmd_of :: "nat \<Rightarrow> 32 word \<Rightarrow> cantil_cmd option" where
  "cmd_of cmd_bits cmd = find (\<lambda>c. cmd_code c = take_bit cmd_bits cmd) all_cmds"

datatype proto_err =
    ERR_OK | ERR_DEVICE_LOCKED | ERR_INVALID_CMD | ERR_INVALID_ARGS | ERR_STORAGE | ERR_CRYPTO | ERR_NOT_FOUND
  | ERR_NO_SLOTS | ERR_BUSY | ERR_IDENTITY_MISMATCH | ERR_AUTH | ERR_PASSKEY_REQUIRED | ERR_FW_UPDATE_BUSY
  | ERR_FW_UPDATE_FLASH | ERR_FW_UPDATE_ARGS | ERR_NOT_PROVISIONED | ERR_ALREADY_PROVISIONED | ERR_VOLUME_INVALID

fun err_code :: "proto_err \<Rightarrow> 32 word" where
  "err_code ERR_OK = 0" | "err_code ERR_DEVICE_LOCKED = 1" | "err_code ERR_INVALID_CMD = 2"
| "err_code ERR_INVALID_ARGS = 3" | "err_code ERR_STORAGE = 4" | "err_code ERR_CRYPTO = 5"
| "err_code ERR_NOT_FOUND = 6" | "err_code ERR_NO_SLOTS = 7" | "err_code ERR_BUSY = 8"
| "err_code ERR_IDENTITY_MISMATCH = 9" | "err_code ERR_AUTH = 10" | "err_code ERR_PASSKEY_REQUIRED = 11"
| "err_code ERR_FW_UPDATE_BUSY = 12" | "err_code ERR_FW_UPDATE_FLASH = 13" | "err_code ERR_FW_UPDATE_ARGS = 14"
| "err_code ERR_NOT_PROVISIONED = 15" | "err_code ERR_ALREADY_PROVISIONED = 16" | "err_code ERR_VOLUME_INVALID = 17"

subsection \<open>The appliance\<close>

datatype host_cb = protect_confirm_cb | reset_confirm_cb | pair_confirm_cb

record ('fs, 'k, 'r) proto_env =
  pe_dev :: "('fs, 'k, 'r) dev_env"
  pe_gest :: gconf
  pe_names :: name_tables
  storage_external :: bool
  revoke_require_now_unix :: bool
  cmd_bits :: nat

record ('fs, 'r, 't) appliance =
  ap_dev :: "('fs, 'r) dev_state"
  ap_gest :: "(host_cb, 'fs) device"
  ap_user :: "host_cb event list"
  ap_sess :: cantil_session
  ap_link :: 't

abbreviation pe_ca :: "('fs, 'k, 'r) proto_env \<Rightarrow> ('fs, 'k, 'r) ca_env" where "pe_ca P \<equiv> dv_ca (pe_dev P)"
abbreviation pe_fs :: "('fs, 'k, 'r) proto_env \<Rightarrow> 'fs fs_api" where "pe_fs P \<equiv> env_fs (pe_ca P)"
abbreviation ap_ca :: "('fs, 'r, 't) appliance \<Rightarrow> ('fs, 'r) ca_state" where "ap_ca A \<equiv> ds_ca (ap_dev A)"
abbreviation ap_fs :: "('fs, 'r, 't) appliance \<Rightarrow> 'fs" where "ap_fs A \<equiv> ds_fs (ap_dev A)"

definition put_ca :: "('fs, 'r) ca_state \<Rightarrow> ('fs, 'r, 't) appliance \<Rightarrow> ('fs, 'r, 't) appliance" where
  "put_ca C A = A\<lparr>ap_dev := (ap_dev A)\<lparr>ds_ca := C\<rparr>\<rparr>"

definition put_ap_fs :: "'fs \<Rightarrow> ('fs, 'r, 't) appliance \<Rightarrow> ('fs, 'r, 't) appliance" where
  "put_ap_fs s A = put_ca (put_fs s (ap_ca A)) A"

definition to_gest :: "('fs, 'r, 't) appliance \<Rightarrow> (host_cb, 'fs) device" where
  "to_gest A = (ap_gest A)\<lparr>gest := (gest (ap_gest A))\<lparr>gfs := ap_fs A\<rparr>\<rparr>"

definition from_gest :: "(host_cb, 'fs) device \<Rightarrow> ('fs, 'r, 't) appliance \<Rightarrow> ('fs, 'r, 't) appliance" where
  "from_gest d A = put_ap_fs (gfs (gest d)) (A\<lparr>ap_gest := d\<rparr>)"

datatype reboot = Cold | Uf2_bootloader

datatype handled = Respond proto_err "byte list" | Rebooting reboot

text \<open>A task on the appliance ends with a result, or does not end.\<close>

type_synonym ('fs, 'r, 't, 'h) task = "('fs, 'r, 't) appliance \<Rightarrow> ('h \<times> ('fs, 'r, 't) appliance) option"

type_synonym ('fs, 'r, 't) handler = "('fs, 'r, 't, handled) task"

definition answer :: "proto_err \<Rightarrow> byte list \<Rightarrow> ('fs, 'r, 't) handler" where
  "answer err resp A = Some (Respond err resp, A)"

text \<open>
  Running an operation of a component on its part of the appliance, with a continuation
  that gets its result.  \<open>run_fs\<close> takes the operations that may not return.
\<close>

definition run_ca :: "(('fs, 'r) ca_state, 'a) act \<Rightarrow> ('a res \<Rightarrow> ('fs, 'r, 't, 'h) task) \<Rightarrow> ('fs, 'r, 't, 'h) task" where
  "run_ca m k A = (case m (ap_ca A) of (x, C) \<Rightarrow> k x (put_ca C A))"

definition run_dev :: "(('fs, 'r) dev_state, 'a) act \<Rightarrow> ('a res \<Rightarrow> ('fs, 'r, 't, 'h) task) \<Rightarrow> ('fs, 'r, 't, 'h) task" where
  "run_dev m k A = (case m (ap_dev A) of (x, D) \<Rightarrow> k x (A\<lparr>ap_dev := D\<rparr>))"

definition run_fs :: "('fs \<Rightarrow> ('a \<times> 'fs) option) \<Rightarrow> ('a \<Rightarrow> ('fs, 'r, 't, 'h) task) \<Rightarrow> ('fs, 'r, 't, 'h) task" where
  "run_fs m k A = Option.bind (m (ap_fs A)) (\<lambda>(x, s). k x (put_ap_fs s A))"

definition run_gest :: "(int \<Rightarrow> (host_cb, 'fs) gesture \<Rightarrow> 'a \<times> (host_cb, 'fs) gesture) \<Rightarrow> ('a \<Rightarrow> ('fs, 'r, 't, 'h) task)
    \<Rightarrow> ('fs, 'r, 't, 'h) task" where
  "run_gest m k A =
    (let d = to_gest A in case m (clock d) (gest d) of (x, g) \<Rightarrow> k x (from_gest (d\<lparr>gest := g\<rparr>) A))"

definition run_send :: "('fs, 'k, 'r) proto_env \<Rightarrow> 't transport \<Rightarrow> byte list \<Rightarrow> (errno option \<Rightarrow> ('fs, 'r, 't, 'h) task)
    \<Rightarrow> ('fs, 'r, 't, 'h) task" where
  "run_send P T msg k A =
    (case session_send (dv_noise (pe_dev P)) T (ap_sess A) msg (ap_link A) of
       (rc, sess, t) \<Rightarrow> k rc (A\<lparr>ap_sess := sess, ap_link := t\<rparr>))"

text \<open>
  Waiting on the semaphore that a confirm callback gives: the events up to the first one
  that delivers an answer.  \<open>None\<close> when no answer comes or the power is cut.
\<close>

fun await_answer :: "'fs fs_api \<Rightarrow> gconf \<Rightarrow> host_cb event list \<Rightarrow> (host_cb, 'fs) device
    \<Rightarrow> (cantil_confirm_result \<times> host_cb event list \<times> (host_cb, 'fs) device) option" where
  "await_answer F c [] d = None"
| "await_answer F c (e # es) d =
    (if e = Reboot then None
     else Option.bind (do_event F c e d) (\<lambda>d'.
       if delivered (gest d') = delivered (gest d) then await_answer F c es d'
       else Some (snd (last (delivered (gest d'))), es, d')))"

definition run_wait :: "('fs, 'k, 'r) proto_env \<Rightarrow> (cantil_confirm_result \<Rightarrow> ('fs, 'r, 't, 'h) task) \<Rightarrow> ('fs, 'r, 't, 'h) task" where
  "run_wait P k A =
    Option.bind (await_answer (pe_fs P) (pe_gest P) (ap_user A) (to_gest A)) (\<lambda>(r, es, d).
      k r (from_gest d (A\<lparr>ap_user := es\<rparr>)))"

subsection \<open>Handlers\<close>

definition MSG_BUF_SIZE :: nat where "MSG_BUF_SIZE = 4096"
definition RESP_MAX :: nat where "RESP_MAX = MSG_BUF_SIZE - 2"
definition STATUS_WIRE_LEN :: nat where "STATUS_WIRE_LEN = 28"

text \<open>
  The response of a handler that fails without setting \<open>resp_data_len\<close>: the whole of the
  uninitialised buffer.  Its content does not matter, since it does not fit the message.
\<close>

definition resp_unset :: "byte list" where "resp_unset = replicate RESP_MAX 0"

definition be32 :: "byte list \<Rightarrow> nat" where "be32 data = be_nat (take 4 data)"
definition be64 :: "byte list \<Rightarrow> 64 word" where "be64 data = word_of_nat (be_nat (take 8 data))"
definition put_be32 :: "nat \<Rightarrow> byte list" where "put_be32 v = be_bytes 4 v"

definition handle_sign_csr :: "('fs, 'k, 'r) proto_env \<Rightarrow> byte list \<Rightarrow> ('fs, 'r, 't) handler" where
  "handle_sign_csr P req =
    run_ca (sign_csr_der (pe_ca P) CA_SLOT req RESP_MAX) (\<lambda>r.
      case r of
        Inl _ \<Rightarrow> answer ERR_CRYPTO resp_unset
      | Inr (serial, cn, der) \<Rightarrow>
          run_ca (register_cert (pe_fs P) CA_SLOT serial cn der) (\<lambda>rc.
            answer (case rc of Inr _ \<Rightarrow> ERR_OK | Inl _ \<Rightarrow> ERR_CRYPTO) der))"

definition read_or :: "proto_err \<Rightarrow> byte list \<Rightarrow> ('fs \<Rightarrow> byte list res) \<Rightarrow> ('fs, 'r, 't) handler" where
  "read_or err unset f A =
    (case f (ap_fs A) of Inr out \<Rightarrow> answer ERR_OK out A | Inl _ \<Rightarrow> answer err unset A)"

definition handle_get_ca_cert :: "('fs, 'k, 'r) proto_env \<Rightarrow> ('fs, 'r, 't) handler" where
  "handle_get_ca_cert P = read_or ERR_STORAGE resp_unset (ca_get_cert (pe_fs P) RESP_MAX)"

definition volume_byte :: "volume_state \<Rightarrow> byte" where
  "volume_byte st = (case st of VOLUME_VALID \<Rightarrow> 0 | VOLUME_UNMARKED \<Rightarrow> 1 | VOLUME_MISMATCH \<Rightarrow> 2)"

definition bool_byte :: "bool \<Rightarrow> byte" where "bool_byte b = (if b then 1 else 0)"

definition status_bytes :: "('fs, 'k, 'r) proto_env \<Rightarrow> cantil_state \<Rightarrow> ('fs, 'r) ca_state \<Rightarrow> byte list" where
  "status_bytes P st C =
    (let slots_used = storage_count_slots_used (pe_fs P) (max_key_slots (pe_ca P)) (ca_fs C);
         certs_stored = (case storage_count_issued_certs (pe_fs P) (ca_fs C) of Inr n \<Rightarrow> n | Inl _ \<Rightarrow> 0);
         flash_free = (case storage_free_kb (pe_fs P) (ca_fs C) of Inr n \<Rightarrow> unat n | Inl _ \<Rightarrow> 0)
     in [0, 1, 0, bool_byte (st = CANTIL_STATE_LOCKED)] @ put_be32 certs_stored @ put_be32 certs_stored
        @ put_be32 slots_used @ put_be32 (max_key_slots (pe_ca P)) @ put_be32 flash_free
        @ [0, bool_byte (storage_external P), bool_byte (ca_provisioned (pe_ca P) C), volume_byte (volume_state (ca_vol C))])"

definition handle_device_status :: "('fs, 'k, 'r) proto_env \<Rightarrow> ('fs, 'r, 't) handler" where
  "handle_device_status P =
    run_gest (gesture_get_state (pe_gest P)) (\<lambda>st A. answer ERR_OK (status_bytes P st (ap_ca A)) A)"

definition handle_get_random :: "('fs, 'k, 'r) proto_env \<Rightarrow> byte list \<Rightarrow> ('fs, 'r, 't) handler" where
  "handle_get_random P req =
    (if length req < 2 then answer ERR_INVALID_ARGS resp_unset
     else
       let n = be_nat (take 2 req) in
       if n > RESP_MAX then answer ERR_INVALID_ARGS resp_unset
       else run_ca (rng_do (crypto_trng (env_wc (pe_ca P)) n)) (\<lambda>r.
         case r of Inl _ \<Rightarrow> answer ERR_CRYPTO resp_unset | Inr bs \<Rightarrow> answer ERR_OK bs))"

definition handle_get_random_names :: "('fs, 'k, 'r) proto_env \<Rightarrow> byte list \<Rightarrow> ('fs, 'r, 't) handler" where
  "handle_get_random_names P req =
    (if length req < 2 then answer ERR_INVALID_ARGS resp_unset
     else run_ca (rng_do (names_get_random_batch (env_wc (pe_ca P)) (pe_names P) (be_nat (take 2 req)) RESP_MAX)) (\<lambda>r.
       case r of Inl _ \<Rightarrow> answer ERR_CRYPTO resp_unset | Inr bs \<Rightarrow> answer ERR_OK bs))"

text \<open>The continuation is what the dispatcher does with the error code.\<close>

definition await_protect_confirm :: "('fs, 'k, 'r) proto_env \<Rightarrow> (proto_err \<Rightarrow> ('fs, 'r, 't) handler) \<Rightarrow> ('fs, 'r, 't) handler" where
  "await_protect_confirm P k =
    run_gest (\<lambda>now. gesture_request_confirm (pe_gest P) now protect_confirm_cb) (\<lambda>rc.
      case rc of
        Some e \<Rightarrow> if e = EBUSY \<or> e = EALREADY then k ERR_BUSY else k ERR_INVALID_CMD
      | None \<Rightarrow> run_wait P (\<lambda>r. if r \<noteq> CANTIL_CONFIRM_OK then k ERR_BUSY else k ERR_OK))"

text \<open>A command that needs the confirm gesture: the operation runs only after it.\<close>

definition confirmed :: "('fs, 'k, 'r) proto_env \<Rightarrow> ('fs, 'r, 't) handler \<Rightarrow> ('fs, 'r, 't) handler" where
  "confirmed P h = await_protect_confirm P (\<lambda>err. if err = ERR_OK then h else answer err [])"

definition send_ack :: "('fs, 'k, 'r) proto_env \<Rightarrow> 't transport \<Rightarrow> 32 word \<Rightarrow> ('fs, 'r, 't) handler \<Rightarrow> ('fs, 'r, 't) handler" where
  "send_ack P T seq k =
    (case encode_response 32 seq (err_code ERR_OK) [] of Inl _ \<Rightarrow> k | Inr ack \<Rightarrow> run_send P T ack (\<lambda>_. k))"

definition run_led :: "((host_cb, 'fs) gesture \<Rightarrow> (host_cb, 'fs) gesture) \<Rightarrow> ('fs, 'r, 't, 'h) task \<Rightarrow> ('fs, 'r, 't, 'h) task" where
  "run_led f k = run_gest (\<lambda>_ g. ((), f g)) (\<lambda>_. k)"

definition vol_wipe :: "('fs, 'k, 'r) proto_env \<Rightarrow> (errno option \<Rightarrow> ('fs, 'r, 't) handler) \<Rightarrow> ('fs, 'r, 't) handler" where
  "vol_wipe P k A =
    Option.bind (storage_secure_wipe (pe_fs P) (ca_vol (ap_ca A))) (\<lambda>(rc, v). k rc (put_ca ((ap_ca A)\<lparr>ca_vol := v\<rparr>) A))"

definition wipe_and_reboot :: "('fs, 'k, 'r) proto_env \<Rightarrow> ('fs, 'r, 't) handler" where
  "wipe_and_reboot P =
    run_led (led_set_idle LED_PATTERN_RESET_WIPING) (vol_wipe P (\<lambda>rc.
      if rc \<noteq> None then answer ERR_VOLUME_INVALID []
      else run_led (led_play_oneshot LED_PATTERN_RESET_COMPLETE) (\<lambda>A. Some (Rebooting Cold, A))))"

definition handle_reset_device :: "('fs, 'k, 'r) proto_env \<Rightarrow> 't transport \<Rightarrow> 32 word \<Rightarrow> ('fs, 'r, 't) handler" where
  "handle_reset_device P T seq =
    run_gest (\<lambda>now. gesture_request_reset (pe_gest P) now reset_confirm_cb) (\<lambda>ret.
      case ret of
        Some e \<Rightarrow> if e = EBUSY then answer ERR_BUSY [] else answer ERR_INVALID_CMD []
      | None \<Rightarrow>
          send_ack P T seq (run_wait P (\<lambda>r.
            if r \<noteq> CANTIL_CONFIRM_OK then answer ERR_BUSY [] else wipe_and_reboot P)))"

definition handle_update_firmware :: "('fs, 'k, 'r) proto_env \<Rightarrow> 't transport \<Rightarrow> 32 word \<Rightarrow> ('fs, 'r, 't) handler" where
  "handle_update_firmware P T seq = send_ack P T seq (\<lambda>A. Some (Rebooting Uf2_bootloader, A))"

subsection \<open>The cases of the switch\<close>

text \<open>How a case turns the result of its operation into an error code.\<close>

definition rc_err :: "(errno \<times> proto_err) list \<Rightarrow> proto_err \<Rightarrow> errno \<Rightarrow> proto_err" where
  "rc_err tbl other e = (case map_of tbl e of Some err \<Rightarrow> err | None \<Rightarrow> other)"

definition finish :: "(errno \<times> proto_err) list \<Rightarrow> proto_err \<Rightarrow> 'a res \<Rightarrow> ('fs, 'r, 't) handler" where
  "finish tbl other r = answer (case r of Inr _ \<Rightarrow> ERR_OK | Inl e \<Rightarrow> rc_err tbl other e) []"

definition finish_rc :: "(errno \<times> proto_err) list \<Rightarrow> proto_err \<Rightarrow> errno option \<Rightarrow> ('fs, 'r, 't) handler" where
  "finish_rc tbl other r = answer (case r of None \<Rightarrow> ERR_OK | Some e \<Rightarrow> rc_err tbl other e) []"

definition finish_data :: "(errno \<times> proto_err) list \<Rightarrow> proto_err \<Rightarrow> byte list res \<Rightarrow> ('fs, 'r, 't) handler" where
  "finish_data tbl other r = (case r of Inr out \<Rightarrow> answer ERR_OK out | Inl e \<Rightarrow> answer (rc_err tbl other e) [])"

definition reads :: "('fs \<Rightarrow> byte list res) \<Rightarrow> (byte list res \<Rightarrow> ('fs, 'r, 't) handler) \<Rightarrow> ('fs, 'r, 't) handler" where
  "reads f k A = k (f (ap_fs A)) A"

abbreviation bad_args :: "('fs, 'r, 't) handler" where "bad_args \<equiv> answer ERR_INVALID_ARGS []"

definition do_get_ca_chain :: "('fs, 'k, 'r) proto_env \<Rightarrow> byte list \<Rightarrow> ('fs, 'r, 't) handler" where
  "do_get_ca_chain P data =
    (if length data \<noteq> 4 \<and> length data \<noteq> 0 then bad_args
     else reads (ca_get_chain_slot (pe_ca P) (if length data = 4 then be32 data else 0) RESP_MAX)
       (finish_data [(ENOENT, ERR_NOT_FOUND), (EINVAL, ERR_INVALID_ARGS)] ERR_STORAGE))"

definition do_get_session_cert :: "('fs, 'k, 'r) proto_env \<Rightarrow> ('fs, 'r, 't) handler" where
  "do_get_session_cert P A =
    finish_data [(ENOENT, ERR_NOT_FOUND)] ERR_STORAGE (session_slot_get_cert (pe_dev P) RESP_MAX (ap_dev A)) A"

definition do_get_session_csr :: "('fs, 'k, 'r) proto_env \<Rightarrow> ('fs, 'r, 't) handler" where
  "do_get_session_csr P =
    run_dev (session_slot_get_csr (pe_dev P) RESP_MAX)
      (finish_data [(ENOENT, ERR_NOT_FOUND), (EINVAL, ERR_INVALID_ARGS), (ENOMEM, ERR_STORAGE)] ERR_CRYPTO)"

abbreviation session_errs :: "(errno \<times> proto_err) list" where
  "session_errs \<equiv> [(ENOENT, ERR_NOT_FOUND), (EEXIST, ERR_INVALID_ARGS), (EINVAL, ERR_INVALID_ARGS), (ENOMEM, ERR_STORAGE)]"

definition do_sign_session_from_slot :: "('fs, 'k, 'r) proto_env \<Rightarrow> byte list \<Rightarrow> ('fs, 'r, 't) handler" where
  "do_sign_session_from_slot P data =
    (if length data < 5 then bad_args
     else
       let issuer_slot = be32 data; force = (data ! 4 \<noteq> 0) in
       if issuer_slot \<ge> max_key_slots (pe_ca P) then bad_args
       else confirmed P (run_dev (session_slot_sign_from_slot (pe_dev P) issuer_slot force) (finish session_errs ERR_CRYPTO)))"

definition do_push_session_cert :: "('fs, 'k, 'r) proto_env \<Rightarrow> byte list \<Rightarrow> ('fs, 'r, 't) handler" where
  "do_push_session_cert P data =
    (if length data < 3 then bad_args
     else
       let force = (data ! 0 \<noteq> 0); cert_len = be_nat (take 2 (drop 1 data)) in
       if 3 + cert_len > length data then bad_args
       else
         let cert = take cert_len (drop 3 data); chain = drop (3 + cert_len) data in
         confirmed P (run_dev (session_slot_push_cert (pe_dev P) cert chain force) (finish session_errs ERR_CRYPTO)))"

definition do_push_ca_cert :: "('fs, 'k, 'r) proto_env \<Rightarrow> byte list \<Rightarrow> ('fs, 'r, 't) handler" where
  "do_push_ca_cert P data = run_fs (Some \<circ> ca_push_cert (pe_fs P) data []) (finish_rc [] ERR_STORAGE)"

definition do_get_cert_count :: "('fs, 'k, 'r) proto_env \<Rightarrow> ('fs, 'r, 't) handler" where
  "do_get_cert_count P A =
    (case ca_get_cert_count (pe_fs P) (ap_fs A) of
       Inr count \<Rightarrow> answer ERR_OK (put_be32 count) A
     | Inl _ \<Rightarrow> answer ERR_STORAGE (put_be32 0) A)"

definition do_auto_expire :: "('fs, 'k, 'r) proto_env \<Rightarrow> byte list \<Rightarrow> ('fs, 'r, 't) handler" where
  "do_auto_expire P data =
    (if length data < 8 then bad_args
     else run_fs (Some \<circ> ca_auto_expire (pe_fs P) (be64 data)) (\<lambda>r.
       case r of Inr count \<Rightarrow> answer ERR_OK (put_be32 (unat count)) | Inl _ \<Rightarrow> answer ERR_STORAGE (put_be32 0)))"

definition do_revoke_cert :: "('fs, 'k, 'r) proto_env \<Rightarrow> byte list \<Rightarrow> ('fs, 'r, 't) handler" where
  "do_revoke_cert P data =
    (if length data < 2 then bad_args
     else
       let sl = unat (data ! 0) in
       if sl = 0 \<or> sl > 20 \<or> sl + 1 > length data then bad_args
       else
         let serial = take sl (drop 1 data);
             tail = length data - 1 - sl;
             now_unix = (if tail = 8 then be64 (drop (1 + sl) data) else 0)
         in if tail \<noteq> 8 \<and> tail \<noteq> 0 then bad_args
            else if revoke_require_now_unix P \<and> (tail \<noteq> 8 \<or> now_unix = 0) then bad_args
            else run_fs (Some \<circ> ca_revoke_cert (pe_fs P) serial now_unix)
              (finish_rc [(EINVAL, ERR_INVALID_ARGS), (EACCES, ERR_INVALID_ARGS), (ENOENT, ERR_NOT_FOUND), (EALREADY, ERR_INVALID_ARGS)]
                ERR_STORAGE))"

definition do_get_crl :: "('fs, 'k, 'r) proto_env \<Rightarrow> byte list \<Rightarrow> ('fs, 'r, 't) handler" where
  "do_get_crl P data =
    (if length data \<noteq> 12 then bad_args
     else
       let slot = be32 data; now = be64 (drop 4 data) in
       if slot \<ge> max_key_slots (pe_ca P) then bad_args
       else reads (ca_get_crl (pe_ca P) slot now RESP_MAX)
         (finish_data [(EINVAL, ERR_INVALID_ARGS), (ENOENT, ERR_NOT_FOUND)] ERR_STORAGE))"

definition do_gen_key :: "('fs, 'k, 'r) proto_env \<Rightarrow> byte list \<Rightarrow> ('fs, 'r, 't) handler" where
  "do_gen_key P data =
    run_ca (ca_gen_key (pe_ca P) (if length data > 0 then data ! 0 else 0)) (\<lambda>r.
      case r of
        Inr slot_id \<Rightarrow> answer ERR_OK (put_be32 slot_id)
      | Inl e \<Rightarrow> answer (rc_err [(ENOSPC, ERR_NO_SLOTS), (ENOTSUP, ERR_INVALID_ARGS), (EINVAL, ERR_INVALID_ARGS),
          (EPERM, ERR_VOLUME_INVALID)] ERR_CRYPTO e) (put_be32 0))"

definition do_protect_slot :: "('fs, 'k, 'r) proto_env \<Rightarrow> byte list \<Rightarrow> ('fs, 'r, 't) handler" where
  "do_protect_slot P data =
    (if length data < 5 then bad_args
     else confirmed P (run_fs (Some \<circ> ca_protect_slot (pe_ca P) (be32 data) (data ! 4 \<noteq> 0))
       (finish_rc [(ENOENT, ERR_NOT_FOUND), (EINVAL, ERR_INVALID_ARGS)] ERR_STORAGE)))"

definition do_unprotect_slot :: "('fs, 'k, 'r) proto_env \<Rightarrow> byte list \<Rightarrow> ('fs, 'r, 't) handler" where
  "do_unprotect_slot P data =
    (if length data < 4 then bad_args
     else confirmed P (run_fs (Some \<circ> ca_unprotect_slot (pe_ca P) (be32 data))
       (finish_rc [(ENOENT, ERR_NOT_FOUND), (EINVAL, ERR_INVALID_ARGS)] ERR_STORAGE)))"

definition do_delete_key :: "('fs, 'k, 'r) proto_env \<Rightarrow> byte list \<Rightarrow> ('fs, 'r, 't) handler" where
  "do_delete_key P data =
    (if length data < 4 then bad_args
     else run_fs (ca_delete_key (pe_ca P) (be32 data))
       (finish_rc [(EPERM, ERR_DEVICE_LOCKED), (EACCES, ERR_DEVICE_LOCKED), (ENOENT, ERR_NOT_FOUND), (EINVAL, ERR_INVALID_ARGS)]
         ERR_STORAGE))"

text \<open>The name is the C string in an array of 256 bytes.\<close>

definition do_gen_key_csr :: "('fs, 'k, 'r) proto_env \<Rightarrow> byte list \<Rightarrow> ('fs, 'r, 't) handler" where
  "do_gen_key_csr P data =
    (if length data < 5 then bad_args
     else
       let dn_max = length data - 4 in
       if dn_max = 0 \<or> dn_max \<ge> 256 then bad_args
       else run_ca (ca_gen_key_csr (pe_ca P) (be32 data) (cstr (drop 4 data)))
         (finish [(ENOENT, ERR_NOT_FOUND), (EINVAL, ERR_INVALID_ARGS)] ERR_CRYPTO))"

definition do_get_key_csr :: "('fs, 'k, 'r) proto_env \<Rightarrow> byte list \<Rightarrow> ('fs, 'r, 't) handler" where
  "do_get_key_csr P data =
    (if length data < 4 then bad_args
     else reads (ca_get_key_csr (pe_fs P) (be32 data) RESP_MAX) (finish_data [(ENOENT, ERR_NOT_FOUND)] ERR_STORAGE))"

definition do_sign_csr_slot :: "('fs, 'k, 'r) proto_env \<Rightarrow> byte list \<Rightarrow> ('fs, 'r, 't) handler" where
  "do_sign_csr_slot P data =
    (if length data < 5 then bad_args
     else
       let issuer = be32 data in
       if issuer \<ge> max_key_slots (pe_ca P) then bad_args
       else run_ca (ca_sign_csr_slot (pe_ca P) issuer (drop 4 data) RESP_MAX)
         (finish_data [(ENOENT, ERR_NOT_FOUND), (EINVAL, ERR_INVALID_ARGS)] ERR_CRYPTO))"

definition do_sign_key_slot :: "('fs, 'k, 'r) proto_env \<Rightarrow> byte list \<Rightarrow> ('fs, 'r, 't) handler" where
  "do_sign_key_slot P data =
    (if length data < 8 then bad_args
     else
       let issuer = be32 data; subject = be32 (drop 4 data) in
       if issuer \<ge> max_key_slots (pe_ca P) then bad_args
       else run_ca (ca_sign_key_slot (pe_ca P) issuer subject)
         (finish [(ENOENT, ERR_NOT_FOUND), (EINVAL, ERR_INVALID_ARGS)] ERR_CRYPTO))"

definition do_push_key_cert :: "('fs, 'k, 'r) proto_env \<Rightarrow> byte list \<Rightarrow> ('fs, 'r, 't) handler" where
  "do_push_key_cert P data =
    (if length data < 6 then bad_args
     else
       let slot_id = be32 data; cert_len = be_nat (take 2 (drop 4 data)) in
       if 6 + cert_len > length data then bad_args
       else
         let cert = take cert_len (drop 6 data); chain = drop (6 + cert_len) data in
         run_fs (Some \<circ> ca_push_key_cert (pe_ca P) slot_id cert chain)
           (finish_rc [(EACCES, ERR_DEVICE_LOCKED), (ENOENT, ERR_NOT_FOUND), (EINVAL, ERR_INVALID_ARGS)] ERR_CRYPTO))"

definition do_push_key_x509 :: "('fs, 'k, 'r) proto_env \<Rightarrow> byte list \<Rightarrow> ('fs, 'r, 't) handler" where
  "do_push_key_x509 P data =
    (if length data < 4 then bad_args
     else run_ca (ca_push_key_x509 (pe_ca P) (be32 data) (drop 4 data))
       (finish [(EACCES, ERR_DEVICE_LOCKED), (EINVAL, ERR_INVALID_ARGS)] ERR_CRYPTO))"

definition do_set_unlock_seq :: "('fs, 'k, 'r) proto_env \<Rightarrow> byte list \<Rightarrow> ('fs, 'r, 't) handler" where
  "do_set_unlock_seq P data =
    (if data = [] then bad_args
     else run_gest (\<lambda>_. gesture_set_unlock_seq (pe_fs P) (pe_gest P) (Some data) (word_of_nat (length data)))
       (finish_rc [(EBUSY, ERR_BUSY), (EINVAL, ERR_INVALID_ARGS)] ERR_STORAGE))"

definition do_provision_ca :: "('fs, 'k, 'r) proto_env \<Rightarrow> byte list \<Rightarrow> ('fs, 'r, 't) handler" where
  "do_provision_ca P data A =
    (let key_type = (if length data > 0 then data ! 0 else 0) in
     if ca_provisioned (pe_ca P) (ap_ca A) then answer ERR_ALREADY_PROVISIONED [] A
     else confirmed P (run_ca (ca_provision (pe_ca P) key_type) (\<lambda>r.
       case r of
         Inr _ \<Rightarrow> answer ERR_OK [0, 0, 0, 0]
       | Inl e \<Rightarrow> answer (rc_err [(EEXIST, ERR_ALREADY_PROVISIONED), (ENOTSUP, ERR_INVALID_ARGS), (EINVAL, ERR_INVALID_ARGS),
           (EPERM, ERR_VOLUME_INVALID)] ERR_CRYPTO e) [])) A)"

definition do_unpair_client :: "('fs, 'k, 'r) proto_env \<Rightarrow> byte list \<Rightarrow> ('fs, 'r, 't) handler" where
  "do_unpair_client P data =
    (if length data \<noteq> 32 then bad_args
     else confirmed P (run_fs (client_bond_remove (pe_fs P) data) (finish_rc [(ENOENT, ERR_NOT_FOUND)] ERR_STORAGE)))"

definition do_set_client_name :: "('fs, 'k, 'r) proto_env \<Rightarrow> byte list \<Rightarrow> ('fs, 'r, 't) handler" where
  "do_set_client_name P data =
    (if length data < 33 \<or> length data > 32 + CLIENT_META_NAME_MAX - 1 then bad_args
     else run_fs (Some \<circ> client_bond_set_name (pe_fs P) (take 32 data) (drop 32 data))
       (finish_rc [(ENOENT, ERR_NOT_FOUND), (EINVAL, ERR_INVALID_ARGS)] ERR_STORAGE))"

definition dispatch :: "('fs, 'k, 'r) proto_env \<Rightarrow> 't transport \<Rightarrow> 32 word \<Rightarrow> 32 word \<Rightarrow> byte list \<Rightarrow> ('fs, 'r, 't) handler" where
  "dispatch P T cmd seq data =
    (case cmd_of (cmd_bits P) cmd of
       None \<Rightarrow> answer ERR_INVALID_CMD []
     | Some c \<Rightarrow> (case c of
         CMD_SIGN_CSR \<Rightarrow> handle_sign_csr P data
       | CMD_GET_CA_CERT \<Rightarrow> handle_get_ca_cert P
       | CMD_GET_CA_CHAIN \<Rightarrow> do_get_ca_chain P data
       | CMD_GET_CA_SERIAL \<Rightarrow> read_or ERR_STORAGE [] (ca_get_serial (pe_ca P) RESP_MAX)
       | CMD_GET_CA_CSR \<Rightarrow> read_or ERR_STORAGE resp_unset (ca_get_csr (pe_fs P) RESP_MAX)
       | CMD_GET_SESSION_CERT \<Rightarrow> do_get_session_cert P
       | CMD_GET_SESSION_CSR \<Rightarrow> do_get_session_csr P
       | CMD_SIGN_SESSION_FROM_SLOT \<Rightarrow> do_sign_session_from_slot P data
       | CMD_PUSH_SESSION_CERT \<Rightarrow> do_push_session_cert P data
       | CMD_PUSH_CA_CERT \<Rightarrow> do_push_ca_cert P data
       | CMD_LIST_CERTS \<Rightarrow> read_or ERR_STORAGE [] (ca_list_certs (pe_fs P) RESP_MAX)
       | CMD_GET_CERT \<Rightarrow> read_or ERR_NOT_FOUND resp_unset (ca_get_issued_cert (pe_fs P) data RESP_MAX)
       | CMD_GET_CERT_COUNT \<Rightarrow> do_get_cert_count P
       | CMD_AUTO_EXPIRE \<Rightarrow> do_auto_expire P data
       | CMD_REVOKE_CERT \<Rightarrow> do_revoke_cert P data
       | CMD_GET_CRL \<Rightarrow> do_get_crl P data
       | CMD_LIST_KEYS \<Rightarrow> read_or ERR_STORAGE [] (ca_list_keys (pe_ca P) RESP_MAX)
       | CMD_GEN_KEY \<Rightarrow> do_gen_key P data
       | CMD_PROTECT_SLOT \<Rightarrow> do_protect_slot P data
       | CMD_UNPROTECT_SLOT \<Rightarrow> do_unprotect_slot P data
       | CMD_DELETE_KEY \<Rightarrow> do_delete_key P data
       | CMD_GEN_KEY_CSR \<Rightarrow> do_gen_key_csr P data
       | CMD_GET_KEY_CSR \<Rightarrow> do_get_key_csr P data
       | CMD_SIGN_CSR_SLOT \<Rightarrow> do_sign_csr_slot P data
       | CMD_SIGN_KEY_SLOT \<Rightarrow> do_sign_key_slot P data
       | CMD_PUSH_KEY_CERT \<Rightarrow> do_push_key_cert P data
       | CMD_PUSH_KEY_X509 \<Rightarrow> do_push_key_x509 P data
       | CMD_SET_UNLOCK_SEQ \<Rightarrow> do_set_unlock_seq P data
       | CMD_RESET_DEVICE \<Rightarrow> handle_reset_device P T seq
       | CMD_DEVICE_STATUS \<Rightarrow> handle_device_status P
       | CMD_PROVISION_CA \<Rightarrow> do_provision_ca P data
       | CMD_GET_RANDOM \<Rightarrow> handle_get_random P data
       | CMD_GET_RANDOM_NAMES \<Rightarrow> handle_get_random_names P data
       | CMD_LIST_CLIENTS \<Rightarrow> reads (client_bond_list_cbor (pe_fs P) RESP_MAX) (finish_data [] ERR_STORAGE)
       | CMD_UNPAIR_CLIENT \<Rightarrow> do_unpair_client P data
       | CMD_SET_CLIENT_NAME \<Rightarrow> do_set_client_name P data
       | CMD_UPDATE_FIRMWARE \<Rightarrow> handle_update_firmware P T seq
       | CMD_PAIRING_PASSKEY_REPLY \<Rightarrow> answer ERR_INVALID_CMD []))"

subsection \<open>One request\<close>

text \<open>The checks before the switch: the error of the first one that refuses the command.\<close>

definition refused :: "('fs, 'k, 'r) proto_env \<Rightarrow> cantil_state \<Rightarrow> 32 word \<Rightarrow> ('fs, 'r, 't) appliance \<Rightarrow> proto_err option" where
  "refused P st cmd A =
    (if s_in_recovery (ap_dev A) \<and> cmd \<noteq> cmd_code CMD_DEVICE_STATUS \<and> cmd \<noteq> cmd_code CMD_RESET_DEVICE
        \<and> cmd \<noteq> cmd_code CMD_UPDATE_FIRMWARE then Some ERR_IDENTITY_MISMATCH
     else if \<not> storage_volume_trusted (ca_vol (ap_ca A)) \<and> cmd \<noteq> cmd_code CMD_DEVICE_STATUS
        \<and> cmd \<noteq> cmd_code CMD_UPDATE_FIRMWARE then Some ERR_VOLUME_INVALID
     else if st = CANTIL_STATE_LOCKED \<and> cmd \<noteq> cmd_code CMD_DEVICE_STATUS \<and> cmd \<noteq> cmd_code CMD_UPDATE_FIRMWARE
        \<and> \<not> (cmd = cmd_code CMD_RESET_DEVICE \<and> \<not> reset_requires_unlock (pe_gest P)) then Some ERR_DEVICE_LOCKED
     else if cmd \<ge> cmd_code CMD_SIGN_CSR \<and> cmd \<le> cmd_code CMD_PUSH_CA_CERT \<and> \<not> ca_provisioned (pe_ca P) (ap_ca A)
     then Some ERR_NOT_PROVISIONED
     else if (cmd = cmd_code CMD_PROVISION_CA \<or> cmd = cmd_code CMD_GEN_KEY)
        \<and> \<not> storage_volume_may_mint (pe_fs P) (ca_vol (ap_ca A)) then Some ERR_VOLUME_INVALID
     else None)"

definition gated :: "('fs, 'k, 'r) proto_env \<Rightarrow> 't transport \<Rightarrow> 32 word \<Rightarrow> 32 word \<Rightarrow> byte list \<Rightarrow> ('fs, 'r, 't) handler" where
  "gated P T cmd seq data =
    run_gest (gesture_get_state (pe_gest P)) (\<lambda>st A.
      case refused P st cmd A of Some err \<Rightarrow> answer err [] A | None \<Rightarrow> dispatch P T cmd seq data A)"

text \<open>
  How a call of \<open>protocol_handle_one\<close> ends: it returns 0 or an error, or the device
  restarts; \<open>None\<close> when it does not end.  The decoder accepts byte strings whose length wraps
  around; \<open>Out_of_buffer\<close> is a request whose data reaches outside the receive buffer, and what
  a handler reads there is not modelled.
\<close>

datatype outcome = Returned "errno option" | Rebooted reboot | Out_of_buffer

definition send_response :: "('fs, 'k, 'r) proto_env \<Rightarrow> 't transport \<Rightarrow> nat \<Rightarrow> 32 word \<Rightarrow> proto_err \<Rightarrow> byte list
    \<Rightarrow> ('fs, 'r, 't) appliance \<Rightarrow> errno option \<times> ('fs, 'r, 't) appliance" where
  "send_response P T cap seq err data A =
    (case encode_response cap seq (err_code err) data of
       Inl _ \<Rightarrow> (Some ENOMEM, A)
     | Inr tx \<Rightarrow>
         (case session_send (dv_noise (pe_dev P)) T (ap_sess A) tx (ap_link A) of
            (rc, sess, t) \<Rightarrow> (rc, A\<lparr>ap_sess := sess, ap_link := t\<rparr>)))"

text \<open>The bytes that a data pointer and length denote, if they lie in the buffer.\<close>

definition req_data :: "byte list \<Rightarrow> (nat \<times> nat) option \<Rightarrow> byte list option" where
  "req_data rx ref =
    (case ref of None \<Rightarrow> Some [] | Some (p, l) \<Rightarrow> if p + l \<le> length rx then Some (take l (drop p rx)) else None)"

definition handle_request :: "('fs, 'k, 'r) proto_env \<Rightarrow> 't transport \<Rightarrow> byte list \<Rightarrow> ('fs, 'r, 't) appliance
    \<Rightarrow> (outcome \<times> ('fs, 'r, 't) appliance) option" where
  "handle_request P T rx A =
    Option.bind (decode_request size_bits rx) (\<lambda>req.
      case req of
        Inl _ \<Rightarrow> Some (Returned None, snd (send_response P T 16 0 ERR_INVALID_CMD [] A))
      | Inr (cmd, seq, ref) \<Rightarrow>
          (case req_data rx ref of
             None \<Rightarrow> Some (Out_of_buffer, A)
           | Some data \<Rightarrow>
               Option.bind (gated P T cmd seq data A) (\<lambda>(h, A).
                 case h of
                   Respond err resp \<Rightarrow>
                     (case send_response P T MSG_BUF_SIZE seq err resp A of (rc, A) \<Rightarrow> Some (Returned rc, A))
                 | Rebooting k \<Rightarrow> Some (Rebooted k, A))))"

definition protocol_handle_one :: "('fs, 'k, 'r) proto_env \<Rightarrow> 't transport \<Rightarrow> ('fs, 'r, 't) appliance
    \<Rightarrow> (outcome \<times> ('fs, 'r, 't) appliance) option" where
  "protocol_handle_one P T A =
    Option.bind (session_recv (dv_noise (pe_dev P)) T (ap_sess A) MSG_BUF_SIZE (ap_link A)) (\<lambda>(r, sess, t).
      let A = A\<lparr>ap_sess := sess, ap_link := t\<rparr> in
      case r of Inl e \<Rightarrow> Some (Returned (Some e), A) | Inr rx \<Rightarrow> handle_request P T rx A)"

end
