(* ===== verification/Pairing.thy ===== *)
theory Pairing
  imports Protocol
begin

text \<open>
  The pairing gate of the device, \<open>firmware/src/clients/pairing.c\<close>: what a client whose static
  key the handshake has authenticated must do before its requests are served.

  The source compiles one of six bodies of \<open>pairing_check_and_bond\<close>; here the method is a
  field of the configuration.  The operations run on the appliance of theory \<open>Protocol\<close>.
  Their outcome is \<open>Returned None\<close> for 0, \<open>Returned (Some e)\<close> for an error, and
  \<open>Out_of_buffer\<close> when the reply's data reaches outside the receive buffer.
\<close>

datatype pairing_method =
    PAIRING_PASSKEY | PAIRING_TAP_CONFIRM | PAIRING_TOFU | PAIRING_CA_ANCHOR | PAIRING_CA_ANCHOR_PLUS_PASSKEY
  | PAIRING_PROMISCUOUS

record pair_conf =
  pairing_method :: pairing_method
  pair_caps :: bond_caps
  ca_anchor_slot :: nat
  passkey_blink_pause_ms :: int

type_synonym ('fs, 'r, 't) gate = "('fs, 'r, 't, outcome) task"

definition returns :: "errno option \<Rightarrow> ('fs, 'r, 't) gate" where
  "returns rc A = Some (Returned rc, A)"

abbreviation rejected :: "('fs, 'r, 't) gate" where "rejected \<equiv> returns (Some EACCES)"

definition run_rng :: "('r \<Rightarrow> 'a \<times> 'r) \<Rightarrow> ('a \<Rightarrow> ('fs, 'r, 't) gate) \<Rightarrow> ('fs, 'r, 't) gate" where
  "run_rng f k A = (case f (ca_rng (ap_ca A)) of (x, r) \<Rightarrow> k x (put_ca ((ap_ca A)\<lparr>ca_rng := r\<rparr>) A))"

definition run_vol :: "('fs vol \<Rightarrow> ('a \<times> 'fs vol) option) \<Rightarrow> ('a \<Rightarrow> ('fs, 'r, 't) gate) \<Rightarrow> ('fs, 'r, 't) gate" where
  "run_vol m k A = Option.bind (m (ca_vol (ap_ca A))) (\<lambda>(x, v). k x (put_ca ((ap_ca A)\<lparr>ca_vol := v\<rparr>) A))"

definition run_recv :: "('fs, 'k, 'r) proto_env \<Rightarrow> 't transport \<Rightarrow> nat \<Rightarrow> (byte list res \<Rightarrow> ('fs, 'r, 't) gate) \<Rightarrow> ('fs, 'r, 't) gate" where
  "run_recv P T cap k A =
    Option.bind (session_recv (dv_noise (pe_dev P)) T (ap_sess A) cap (ap_link A)) (\<lambda>(r, sess, t).
      k r (A\<lparr>ap_sess := sess, ap_link := t\<rparr>))"

text \<open>
  Sleeping: the gesture engine goes on with the user's events until the clock has reached
  the end of the sleep.  \<open>None\<close> when the power is cut first.
\<close>

fun sleep_until :: "'fs fs_api \<Rightarrow> gconf \<Rightarrow> int \<Rightarrow> 'cb event list \<Rightarrow> ('cb, 'fs) device \<Rightarrow> ('cb event list \<times> ('cb, 'fs) device) option" where
  "sleep_until F c t [] d = (if clock d \<ge> t then Some ([], d) else None)"
| "sleep_until F c t (e # es) d =
    (if clock d \<ge> t then Some (e # es, d)
     else if e = Reboot then None
     else Option.bind (do_event F c e d) (sleep_until F c t es))"

definition run_sleep :: "('fs, 'k, 'r) proto_env \<Rightarrow> int \<Rightarrow> ('fs, 'r, 't) gate \<Rightarrow> ('fs, 'r, 't) gate" where
  "run_sleep P ms k A =
    Option.bind (sleep_until (pe_fs P) (pe_gest P) (clock (to_gest A) + ms) (ap_user A) (to_gest A)) (\<lambda>(es, d).
      k (from_gest d (A\<lparr>ap_user := es\<rparr>)))"

subsection \<open>The passkey\<close>

fun passkey_attempts :: "nat \<Rightarrow> 'r wolfcrypt \<Rightarrow> 'r \<Rightarrow> nat \<times> 'r" where
  "passkey_attempts 0 K r = (0, r)"
| "passkey_attempts (Suc n) K r =
    (case crypto_trng K 4 r of
       (Inl _, r) \<Rightarrow> passkey_attempts n K r
     | (Inr raw, r) \<Rightarrow>
         let val = be_nat raw mod 1000000 in
         if val \<noteq> 0 then (val, r) else passkey_attempts n K r)"

definition generate_passkey :: "'r wolfcrypt \<Rightarrow> 'r \<Rightarrow> nat \<times> 'r" where
  "generate_passkey = passkey_attempts 8"

definition passkey_digits :: "nat \<Rightarrow> nat list" where
  "passkey_digits passkey = [passkey div 100000 mod 10, passkey div 10000 mod 10, passkey div 1000 mod 10,
     passkey div 100 mod 10, passkey div 10 mod 10, passkey mod 10]"

text \<open>The number of flashes for a digit, and the time that \<open>led_blink_digit\<close> takes for them.\<close>

definition flashes :: "nat \<Rightarrow> nat" where "flashes d = (if d = 0 then 10 else d)"

definition blink_digit_ms :: "nat \<Rightarrow> int" where
  "blink_digit_ms n = 100 * int n + 100 * int (n - 1) + 500"

fun blink_digits :: "('fs, 'k, 'r) proto_env \<Rightarrow> int \<Rightarrow> nat list \<Rightarrow> ('fs, 'r, 't) gate \<Rightarrow> ('fs, 'r, 't) gate" where
  "blink_digits P pause [] k = k"
| "blink_digits P pause (d # ds) k =
    run_sleep P (blink_digit_ms (flashes d))
      (if pause > 0 then run_sleep P pause (blink_digits P pause ds k) else blink_digits P pause ds k)"

definition blink_passkey :: "('fs, 'k, 'r) proto_env \<Rightarrow> pair_conf \<Rightarrow> nat \<Rightarrow> ('fs, 'r, 't) gate \<Rightarrow> ('fs, 'r, 't) gate" where
  "blink_passkey P C passkey = blink_digits P (passkey_blink_pause_ms C) (passkey_digits passkey)"

definition derive_psk :: "'r wolfcrypt \<Rightarrow> nat \<Rightarrow> byte list \<Rightarrow> byte list \<Rightarrow> byte list res" where
  "derive_psk K passkey local_pub remote_pub =
    crypto_hkdf_sha256 K (be_bytes 4 passkey) (local_pub @ remote_pub) (str_bytes ''cantil-psk-v1'') 32"

definition send_reply :: "('fs, 'k, 'r) proto_env \<Rightarrow> 't transport \<Rightarrow> 32 word \<Rightarrow> proto_err \<Rightarrow> ('fs, 'r, 't) gate \<Rightarrow> ('fs, 'r, 't) gate" where
  "send_reply P T seq err k =
    (case encode_response 16 seq (err_code err) [] of Inl _ \<Rightarrow> k | Inr msg \<Rightarrow> run_send P T msg (\<lambda>_. k))"

abbreviation refuse :: "('fs, 'k, 'r) proto_env \<Rightarrow> 't transport \<Rightarrow> 32 word \<Rightarrow> proto_err \<Rightarrow> ('fs, 'r, 't) gate" where
  "refuse P T seq err \<equiv> send_reply P T seq err rejected"

text \<open>What the client's reply says: refused with an error, the right passkey, or data outside the buffer.\<close>

datatype passkey_reply = Bad_reply "32 word" proto_err | Right_passkey "32 word" | Reply_outside

definition check_reply :: "nat \<Rightarrow> byte list \<Rightarrow> passkey_reply option" where
  "check_reply passkey rx =
    Option.bind (decode_request size_bits rx) (\<lambda>req.
      case req of
        Inl _ \<Rightarrow> Some (Bad_reply 0 ERR_INVALID_ARGS)
      | Inr (cmd, seq, ref) \<Rightarrow>
          if cmd \<noteq> cmd_code CMD_PAIRING_PASSKEY_REPLY then Some (Bad_reply seq ERR_PASSKEY_REQUIRED)
          else case req_data rx ref of
            None \<Rightarrow> Some Reply_outside
          | Some data \<Rightarrow>
              if length data = 0 then Some (Bad_reply seq ERR_INVALID_ARGS)
              else case read_uint32 data 0 of
                Inl _ \<Rightarrow> Some (Bad_reply seq ERR_INVALID_ARGS)
              | Inr (received_passkey, _) \<Rightarrow>
                  if unat received_passkey \<noteq> passkey then Some (Bad_reply seq ERR_AUTH) else Some (Right_passkey seq))"

text \<open>The part after the user's confirmation: the pre-shared key and the bond.\<close>

definition bond_with_psk :: "('fs, 'k, 'r) proto_env \<Rightarrow> pair_conf \<Rightarrow> 't transport \<Rightarrow> byte list \<Rightarrow> nat \<Rightarrow> 32 word \<Rightarrow> ('fs, 'r, 't) gate" where
  "bond_with_psk P C T pub passkey seq A =
    (let K = env_wc (pe_ca P) in
     case session_get_local_pubkey (ap_sess A) of
       Inl _ \<Rightarrow> refuse P T seq ERR_CRYPTO
     | Inr local_pub \<Rightarrow>
    (case derive_psk K passkey local_pub pub of
       Inl _ \<Rightarrow> refuse P T seq ERR_CRYPTO
     | Inr psk \<Rightarrow>
    (case crypto_storage_key_derive K of
       Inl _ \<Rightarrow> refuse P T seq ERR_CRYPTO
     | Inr storage_key \<Rightarrow>
       run_rng (crypto_encrypt_blob K storage_key psk (12 + 32 + 16)) (\<lambda>r.
         case r of
           Inl _ \<Rightarrow> refuse P T seq ERR_CRYPTO
         | Inr psk_enc \<Rightarrow>
             run_vol (client_bond_add (pe_fs P) (pair_caps C) pub CLIENT_KIND_HOST 0) (\<lambda>rc.
               if rc = Some EROFS then send_reply P T seq ERR_OK (returns None)
               else if rc \<noteq> None \<and> rc \<noteq> Some EEXIST then refuse P T seq ERR_STORAGE
               else run_fs (\<lambda>s. Some (storage_client_bond_psk_write (pe_fs P) (client_bond_id pub) psk_enc s)) (\<lambda>_.
                 send_reply P T seq ERR_OK (returns None))))))) A"

definition request_pair :: "('fs, 'k, 'r) proto_env \<Rightarrow> (errno \<Rightarrow> ('fs, 'r, 't) gate) \<Rightarrow> (cantil_confirm_result \<Rightarrow> ('fs, 'r, 't) gate)
    \<Rightarrow> ('fs, 'r, 't) gate" where
  "request_pair P busy k =
    run_gest (\<lambda>now. gesture_request_pair_confirm (pe_gest P) now pair_confirm_cb) (\<lambda>rc.
      case rc of Some e \<Rightarrow> busy e | None \<Rightarrow> run_wait P k)"

definition passkey_exchange_and_bond :: "('fs, 'k, 'r) proto_env \<Rightarrow> pair_conf \<Rightarrow> 't transport \<Rightarrow> byte list \<Rightarrow> ('fs, 'r, 't) gate" where
  "passkey_exchange_and_bond P C T pub =
    run_rng (generate_passkey (env_wc (pe_ca P))) (\<lambda>passkey.
      if passkey = 0 then rejected
      else run_gest (\<lambda>_ g. ((), led_set_idle LED_PATTERN_PASSKEY_PROMPT g)) (\<lambda>_.
        blink_passkey P C passkey (run_recv P T 64 (\<lambda>r.
          case r of
            Inl _ \<Rightarrow> rejected
          | Inr rx \<Rightarrow> (\<lambda>A. Option.bind (check_reply passkey rx) (\<lambda>rep.
              (case rep of
                 Bad_reply seq err \<Rightarrow> refuse P T seq err
               | Reply_outside \<Rightarrow> (\<lambda>A. Some (Out_of_buffer, A))
               | Right_passkey seq \<Rightarrow>
                   request_pair P (\<lambda>_. refuse P T seq ERR_BUSY) (\<lambda>r.
                     if r \<noteq> CANTIL_CONFIRM_OK then refuse P T seq ERR_AUTH
                     else bond_with_psk P C T pub passkey seq)) A))))))"

subsection \<open>The six methods\<close>

text \<open>A known client is accepted, a lookup error is returned, and an unknown client goes on.\<close>

definition known_or :: "('fs, 'k, 'r) proto_env \<Rightarrow> byte list \<Rightarrow> ('fs, 'r, 't) gate \<Rightarrow> ('fs, 'r, 't) gate" where
  "known_or P pub k A =
    (case client_bond_exists (pe_fs P) pub (ap_fs A) of
       Inr True \<Rightarrow> returns None A | Inl e \<Rightarrow> returns (Some e) A | Inr False \<Rightarrow> k A)"

definition room_or_reject :: "('fs, 'k, 'r) proto_env \<Rightarrow> pair_conf \<Rightarrow> ('fs, 'r, 't) gate \<Rightarrow> ('fs, 'r, 't) gate" where
  "room_or_reject P C k A =
    (case client_bond_count (pe_fs P) (ap_fs A) of
       Inr (hosts, peers) \<Rightarrow> if hosts \<ge> max_client_bonds (pair_caps C) then rejected A else k A
     | Inl _ \<Rightarrow> k A)"

text \<open>How the tap-confirm and the trust-on-first-use methods end.\<close>

definition commit_bond :: "('fs, 'k, 'r) proto_env \<Rightarrow> pair_conf \<Rightarrow> byte list \<Rightarrow> ('fs, 'r, 't) gate" where
  "commit_bond P C pub =
    run_vol (client_bond_add (pe_fs P) (pair_caps C) pub CLIENT_KIND_HOST 0) (\<lambda>rc.
      if rc = None \<or> rc = Some EEXIST \<or> rc = Some EROFS then returns None else rejected)"

definition tap_confirm_and_bond :: "('fs, 'k, 'r) proto_env \<Rightarrow> pair_conf \<Rightarrow> byte list \<Rightarrow> ('fs, 'r, 't) gate" where
  "tap_confirm_and_bond P C pub =
    request_pair P (\<lambda>_. rejected) (\<lambda>r. if r \<noteq> CANTIL_CONFIRM_OK then rejected else commit_bond P C pub)"

text \<open>The chain that the client presented, at most four certificates.\<close>

definition anchored_or_reject :: "('fs, 'k, 'r) proto_env \<Rightarrow> pair_conf \<Rightarrow> ('fs, 'r, 't) gate \<Rightarrow> ('fs, 'r, 't) gate" where
  "anchored_or_reject P C k A =
    (let certs = client_certs (ap_sess A) in
     if length certs = 0 then rejected A
     else if length certs > 4 then rejected A
     else if ca_validate_client_cert_chain (pe_ca P) certs (ca_anchor_slot C) (ap_fs A) \<noteq> None then rejected A
     else k A)"

definition pairing_check_and_bond :: "('fs, 'k, 'r) proto_env \<Rightarrow> pair_conf \<Rightarrow> 't transport \<Rightarrow> byte list \<Rightarrow> ('fs, 'r, 't) gate" where
  "pairing_check_and_bond P C T pub =
    (case pairing_method C of
       PAIRING_PASSKEY \<Rightarrow> known_or P pub (room_or_reject P C (passkey_exchange_and_bond P C T pub))
     | PAIRING_TAP_CONFIRM \<Rightarrow> known_or P pub (room_or_reject P C (tap_confirm_and_bond P C pub))
     | PAIRING_TOFU \<Rightarrow> known_or P pub (commit_bond P C pub)
     | PAIRING_CA_ANCHOR \<Rightarrow> anchored_or_reject P C (returns None)
     | PAIRING_CA_ANCHOR_PLUS_PASSKEY \<Rightarrow>
         known_or P pub (anchored_or_reject P C (room_or_reject P C (passkey_exchange_and_bond P C T pub)))
     | PAIRING_PROMISCUOUS \<Rightarrow> returns None)"

end
