(* ===== verification/Device_Main.thy ===== *)
theory Device_Main
  imports Pairing
begin

text \<open>
  The main program of the device, \<open>firmware/src/main.c\<close>: the start, and its loop, which opens a
  session, runs the pairing gate and serves requests until one fails.

  \<open>device_boot\<close> takes the results of the hardware drivers' initialisation (\<open>led_init\<close>, \<open>transport_init\<close>)
  as arguments.  \<open>connection\<close> is one round of the loop with a transport: \<open>flush\<close> is what
  \<open>transport_usb_flush_rx\<close> does to the link, and \<open>None\<close> is a round that does not end.  The outcome
  \<open>Returned None\<close> goes on with the loop; \<open>Out_of_buffer\<close> stands for every access outside a buffer.
\<close>

definition gesture_boot :: "('fs, 'k, 'r) proto_env \<Rightarrow> ('fs, 'r, 't) appliance \<Rightarrow> ('fs, 'r, 't) appliance" where
  "gesture_boot P A =
    (let d = to_gest A;
         g = led_play_oneshot LED_PATTERN_POST (gesture_init (pe_fs P) (pe_gest P) (clock d) (gest d));
         idle = (if s_in_recovery (ap_dev A) then LED_PATTERN_IDENTITY_MISMATCH else LED_PATTERN_LOCKED)
     in from_gest (d\<lparr>gest := led_set_idle idle g\<rparr>) A)"

definition device_boot :: "('fs, 'k, 'r) proto_env \<Rightarrow> board \<Rightarrow> errno option \<Rightarrow> errno option \<Rightarrow> ('fs, 'r, 't) appliance
    \<Rightarrow> errno option \<times> ('fs, 'r, 't) appliance" where
  "device_boot P b led_ret transport_ret A =
    (if led_ret \<noteq> None then (led_ret, A)
     else if transport_ret \<noteq> None then (transport_ret, A)
     else case storage_init (pe_fs P) b (ca_vol (ap_ca A)) of
       (ret, v) \<Rightarrow>
         let A = put_ca ((ap_ca A)\<lparr>ca_vol := v\<rparr>) A;
             A = (if ret \<noteq> None then A
                  else
                    let A = put_ca (ca_init (pe_ca P) (ap_ca A)) A
                    in A\<lparr>ap_dev := snd (session_slot_init (pe_dev P) (ap_dev A))\<rparr>)
         in (None, gesture_boot P A))"

definition activity :: "('fs, 'r, 't) appliance \<Rightarrow> ('fs, 'r, 't) appliance" where
  "activity A = (let d = to_gest A in from_gest (d\<lparr>gest := gesture_reset_inactivity_timer (clock d) (gest d)\<rparr>) A)"

definition session_close :: "('fs, 'r, 't) appliance \<Rightarrow> ('fs, 'r, 't) appliance" where
  "session_close A = A\<lparr>ap_sess := \<lparr>rx_key = replicate 32 0, tx_key = replicate 32 0, rx_nonce = 0, tx_nonce = 0,
     remote_s_pub = replicate 32 0, local_s_pub = replicate 32 0, established = False, client_certs = []\<rparr>\<rparr>"

partial_function (option) serve_requests :: "('fs, 'k, 'r) proto_env \<Rightarrow> 't transport \<Rightarrow> ('fs, 'r, 't) appliance
    \<Rightarrow> (outcome \<times> ('fs, 'r, 't) appliance) option" where
  "serve_requests P T A =
    Option.bind (protocol_handle_one P T A) (\<lambda>(out, A).
      case out of
        Returned None \<Rightarrow> serve_requests P T (activity A)
      | Returned (Some e) \<Rightarrow> Some (Returned None, A)
      | Rebooted k \<Rightarrow> Some (out, A)
      | Out_of_buffer \<Rightarrow> Some (out, A))"

definition serve_session :: "('fs, 'k, 'r) proto_env \<Rightarrow> 't transport \<Rightarrow> ('fs, 'r, 't) gate" where
  "serve_session P T A =
    Option.bind (serve_requests P T (activity A)) (\<lambda>(out, A).
      if out = Returned None then run_sleep P 10 (returns None) (session_close A) else Some (out, A))"

definition serve_client :: "('fs, 'k, 'r) proto_env \<Rightarrow> pair_conf \<Rightarrow> 't transport \<Rightarrow> ('fs, 'r, 't) gate" where
  "serve_client P C T A =
    (case session_get_remote_pubkey (ap_sess A) of
       Inl _ \<Rightarrow> serve_session P T A
     | Inr remote_pub \<Rightarrow>
         Option.bind (pairing_check_and_bond P C T remote_pub A) (\<lambda>(out, A).
           case out of
             Returned None \<Rightarrow> serve_session P T A
           | Returned (Some e) \<Rightarrow> run_sleep P 100 (returns None) (session_close A)
           | Rebooted k \<Rightarrow> Some (out, A)
           | Out_of_buffer \<Rightarrow> Some (out, A)))"

definition open_and_serve :: "('fs, 'k, 'r) proto_env \<Rightarrow> pair_conf \<Rightarrow> 't transport \<Rightarrow> ('t \<Rightarrow> 't) \<Rightarrow> ('fs, 'r, 't) gate" where
  "open_and_serve P C T flush A =
    Option.bind (session_open (pe_dev P) T None False (ap_dev A) (flush (ap_link A))) (\<lambda>(r, S, t).
      let A = A\<lparr>ap_dev := S, ap_link := t\<rparr> in
      case r of
        Open_err e \<Rightarrow> run_sleep P 100 (returns None) A
      | Open_fault \<Rightarrow> Some (Out_of_buffer, A)
      | Open_ok sess \<Rightarrow> serve_client P C T (A\<lparr>ap_sess := sess\<rparr>))"

definition connection :: "('fs, 'k, 'r) proto_env \<Rightarrow> pair_conf \<Rightarrow> 't transport \<Rightarrow> ('t \<Rightarrow> 't) \<Rightarrow> ('fs, 'r, 't) gate" where
  "connection P C T flush = run_sleep P 50 (open_and_serve P C T flush)"

text \<open>The loop for \<open>n\<close> rounds; \<open>active\<close> says whether the transport is connected.\<close>

fun main_loop :: "nat \<Rightarrow> ('fs, 'k, 'r) proto_env \<Rightarrow> pair_conf \<Rightarrow> 't transport \<Rightarrow> ('t \<Rightarrow> 't) \<Rightarrow> ('t \<Rightarrow> bool) \<Rightarrow> ('fs, 'r, 't) gate" where
  "main_loop 0 P C T flush active A = Some (Returned None, A)"
| "main_loop (Suc n) P C T flush active A =
    Option.bind (if active (ap_link A) then connection P C T flush A else run_sleep P 10 (returns None) A) (\<lambda>(out, A).
      if out = Returned None then main_loop n P C T flush active A else Some (out, A))"

end
