(* ===== verification/Waiting.thy ===== *)
theory Waiting
  imports Protocol Gesture_Proofs
begin

text \<open>
  What happens while a handler waits for the user's answer: nothing but the answer itself,
  and a positive answer takes the sequence that the pending prompt asks for.

  \<open>user_typed F c sq es d es'\<close>: from the device \<open>d\<close>, which has an empty accumulator, the events
  \<open>es\<close> up to the end of the sequence enter the digits \<open>sq\<close>, and \<open>es'\<close> are the events after it.
\<close>

definition user_typed :: "'fs fs_api \<Rightarrow> gconf \<Rightarrow> byte list \<Rightarrow> 'cb event list \<Rightarrow> ('cb, 'fs) device \<Rightarrow> 'cb event list \<Rightarrow> bool" where
  "user_typed F c sq es d es' \<longleftrightarrow> closed_digits c (gest d) = [] \<and>
    (\<exists>es1 d1. es = es1 @ Silence # es' \<and> Reboot \<notin> set es1 \<and> run F c es1 d = Some d1 \<and> closed_digits c (gest d1) = sq)"

definition still_waiting :: "('cb, 'fs) gesture \<Rightarrow> ('cb, 'fs) gesture \<Rightarrow> bool" where
  "still_waiting g g' \<longleftrightarrow> gstate g' = gstate g \<and> unlock_seq g' = unlock_seq g \<and> gfs g' = gfs g
    \<and> pending_cb g' = pending_cb g \<and> delivered g' = delivered g"

lemma awaiting_states: "awaiting s \<longleftrightarrow> s \<in> {CANTIL_STATE_AWAITING_CONFIRM, CANTIL_STATE_AWAITING_RESET, CANTIL_STATE_AWAITING_PAIR}"
  by (cases s) auto

lemma answers_not_same: "answers g r g' \<Longrightarrow> delivered g' \<noteq> delivered g"
  by (auto simp: answers_def)

lemma process_waiting_keeps:
  assumes "awaiting (gstate g)"
  shows "gfs (process_sequence F c now g) = gfs g \<and> unlock_seq (process_sequence F c now g) = unlock_seq g"
  using assms by (cases "gstate g") (auto simp: process_sequence_def Let_def process_awaiting_confirm_def
      process_awaiting_reset_def process_awaiting_pair_def deliver_confirm_def small_defs split: option.split)

lemma closed_gfs [simp]: "gfs (closed c g) = gfs g"
  by (simp add: closed_def)

lemma reset_accumulator_gfs [simp]: "gfs (reset_accumulator c g) = gfs g"
  by (simp add: reset_accumulator_def split: alphabet.split)

lemma reset_accumulator_empty: "closed_digits c (reset_accumulator c g) = []"
  by (simp add: reset_accumulator_def closed_digits_def split: alphabet.split)

lemma silence_waiting_keeps:
  assumes "awaiting (gstate g)"
  shows "gfs (silence_timeout_fn F c now g) = gfs g \<and> unlock_seq (silence_timeout_fn F c now g) = unlock_seq g"
proof (cases "closed_digits c g = []")
  case True
  then show ?thesis
    by (cases "alphabet c") (auto simp: silence_timeout_fn_def closed_digits_def Let_def close_sequence_binary_locked_def close_digit_locked_def
        small_defs)
next
  case False
  with process_waiting_keeps [of "closed c g" F c now] assms show ?thesis by (simp add: silence_closed)
qed

lemma timeouts_keep:
  "gfs (confirm_timeout_fn g) = gfs g" "gfs (reset_timeout_fn g) = gfs g" "gfs (pair_timeout_fn g) = gfs g"
  "unlock_seq (confirm_timeout_fn g) = unlock_seq g" "unlock_seq (reset_timeout_fn g) = unlock_seq g"
  "unlock_seq (pair_timeout_fn g) = unlock_seq g"
  by (auto simp: confirm_timeout_fn_def reset_timeout_fn_def pair_timeout_fn_def deliver_confirm_def small_defs split: option.split)

lemma waiting_event_keeps:
  assumes "awaiting (gstate (gest d))" and "do_event F c e d = Some d'" and "e \<noteq> Reboot"
  shows "gfs (gest d') = gfs (gest d) \<and> unlock_seq (gest d') = unlock_seq (gest d)"
  using assms silence_waiting_keeps [of "(gest d)\<lparr>silence_due := None\<rparr>" F c "clock d"]
  by (cases e) (auto simp: fire_Some timeouts_keep tap_ack_def small_defs tap_accumulate_def gesture_get_state_def
      gesture_set_unlock_seq_def gesture_reset_inactivity_timer_def gesture_request_confirm_def gesture_request_reset_def
      gesture_request_pair_confirm_def Let_def split_beta split: if_splits list.splits option.splits alphabet.splits)

lemma waiting_state_silence:
  assumes "gesture_inv c g" and "awaiting (gstate g)" and "delivered (silence_timeout_fn F c now g) = delivered g"
  shows "gstate (silence_timeout_fn F c now g) = gstate g"
proof (cases "closed_digits c g = []")
  case False
  with silence_answers [OF assms(1), of F now] assms(2,3) show ?thesis by (auto dest: answers_not_same)
qed (rule silence_idle)

lemma waiting_state_timeouts:
  assumes "gesture_inv c g"
  shows "delivered (confirm_timeout_fn g) = delivered g \<Longrightarrow> confirm_timeout_fn g = g"
    "delivered (reset_timeout_fn g) = delivered g \<Longrightarrow> reset_timeout_fn g = g"
    "delivered (pair_timeout_fn g) = delivered g \<Longrightarrow> pair_timeout_fn g = g"
  using timeouts_answer [OF assms] by (auto dest: answers_not_same split: if_splits)

lemma waiting_state:
  assumes "gesture_inv c (gest d)" and "awaiting (gstate (gest d))" and "do_event F c e d = Some d'" and "e \<noteq> Reboot"
    and "delivered (gest d') = delivered (gest d)"
  shows "gstate (gest d') = gstate (gest d)"
  using assms waiting_state_silence [of c "(gest d)\<lparr>silence_due := None\<rparr>" F "clock d"]
    waiting_state_timeouts(1) [of c "(gest d)\<lparr>confirm_due := None\<rparr>"]
    waiting_state_timeouts(2) [of c "(gest d)\<lparr>reset_due := None\<rparr>"]
    waiting_state_timeouts(3) [of c "(gest d)\<lparr>pair_due := None\<rparr>"]
  by (cases e) (auto simp: fire_Some tap_ack_def small_defs tap_accumulate_def gesture_get_state_def
      gesture_set_unlock_seq_def gesture_reset_inactivity_timer_def gesture_request_confirm_def gesture_request_reset_def
      gesture_request_pair_confirm_def Let_def split_beta split: if_splits list.splits option.splits alphabet.splits)

lemma waiting_event:
  assumes "gesture_inv c (gest d)" and "awaiting (gstate (gest d))" and "do_event F c e d = Some d'" and "e \<noteq> Reboot"
  shows "still_waiting (gest d) (gest d') \<or> (\<exists>r. answers (gest d) r (gest d') \<and>
    (r = CANTIL_CONFIRM_OK \<longrightarrow> e = Silence \<and> answer_seq c (gest d) = Some (closed_digits c (gest d))))"
proof -
  have p: "pending_cb (gest d) \<noteq> None" using assms(1,2) by (simp add: gesture_inv_def)
  have acc: "accepted c e d = []" using accepted_good [OF assms(3)] p by (cases "accepted c e d") auto
  have "good_answer c e (gest d) (gest d')"
    using timeout_good [OF assms(1,3)] assms(2) other_good [OF assms(3) acc assms(4)] by (auto simp: good_answer_def)
  moreover have "gstate (gest d') = gstate (gest d)" if "same_answers (gest d) (gest d')"
    using waiting_state [OF assms] that by (simp add: same_answers_def)
  ultimately show ?thesis
    using waiting_event_keeps [OF assms(2-4)] by (auto simp: good_answer_def still_waiting_def same_answers_def)
qed

lemma answer_seq_waiting: "still_waiting g g' \<Longrightarrow> answer_seq c g' = answer_seq c g"
  by (simp add: still_waiting_def answer_seq_def split: cantil_state.split)

lemma await_answer_ends:
  assumes "await_answer F c es d = Some (r, es', d')" and "gesture_inv c (gest d)" and "awaiting (gstate (gest d))"
  shows "gesture_inv c (gest d') \<and> gfs (gest d') = gfs (gest d) \<and> unlock_seq (gest d') = unlock_seq (gest d)
    \<and> pending_cb (gest d') = None \<and> (r = CANTIL_CONFIRM_OK \<longrightarrow> (\<exists>es1 d1. es = es1 @ Silence # es' \<and> Reboot \<notin> set es1
      \<and> run F c es1 d = Some d1 \<and> answer_seq c (gest d) = Some (closed_digits c (gest d1))))"
  using assms
proof (induction es arbitrary: d)
  case (Cons e es)
  from Cons.prems(1) obtain d1 where d1: "e \<noteq> Reboot" "do_event F c e d = Some d1"
    "(if delivered (gest d1) = delivered (gest d) then await_answer F c es d1
      else Some (snd (last (delivered (gest d1))), es, d1)) = Some (r, es', d')"
    by (auto simp: bind_eq_Some_conv split: if_splits)
  note keep = waiting_event_keeps [OF Cons.prems(3) d1(2,1)] and inv = inv_event [OF Cons.prems(2) d1(2)]
  from waiting_event [OF Cons.prems(2,3) d1(2,1)] show ?case
  proof (elim disjE exE conjE)
    assume w: "still_waiting (gest d) (gest d1)"
    with d1(3) Cons.prems(3) have "await_answer F c es d1 = Some (r, es', d')" "awaiting (gstate (gest d1))"
      by (simp_all add: still_waiting_def)
    note ih = Cons.IH [OF this(1) inv this(2)]
    have "\<exists>es1 d2. e # es = es1 @ Silence # es' \<and> Reboot \<notin> set es1 \<and> run F c es1 d = Some d2
      \<and> answer_seq c (gest d) = Some (closed_digits c (gest d2))" if "r = CANTIL_CONFIRM_OK"
    proof -
      from ih that obtain es1 d2 where "es = es1 @ Silence # es'" "Reboot \<notin> set es1" "run F c es1 d1 = Some d2"
        "answer_seq c (gest d1) = Some (closed_digits c (gest d2))" by blast
      with d1(1,2) answer_seq_waiting [OF w, of c] show ?thesis
        by (intro exI [of _ "e # es1"] exI [of _ d2]) simp
    qed
    with ih keep show ?thesis by simp
  next
    fix x assume a: "answers (gest d) x (gest d1)"
      "x = CANTIL_CONFIRM_OK \<longrightarrow> e = Silence \<and> answer_seq c (gest d) = Some (closed_digits c (gest d))"
    with d1(3) have "r = x" "es' = es" "d' = d1" by (auto simp: answers_def)
    with a keep inv show ?thesis by (auto simp: answers_def intro!: exI [of _ "[]"])
  qed
qed simp

end
