(* ===== verification/Ca_Frame.thy ===== *)
theory Ca_Frame
  imports Ca
begin

text \<open>
  What the operations of the certificate authority leave alone: no sequence of them
  changes the key blob of a slot, except that deleting an unprotected slot other than
  slot 0 removes it.

  \<open>ca_op\<close> names the operations that change the store, with their arguments, and \<open>run_ops\<close>
  performs a sequence of them.
\<close>

datatype ca_op =
    Op_init
  | Op_provision byte
  | Op_push_key_x509 nat "byte list"
  | Op_gen_key byte
  | Op_delete_key nat
  | Op_protect_slot nat bool
  | Op_unprotect_slot nat
  | Op_gen_key_csr nat "byte list"
  | Op_push_cert "byte list" "byte list"
  | Op_push_key_cert nat "byte list" "byte list"
  | Op_sign_csr nat "byte list" nat
  | Op_sign_key_slot nat nat
  | Op_sign_session_cert nat "byte list" "byte list option" "byte list" "byte list" nat
  | Op_revoke_cert "byte list" "64 word"
  | Op_auto_expire "64 word"

definition on_fs :: "('fs \<Rightarrow> 'a \<times> 'fs) \<Rightarrow> ('fs, 'r) ca_state \<Rightarrow> ('fs, 'r) ca_state" where
  "on_fs f S = put_fs (snd (f (ca_fs S))) S"

fun do_op :: "('fs, 'k, 'r) ca_env \<Rightarrow> ca_op \<Rightarrow> ('fs, 'r) ca_state \<Rightarrow> ('fs, 'r) ca_state option" where
  "do_op E Op_init S = Some (ca_init E S)"
| "do_op E (Op_provision t) S = Some (snd (ca_provision E t S))"
| "do_op E (Op_push_key_x509 slot data) S = Some (snd (ca_push_key_x509 E slot data S))"
| "do_op E (Op_gen_key t) S = Some (snd (ca_gen_key E t S))"
| "do_op E (Op_delete_key slot) S = map_option (\<lambda>(_, s). put_fs s S) (ca_delete_key E slot (ca_fs S))"
| "do_op E (Op_protect_slot slot b) S = Some (on_fs (ca_protect_slot E slot b) S)"
| "do_op E (Op_unprotect_slot slot) S = Some (on_fs (ca_unprotect_slot E slot) S)"
| "do_op E (Op_gen_key_csr slot dn) S = Some (snd (ca_gen_key_csr E slot dn S))"
| "do_op E (Op_push_cert cert chain) S = Some (on_fs (ca_push_cert (env_fs E) cert chain) S)"
| "do_op E (Op_push_key_cert slot cert chain) S = Some (on_fs (ca_push_key_cert E slot cert chain) S)"
| "do_op E (Op_sign_csr slot csr cap) S = Some (snd (ca_sign_csr_slot E slot csr cap S))"
| "do_op E (Op_sign_key_slot i j) S = Some (snd (ca_sign_key_slot E i j S))"
| "do_op E (Op_sign_session_cert slot blob cn priv x cap) S = Some (snd (ca_sign_session_cert E slot blob cn priv x cap S))"
| "do_op E (Op_revoke_cert serial now) S = Some (on_fs (ca_revoke_cert (env_fs E) serial now) S)"
| "do_op E (Op_auto_expire now) S = Some (on_fs (ca_auto_expire (env_fs E) now) S)"

fun run_ops :: "('fs, 'k, 'r) ca_env \<Rightarrow> ca_op list \<Rightarrow> ('fs, 'r) ca_state \<Rightarrow> ('fs, 'r) ca_state option" where
  "run_ops E [] S = Some S"
| "run_ops E (op # ops) S = Option.bind (do_op E op S) (run_ops E ops)"

text \<open>
  A device for the witnesses: the in-memory volume with a key in slots 0 and 1, the stand-in
  for wolfCrypt, a parser that accepts nothing and a writer whose keys cannot be imported.
\<close>

definition demo_gen :: "(unit, nat) wolfcert" where
  "demo_gen = \<lparr>CTC_NAME_SIZE = 64, CTC_SERIAL_SIZE = 20, wc_InitRng = \<lambda>r. (True, r), wc_ecc_init = True,
     wc_InitCert = \<lparr>wcc_version = 2, wcc_serial = [], wcc_sigType = CTC_UNSET, wcc_selfSigned = True, wcc_subject = empty_dn,
       wcc_issuer = empty_dn, wcc_beforeDate = [], wcc_afterDate = [], wcc_basicConstSet = False, wcc_isCA = False,
       wcc_pathLen = None, wcc_keyUsage = 0, wcc_customExt = []\<rparr>,
     wc_SetCustomExtension = \<lambda>c oid v. Inr (c\<lparr>wcc_customExt := (oid, v) # wcc_customExt c\<rparr>),
     wc_ecc_import_x963_ex = \<lambda>_. Inl WC_OTHER, wc_ecc_import_private_key_ex = \<lambda>_. Inl WC_OTHER,
     wc_ecc_derive_pub = Inr, wc_ecc_set_deterministic_ex = id,
     wc_MakeCert = \<lambda>_ _ _ r. (Inl WC_OTHER, r), wc_MakeCertReq = \<lambda>_ _ _. Inl WC_OTHER,
     wc_SignCert = \<lambda>b _ _ r. (Inr b, r)\<rparr>"

definition demo_env :: "(memfs, unit, nat) ca_env" where
  "demo_env = \<lparr>env_fs = mem_api, env_wc = toy_wc,
     env_asn = \<lparr>wc_ParseCert = \<lambda>_. None, wc_ParseCertReq = \<lambda>_. None, wc_CheckCertSigPubKey = \<lambda>_ _ _. False\<rparr>,
     env_gen = demo_gen, max_key_slots = 8, crl_validity_sec = 86400, sizeof_size_t = 4\<rparr>"

definition demo_keys_fs :: memfs where
  "demo_keys_fs = [(''/lfs'', Dir), (''/lfs/keys'', Dir), (''/lfs/keys/0'', Dir), (''/lfs/keys/0/key.bin'', File [5]),
     (''/lfs/keys/1'', Dir), (''/lfs/keys/1/key.bin'', File [6])]"

definition demo_state :: "(memfs, nat) ca_state" where
  "demo_state = \<lparr>ca_vol = \<lparr>vfs = demo_keys_fs, volume_state = VOLUME_VALID\<rparr>, provisioned = True, ca_rng = 3\<rparr>"

named_theorems frame "operations that leave the content of a path alone"

subsection \<open>Frames\<close>

text \<open>
  \<open>kept q s s'\<close>: going from \<open>s\<close> to \<open>s'\<close> has not changed the node at \<open>q\<close>, if there was one, and has
  not created a file there.  \<open>fs_frame\<close> and \<open>act_frame\<close> say so of every run of an operation.
  \<open>survives q s s'\<close> says the first half only.
\<close>

definition kept :: "('fs \<Rightarrow> bool) \<Rightarrow> ('fs \<Rightarrow> string \<Rightarrow> node option) \<Rightarrow> string \<Rightarrow> 'fs \<Rightarrow> 'fs \<Rightarrow> bool" where
  "kept mounted view q s s' \<longleftrightarrow> (mounted s \<longrightarrow> mounted s' \<and> (view s q \<noteq> None \<longrightarrow> view s' q = view s q)
    \<and> (is_file (view s' q) \<longrightarrow> is_file (view s q)))"

definition survives :: "('fs \<Rightarrow> bool) \<Rightarrow> ('fs \<Rightarrow> string \<Rightarrow> node option) \<Rightarrow> string \<Rightarrow> 'fs \<Rightarrow> 'fs \<Rightarrow> bool" where
  "survives mounted view q s s' \<longleftrightarrow> (mounted s \<longrightarrow> mounted s' \<and> (view s q \<noteq> None \<longrightarrow> view s' q = view s q))"

definition fs_frame :: "('fs \<Rightarrow> bool) \<Rightarrow> ('fs \<Rightarrow> string \<Rightarrow> node option) \<Rightarrow> string \<Rightarrow> ('fs \<Rightarrow> 'b \<times> 'fs) \<Rightarrow> bool" where
  "fs_frame mounted view q f \<longleftrightarrow> (\<forall>s. kept mounted view q s (snd (f s)))"

definition act_frame :: "('fs \<Rightarrow> bool) \<Rightarrow> ('fs \<Rightarrow> string \<Rightarrow> node option) \<Rightarrow> string
    \<Rightarrow> (('fs, 'r) ca_state \<Rightarrow> 'b \<times> ('fs, 'r) ca_state) \<Rightarrow> bool" where
  "act_frame mounted view q m \<longleftrightarrow> (\<forall>S. kept mounted view q (ca_fs S) (ca_fs (snd (m S))))"

definition cb_frame :: "('fs \<Rightarrow> bool) \<Rightarrow> ('fs \<Rightarrow> string \<Rightarrow> node option) \<Rightarrow> string
    \<Rightarrow> ('k \<Rightarrow> 'u \<Rightarrow> 'fs \<Rightarrow> 'rc \<times> 'u \<times> 'fs) \<Rightarrow> bool" where
  "cb_frame mounted view q cb \<longleftrightarrow> (\<forall>k u s. kept mounted view q s (snd (snd (cb k u s))))"

lemma kept_refl [simp]: "kept M V q s s"
  by (simp add: kept_def)

lemma kept_trans: "kept M V q s s1 \<Longrightarrow> kept M V q s1 s2 \<Longrightarrow> kept M V q s s2"
  by (auto simp: kept_def)

lemma kept_survives: "kept M V q s s' \<Longrightarrow> survives M V q s s'"
  by (auto simp: kept_def survives_def)

lemma survives_trans: "survives M V q s s1 \<Longrightarrow> survives M V q s1 s2 \<Longrightarrow> survives M V q s s2"
  by (auto simp: survives_def)

lemma fs_frameD: "fs_frame M V q f \<Longrightarrow> f s = (r, s') \<Longrightarrow> kept M V q s s'"
  unfolding fs_frame_def by (metis snd_conv)

lemma act_frameD: "act_frame M V q m \<Longrightarrow> m S = (r, S') \<Longrightarrow> kept M V q (ca_fs S) (ca_fs S')"
  unfolding act_frame_def by (metis snd_conv)

lemma ca_fs_put [simp]: "ca_fs (put_fs s S) = s"
  by (simp add: put_fs_def)

lemma frame_then [frame]:
  assumes "act_frame M V q m" and "\<And>x. act_frame M V q (f x)"
  shows "act_frame M V q (act_then m f)"
  unfolding act_frame_def
proof
  fix S
  obtain r S1 where m: "m S = (r, S1)" by (metis surj_pair)
  note k = act_frameD [OF assms(1) m]
  show "kept M V q (ca_fs S) (ca_fs (snd (act_then m f S)))"
  proof (cases r)
    case (Inr x)
    from assms(2) [of x] have "kept M V q (ca_fs S1) (ca_fs (snd (f x S1)))" by (simp add: act_frame_def)
    with k kept_trans show ?thesis by (auto simp: act_then_def m Inr)
  qed (use k in \<open>simp add: act_then_def m\<close>)
qed

lemma frame_basic [frame]:
  "act_frame M V q (fs_get g)" "act_frame M V q (rng_do h)" "act_frame M V q (fails e)" "act_frame M V q (gives x)"
  by (auto simp: act_frame_def fs_get_def rng_do_def fails_def gives_def split: prod.splits)

lemma frame_fs [frame]:
  "fs_frame M V q f \<Longrightarrow> act_frame M V q (fs_do f)" "fs_frame M V q f \<Longrightarrow> act_frame M V q (fs_try f)"
  by (auto simp: act_frame_def fs_frame_def fs_do_def fs_try_def split: prod.splits) (metis snd_conv)

lemma frame_if [frame]:
  "act_frame M V q a \<Longrightarrow> act_frame M V q b \<Longrightarrow> act_frame M V q (if c then a else b)"
  by simp

lemma frame_let [frame]: "(\<And>x. act_frame M V q (f x)) \<Longrightarrow> act_frame M V q (Let y f)"
  by (simp add: Let_def)

lemma frame_case_prod [frame]: "(\<And>x y. act_frame M V q (f x y)) \<Longrightarrow> act_frame M V q (case p of (x, y) \<Rightarrow> f x y)"
  by (cases p) simp

text \<open>A guard in front of an action.\<close>

lemma frame_at: "act_frame M V q m \<Longrightarrow> kept M V q (ca_fs S) (ca_fs (snd (m S)))"
  by (simp add: act_frame_def)

lemma key_not_other [simp]:
  "slot_path j ''cert.der'' \<noteq> slot_path i ''key.bin''" "slot_path j ''chain.der'' \<noteq> slot_path i ''key.bin''"
  "slot_path j ''meta.bin'' \<noteq> slot_path i ''key.bin''" "slot_path j ''x509_data.bin'' \<noteq> slot_path i ''key.bin''"
  "slot_path j ''csr.der'' \<noteq> slot_path i ''key.bin''" "slot_path j ''crl_number.bin'' \<noteq> slot_path i ''key.bin''"
  by simp_all

lemma cert_not_key: "cert_path serial = Inr p \<Longrightarrow> p \<noteq> slot_path i f"
  by (auto simp: cert_path_def child_def certs_dir_def slot_path_def slot_dir_def keys_dir_def PATH_MAX_LEN_def split: if_splits)

lemma meta_not_key: "hex_path serial f = Inr p \<Longrightarrow> p \<noteq> slot_path i g"
  by (auto simp: hex_path_def Let_def child_def certs_dir_def slot_path_def slot_dir_def keys_dir_def split: if_splits)

context fs_laws begin

lemma frame_write [frame]: "p \<noteq> q \<Longrightarrow> fs_frame mounted view q (write_file F p d)"
  unfolding fs_frame_def kept_def
proof (intro allI impI)
  fix s assume "p \<noteq> q" "mounted s"
  from write_file_props [OF this(2) prod.collapse [of "write_file F p d s", symmetric]] this
  show "mounted (snd (write_file F p d s)) \<and> (view s q \<noteq> None \<longrightarrow> view (snd (write_file F p d s)) q = view s q)
    \<and> (is_file (view (snd (write_file F p d s)) q) \<longrightarrow> is_file (view s q))"
    by (auto simp: is_file_def)
qed

lemma frame_unlink: "p \<noteq> q \<Longrightarrow> kept mounted view q s (snd (fs_unlink F p s))"
proof -
  obtain r s' where e: "fs_unlink F p s = (r, s')" by (metis surj_pair)
  assume "p \<noteq> q"
  with unlink_law [OF _ e] show ?thesis by (cases r) (auto simp: kept_def e)
qed

lemma frame_slot [frame]:
  "fs_frame mounted view (slot_path i ''key.bin'') (storage_slot_cert_write F slot d)"
  "fs_frame mounted view (slot_path i ''key.bin'') (storage_slot_chain_write F slot d)"
  "fs_frame mounted view (slot_path i ''key.bin'') (storage_slot_x509_write F slot d)"
  "fs_frame mounted view (slot_path i ''key.bin'') (storage_slot_csr_write F slot d)"
  "fs_frame mounted view (slot_path i ''key.bin'') (storage_slot_crl_number_write F slot n)"
  "fs_frame mounted view (slot_path i ''key.bin'') (meta_write F slot m)"
  "slot \<noteq> i \<Longrightarrow> fs_frame mounted view (slot_path i ''key.bin'') (storage_key_write F slot d)"
  using frame_write by (auto simp: fs_frame_def storage_slot_cert_write_def storage_slot_chain_write_def storage_slot_x509_write_def
      storage_slot_csr_write_def storage_slot_crl_number_write_def meta_write_def storage_slot_meta_write_def
      storage_key_write_def write_key_blob_def)

lemma frame_chain_delete [frame]: "fs_frame mounted view (slot_path i ''key.bin'') (storage_slot_chain_delete F slot)"
  using frame_unlink [of "slot_path slot ''chain.der''" "slot_path i ''key.bin''"]
  by (auto simp: fs_frame_def storage_slot_chain_delete_def unlink_quiet_def split: prod.splits) (metis snd_conv)

lemma frame_issued [frame]:
  "fs_frame mounted view (slot_path i ''key.bin'') (storage_issued_cert_write F serial d)"
  "fs_frame mounted view (slot_path i ''key.bin'') (storage_issued_meta_write F serial d)"
  using frame_write cert_not_key meta_not_key
  by (auto simp: fs_frame_def storage_issued_cert_write_def storage_issued_meta_write_def split: sum.splits)

lemma frame_iter:
  assumes "cb_frame mounted view q cb"
  shows "kept mounted view q s (snd (snd (iter_entries sel cb es u s)))"
proof (induction es arbitrary: u s)
  case (Cons e es)
  show ?case
  proof (cases "sel e")
    case None
    with Cons show ?thesis by simp
  next
    case (Some k)
    obtain r u' s' where c: "cb k u s = (r, u', s')" by (metis prod_cases3)
    with assms have "kept mounted view q s s'" unfolding cb_frame_def by (metis snd_conv)
    with kept_trans [OF this Cons] Some c show ?thesis by (cases r) simp_all
  qed
qed simp

lemma frame_issued_iter:
  assumes "cb_frame mounted view q cb"
  shows "kept mounted view q s (snd (snd (storage_issued_certs_iter F cb u s)))"
  by (cases "fs_list F certs_dir s") (simp_all add: storage_issued_certs_iter_def frame_iter [OF assms])

lemma frame_revoke: "fs_frame mounted view (slot_path i ''key.bin'') (ca_revoke_cert F serial now)"
proof -
  let ?q = "slot_path i ''key.bin''"
  have b: "kept mounted view ?q s (crl_number_bump F slot s)" for slot s
    using frame_slot(5) by (simp add: crl_number_bump_def fs_frame_def Let_def)
  have w: "kept mounted view ?q s s'" if "storage_issued_meta_write F serial d s = (r, s')" for s d r s'
    by (rule fs_frameD [OF frame_issued(2) that])
  show ?thesis
    unfolding fs_frame_def ca_revoke_cert_def
    by (auto simp: Let_def split: sum.splits prod.splits option.splits intro: w kept_trans [OF w b])
qed

lemma frame_expire: "fs_frame mounted view (slot_path i ''key.bin'') (ca_auto_expire F now)"
proof -
  let ?q = "slot_path i ''key.bin''"
  have cb: "cb_frame mounted view ?q (expire_cb F)"
    unfolding cb_frame_def expire_cb_def
    by (auto split: sum.splits prod.splits option.splits intro: fs_frameD [OF frame_issued(2)])
  have "kept mounted view ?q s (snd (ca_auto_expire F now s))" for s
    using frame_issued_iter [OF cb, of s "\<lparr>ex_now_unix = now, ex_count = 0, ex_err = None\<rparr>"]
    by (auto simp: ca_auto_expire_def split: prod.splits option.splits iter_rc.splits)
  then show ?thesis by (simp add: fs_frame_def)
qed

lemma frame_protect: "kept mounted view (slot_path i ''key.bin'') s (snd (protect_issued_certs F slot s))"
proof -
  let ?q = "slot_path i ''key.bin''"
  have cb: "cb_frame mounted view ?q (propagate_protected_cb F)"
    unfolding cb_frame_def propagate_protected_cb_def
    by (auto split: sum.splits prod.splits option.splits intro: fs_frameD [OF frame_issued(2)])
  show ?thesis
    using frame_issued_iter [OF cb, of s "\<lparr>pr_slot = slot, pr_count = 0\<rparr>"]
    by (auto simp: protect_issued_certs_def split: prod.splits option.splits iter_rc.splits)
qed

lemma frame_rm_entries:
  assumes "rm_entries F path es s = Some s'" and "path = root \<or> below root path" and "length root \<le> 126"
    and "q \<noteq> root" and "\<not> below root q"
  shows "kept mounted view q s s'"
proof -
  have under: "below root (take (PATH_MAX_LEN - 1) (child p n))" if p: "p = root \<or> below root p" for p n
  proof -
    from p obtain x where x: "child p n = root @ ''/'' @ x" by (auto simp: below_def child_def)
    have "take (PATH_MAX_LEN - 1) (child p n) = root @ ''/'' @ take (126 - length root) x"
      using assms(3) by (simp add: x PATH_MAX_LEN_def take_Cons')
    then show ?thesis by (auto simp: below_def)
  qed
  let ?P = "\<lambda>F' path es s s'. F' = F \<longrightarrow> path = root \<or> below root path \<longrightarrow> kept mounted view q s s'"
  have "?P F path es s s'"
  proof (rule rm_entries.raw_induct [where P = ?P, OF _ assms(1)], intro impI)
    fix rm F' p es s s'
    assume IH: "\<And>F' p es s s'. rm F' p es s = Some s' \<Longrightarrow> ?P F' p es s s'" and F: "F' = F" and p: "p = root \<or> below root p"
      and run: "(case es of [] \<Rightarrow> Some s | (n, t) # es \<Rightarrow> let c = take (PATH_MAX_LEN - 1) (child p n) in
        Option.bind (if t = FS_DIR_ENTRY_DIR then case fs_list F' c s of Inl x \<Rightarrow> Some s
            | Inr cs \<Rightarrow> Option.bind (rm F' c cs s) (\<lambda>s. Some (snd (fs_unlink F' c s))) else Some s)
          (\<lambda>s. rm F' p es (snd (fs_unlink F' c s)))) = Some s'"
    show "kept mounted view q s s'"
    proof (cases es)
      case (Cons e rest)
      obtain n t where e: "e = (n, t)" by (cases e)
      let ?c = "take (PATH_MAX_LEN - 1) (child p n)"
      note c = under [OF p, of n]
      then have "?c \<noteq> q" using assms(5) by auto
      note u = frame_unlink [OF this]
      from run obtain s1 where s1: "(if t = FS_DIR_ENTRY_DIR then case fs_list F ?c s of Inl x \<Rightarrow> Some s
            | Inr cs \<Rightarrow> Option.bind (rm F ?c cs s) (\<lambda>s. Some (snd (fs_unlink F ?c s))) else Some s) = Some s1"
        "rm F p rest (snd (fs_unlink F ?c s1)) = Some s'"
        unfolding F Cons e list.case prod.case Let_def bind_eq_Some_conv [of _ "\<lambda>s. rm _ _ _ (_ s)"] by blast
      have "kept mounted view q s s1"
      proof (cases "t = FS_DIR_ENTRY_DIR \<and> (\<exists>cs. fs_list F ?c s = Inr cs)")
        case True
        with s1(1) obtain cs s2 where s2: "rm F ?c cs s = Some s2" "s1 = snd (fs_unlink F ?c s2)"
          by (auto simp: bind_eq_Some_conv)
        from IH [OF s2(1)] c have "kept mounted view q s s2" by simp
        from kept_trans [OF this u [of s2]] s2(2) show ?thesis by simp
      qed (use s1(1) in \<open>auto split: if_splits sum.splits\<close>)
      from kept_trans [OF kept_trans [OF this u [of s1]]] IH [OF s1(2)] p show ?thesis by simp
    qed (use run in simp)
  qed
  with assms(2) show ?thesis by blast
qed

lemma frame_rm_rf:
  assumes "rm_rf F d s = Some (r, s')" and "length d \<le> 126" and "q \<noteq> d" and "\<not> below d q"
  shows "kept mounted view q s s'"
proof (cases "fs_list F d s")
  case (Inr es)
  with assms(1) obtain s2 where s2: "rm_entries F d es s = Some s2" "s' = snd (fs_unlink F d s2)"
    by (auto simp: rm_rf_def bind_eq_Some_conv)
  have "kept mounted view q s s2" using assms(3,4) by (intro frame_rm_entries [OF s2(1) _ assms(2)]) auto
  from kept_trans [OF this frame_unlink [of d q s2]] assms(3) s2(2) show ?thesis by simp
qed (use assms(1) in \<open>auto simp: rm_rf_def\<close>)

lemma frame_slot_delete:
  assumes "storage_slot_delete F slot s = Some (r, s')" and "slot \<noteq> i" and "slot < 2 ^ 32"
  shows "kept mounted view (slot_path i ''key.bin'') s s'"
proof -
  let ?q = "slot_path i ''key.bin''" and ?d = "slot_dir slot"
  obtain r1 s1 where w: "write_file F (slot_path slot ''key.bin'') (replicate KEY_BLOB_LEN 0xA5) s = (r1, s1)" by (metis surj_pair)
  have k1: "kept mounted view ?q s s1" using assms(2) by (intro fs_frameD [OF frame_write w]) simp
  have q: "?q \<noteq> ?d" "\<not> below ?d ?q"
  proof -
    have "i = slot" if "below ?d ?q"
    proof -
      from that obtain x where "dec_str i @ ''/'' @ ''key.bin'' = dec_str slot @ ''/'' @ x"
        by (auto simp: below_def slot_path_def slot_dir_def child_def)
      from slash_split [OF this] show ?thesis by simp
    qed
    with assms(2) show "\<not> below ?d ?q" by blast
    show "?q \<noteq> ?d"
    proof
      assume "?q = ?d"
      then have eq: "dec_str slot = dec_str i @ ''/key.bin''" by (simp add: slot_path_def slot_dir_def child_def)
      have "CHR ''/'' \<in> set (dec_str slot)" unfolding eq by simp
      then show False by simp
    qed
  qed
  have len: "length ?d \<le> 126"
    using length_dec_str [of slot 10] assms(3) by (simp add: slot_dir_def child_def keys_dir_def)
  from assms(1) w obtain r2 where rm: "rm_rf F ?d s1 = Some (r2, s')"
    by (auto simp: storage_slot_delete_def bind_eq_Some_conv)
  have "kept mounted view ?q s1 s'" by (rule frame_rm_rf [OF rm len q])
  with k1 show ?thesis by (rule kept_trans)
qed

lemma frame_build [frame]: "env_fs E = F \<Longrightarrow> act_frame mounted view (slot_path i ''key.bin'') (build_self_signed_cert E slot p)"
  unfolding build_self_signed_cert_def by (intro frame) (simp add: frame_slot)

lemma frame_register [frame]: "act_frame mounted view (slot_path i ''key.bin'') (register_cert F slot serial cn der)"
  unfolding register_cert_def by (intro frame)

lemma frame_mint: "env_fs E = F \<Longrightarrow> slot \<noteq> i \<Longrightarrow> act_frame mounted view (slot_path i ''key.bin'') (mint_key E slot m)"
  unfolding mint_key_def by (intro frame) (simp_all add: frame_slot)

lemma frame_install: "fs_frame mounted view (slot_path i ''key.bin'') (install_cert F slot cert chain)"
proof -
  let ?q = "slot_path i ''key.bin''"
  have "kept mounted view ?q s (snd (install_cert F slot cert chain s))" for s
  proof -
    obtain r s1 where w: "storage_slot_cert_write F slot cert s = (r, s1)" by (metis surj_pair)
    note k = fs_frameD [OF frame_slot(1) w]
    have c: "kept mounted view ?q s1 (snd (storage_slot_chain_write F slot chain s1))"
      "kept mounted view ?q s1 (snd (storage_slot_chain_delete F slot s1))"
      by (rule fs_frameD [OF frame_slot(2) prod.collapse [symmetric]], rule fs_frameD [OF frame_chain_delete prod.collapse [symmetric]])
    show ?thesis
      by (cases r) (simp_all add: install_cert_def w k kept_trans [OF k c(1)] kept_trans [OF k c(2)])
  qed
  then show ?thesis by (simp add: fs_frame_def)
qed

lemma frame_ops:
  assumes [simp]: "env_fs E = F"
  shows "kept mounted view (slot_path i ''key.bin'') (ca_fs S) (ca_fs (ca_init E S))"
    and "act_frame mounted view (slot_path i ''key.bin'') (ca_push_key_x509 E slot data)"
    and "act_frame mounted view (slot_path i ''key.bin'') (ca_gen_key_csr E slot dn)"
    and "act_frame mounted view (slot_path i ''key.bin'') (ca_sign_csr_slot E slot csr cap)"
    and "act_frame mounted view (slot_path i ''key.bin'') (ca_sign_key_slot E slot j)"
    and "act_frame mounted view (slot_path i ''key.bin'') (ca_sign_session_cert E slot blob cn priv x cap)"
proof -
  let ?q = "slot_path i ''key.bin''"
  note [simp] = frame_build frame_register frame_slot frame_chain_delete
  show "kept mounted view ?q (ca_fs S) (ca_fs (ca_init E S))"
    using frame_at [OF frame_build [OF assms, of i CA_SLOT], of "S\<lparr>provisioned := True\<rparr>"]
    by (simp add: ca_init_def Let_def split: sum.split)
  show "act_frame mounted view ?q (ca_push_key_x509 E slot data)"
    unfolding act_frame_def ca_push_key_x509_def Let_def
    by (auto split: option.split sum.split intro!: frame_at frame)
  show "act_frame mounted view ?q (ca_gen_key_csr E slot dn)"
    unfolding act_frame_def ca_gen_key_csr_def by (auto intro!: frame_at frame)
  have "act_frame mounted view ?q (sign_csr_der E slot csr cap)"
    unfolding act_frame_def sign_csr_der_def by (auto intro!: frame_at frame)
  then show "act_frame mounted view ?q (ca_sign_csr_slot E slot csr cap)"
    unfolding ca_sign_csr_slot_def by (auto intro!: frame)
  show "act_frame mounted view ?q (ca_sign_key_slot E slot j)"
    unfolding act_frame_def ca_sign_key_slot_def by (auto split: sum.split intro!: frame_at frame)
  show "act_frame mounted view ?q (ca_sign_session_cert E slot blob cn priv x cap)"
    unfolding act_frame_def ca_sign_session_cert_def by (auto intro!: frame_at frame)
qed

lemma frame_fs_ops:
  assumes [simp]: "env_fs E = F"
  shows "fs_frame mounted view (slot_path i ''key.bin'') (ca_protect_slot E slot b)"
    and "fs_frame mounted view (slot_path i ''key.bin'') (ca_unprotect_slot E slot)"
    and "fs_frame mounted view (slot_path i ''key.bin'') (ca_push_key_cert E slot cert chain)"
    and "fs_frame mounted view (slot_path i ''key.bin'') (ca_push_cert F cert chain)"
proof -
  let ?q = "slot_path i ''key.bin''"
  note w = fs_frameD [OF frame_slot(6)] and c = frame_install [unfolded fs_frame_def, rule_format]
  have pr: "kept mounted view ?q s (snd (protect_issued_certs F sl s'))" if "kept mounted view ?q s s'" for s s' sl
    by (rule kept_trans [OF that frame_protect])
  show "fs_frame mounted view ?q (ca_protect_slot E slot b)"
    unfolding fs_frame_def ca_protect_slot_def
    by (auto split: sum.split prod.split option.split intro: w pr)
  show "fs_frame mounted view ?q (ca_unprotect_slot E slot)"
    unfolding fs_frame_def ca_unprotect_slot_def
    using frame_slot(6) [of i slot] by (auto simp: fs_frame_def split: sum.split)
  show "fs_frame mounted view ?q (ca_push_key_cert E slot cert chain)"
    unfolding fs_frame_def ca_push_key_cert_def by (auto split: sum.split option.split intro: c)
  show "fs_frame mounted view ?q (ca_push_cert F cert chain)"
    unfolding fs_frame_def ca_push_cert_def by (auto intro: c)
qed

end

context fs_reliable begin

lemma first_free_used: "first_free F s is = Inr j \<Longrightarrow> mounted s \<Longrightarrow> view s (slot_path j ''key.bin'') = None"
  by (induction "is") (auto simp: storage_slot_key_exists_def file_exists_ok split: if_splits)

lemma frame_minting:
  assumes [simp]: "env_fs E = F"
  shows "survives mounted view (slot_path i ''key.bin'') (ca_fs S) (ca_fs (snd (ca_provision E t S)))"
    and "survives mounted view (slot_path i ''key.bin'') (ca_fs S) (ca_fs (snd (ca_gen_key E t S)))"
proof -
  let ?q = "slot_path i ''key.bin''"
  have m: "survives mounted view ?q (ca_fs S) (ca_fs (snd (act_then (mint_key E j m) f S)))"
    if "mounted (ca_fs S) \<Longrightarrow> view (ca_fs S) (slot_path j ''key.bin'') = None" and f: "\<And>q x. act_frame mounted view q (f x)"
    for S :: "('a, 'c) ca_state" and j m and f :: "unit \<Rightarrow> (('a, 'c) ca_state, 'e) act"
  proof (cases "j = i")
    case True
    have "j \<noteq> Suc j" by simp
    with frame_at [OF frame_then [OF frame_mint [OF assms this] f], of S] that(1) True show ?thesis
      by (auto simp: kept_def survives_def)
  next
    case False
    show ?thesis by (rule kept_survives [OF frame_at [OF frame_then [OF frame_mint [OF assms False] f]]])
  qed
  have r: "survives mounted view ?q s s" for s by (simp add: survives_def)
  show "survives mounted view ?q (ca_fs S) (ca_fs (snd (ca_provision E t S)))"
    unfolding ca_provision_def
    by (auto simp: Let_def storage_slot_key_exists_def file_exists_ok act_frame_def split: sum.split bool.split intro!: m r)
  show "survives mounted view ?q (ca_fs S) (ca_fs (snd (ca_gen_key E t S)))"
    unfolding ca_gen_key_def by (auto simp: Let_def split: sum.split intro!: m r frame first_free_used)
qed

lemma first_free_in: "first_free F s is = Inr j \<Longrightarrow> j \<in> set is"
  by (induction "is") (auto split: sum.splits bool.splits if_splits)

lemma frame_gen_key:
  assumes [simp]: "env_fs E = F"
  shows "act_frame mounted view (slot_path 0 ''key.bin'') (ca_gen_key E t)"
  unfolding act_frame_def ca_gen_key_def
  by (auto simp: Let_def split: sum.split intro!: frame_at frame frame_mint dest: first_free_in)

lemma do_op_keeps:
  assumes "env_fs E = F" and "max_key_slots E \<le> 2 ^ 32" and "i = 0 \<or> op \<noteq> Op_delete_key i" and "do_op E op S = Some S'"
  shows "survives mounted view (slot_path i ''key.bin'') (ca_fs S) (ca_fs S')"
proof (cases op)
  case (Op_delete_key slot)
  then obtain r s where d: "ca_delete_key E slot (ca_fs S) = Some (r, s)" "S' = put_fs s S" using assms(4) by auto
  show ?thesis
  proof (cases "storage_slot_delete F slot (ca_fs S) = Some (r, s) \<and> slot \<noteq> 0 \<and> slot < max_key_slots E")
    case True
    then have "slot \<noteq> i" using assms(3) Op_delete_key by auto
    from frame_slot_delete [OF _ this] True assms(2) show ?thesis by (simp add: d(2) kept_survives)
  qed (use d assms(1) in \<open>auto simp: ca_delete_key_def CA_SLOT_def kept_survives split: if_splits\<close>)
qed (use assms(1,4) kept_survives [OF frame_ops(1) [OF assms(1)]] frame_minting [OF assms(1)]
  frame_ops(2-6) [OF assms(1), THEN frame_at, THEN kept_survives]
  frame_fs_ops [OF assms(1), unfolded fs_frame_def, rule_format, THEN kept_survives]
  frame_revoke [unfolded fs_frame_def, rule_format, THEN kept_survives]
  frame_expire [unfolded fs_frame_def, rule_format, THEN kept_survives]
  in \<open>auto simp: on_fs_def\<close>)

lemma run_ops_keeps:
  assumes "env_fs E = F" and "max_key_slots E \<le> 2 ^ 32" and "i = 0 \<or> Op_delete_key i \<notin> set ops" and "run_ops E ops S = Some S'"
  shows "survives mounted view (slot_path i ''key.bin'') (ca_fs S) (ca_fs S')"
  using assms(3,4)
proof (induction ops arbitrary: S)
  case (Cons op ops)
  then obtain S1 where S1: "do_op E op S = Some S1" "run_ops E ops S1 = Some S'" by (auto simp: bind_eq_Some_conv)
  have "i = 0 \<or> op \<noteq> Op_delete_key i" using Cons.prems(1) by auto
  from do_op_keeps [OF assms(1,2) this S1(1)] Cons.IH [OF _ S1(2)] Cons.prems(1) show ?case
    by (auto intro: survives_trans)
qed (simp add: survives_def)

end

text \<open>
  C6: Key material is never overwritten.  Whatever sequence of CA operations runs, with
  whatever arguments and whether they succeed or fail, the encrypted key of a slot is
  byte for byte what it was; slot 0 without any exception, another slot unless it is
  itself the argument of a delete.
\<close>

theorem ca_key_permanent:
  assumes "fs_reliable (env_fs E) mounted view" and "max_key_slots E \<le> 2 ^ 32" and "mounted (ca_fs S)"
    and "view (ca_fs S) (slot_path i ''key.bin'') = Some (File blob)"
    and "i = 0 \<or> Op_delete_key i \<notin> set ops" and "run_ops E ops S = Some S'"
  shows "mounted (ca_fs S') \<and> view (ca_fs S') (slot_path i ''key.bin'') = Some (File blob)"
  using fs_reliable.run_ops_keeps [OF assms(1) refl assms(2,5,6)] assms(3,4) by (simp add: survives_def)

theorem ca_key_permanent_witness:
  "\<exists>S'. run_ops demo_env [Op_delete_key 0, Op_gen_key 0, Op_unprotect_slot 1, Op_revoke_cert [1] 5] demo_state = Some S'
    \<and> map_of (ca_fs S') ''/lfs/keys/0/key.bin'' = Some (File [5])"
proof -
  let ?ops = "[Op_delete_key 0, Op_gen_key 0, Op_unprotect_slot 1, Op_revoke_cert [1] 5]"
  have "\<exists>S'. run_ops demo_env ?ops demo_state = Some S'" by (simp add: ca_delete_key_def CA_SLOT_def)
  then obtain S' where run: "run_ops demo_env ?ops demo_state = Some S'" by blast
  have rel: "fs_reliable (env_fs demo_env) mem_inv map_of" using memr.fs_reliable_axioms by (simp add: demo_env_def)
  have p: "slot_path 0 ''key.bin'' = ''/lfs/keys/0/key.bin''"
    by (simp add: slot_path_def slot_dir_def child_def keys_dir_def dec_str.simps digit_char_def char_of_eq_iff take_bit_eq_mod)
  have v: "map_of (ca_fs demo_state) (slot_path 0 ''key.bin'') = Some (File [5])"
    unfolding p by (simp add: demo_state_def demo_keys_fs_def)
  have inv: "mem_inv (ca_fs demo_state)"
    by (simp add: demo_state_def demo_keys_fs_def mem_inv_def path_ok_def comp_ok_def name_ok_def upt_rec is_file_def)
  have slots: "max_key_slots demo_env \<le> 2 ^ 32" by (simp add: demo_env_def)
  from ca_key_permanent [OF rel slots inv v _ run] show ?thesis using run by (auto simp: p)
qed

end
