(* ===== verification/Protocol_Frame.thy ===== *)
theory Protocol_Frame
  imports Waiting Ca_Frame
begin

text \<open>
  What the requests of a client leave alone.  \<open>dev_frame\<close> and \<open>h_frame\<close> lift the frames of
  theory \<open>Ca_Frame\<close> to the operations on the session identity and to the handlers of the
  dispatcher; the rules for the building blocks of a handler are in the collection \<open>hframe\<close>.
\<close>

named_theorems hframe "handlers that leave the content of a path alone"

definition dev_frame :: "('fs \<Rightarrow> bool) \<Rightarrow> ('fs \<Rightarrow> string \<Rightarrow> node option) \<Rightarrow> string
    \<Rightarrow> (('fs, 'r) dev_state \<Rightarrow> 'b \<times> ('fs, 'r) dev_state) \<Rightarrow> bool" where
  "dev_frame M V q m \<longleftrightarrow> (\<forall>S. kept M V q (ds_fs S) (ds_fs (snd (m S))))"

text \<open>A handler also has to keep the invariant of the gesture engine.\<close>

definition ap_inv :: "gconf \<Rightarrow> ('fs, 'r, 't) appliance \<Rightarrow> bool" where
  "ap_inv c A \<longleftrightarrow> gesture_inv c (gest (ap_gest A))"

definition h_frame :: "gconf \<Rightarrow> ('fs \<Rightarrow> bool) \<Rightarrow> ('fs \<Rightarrow> string \<Rightarrow> node option) \<Rightarrow> string \<Rightarrow> ('fs, 'r, 't, 'h) task \<Rightarrow> bool" where
  "h_frame c M V q h \<longleftrightarrow> (\<forall>A out A'. h A = Some (out, A') \<longrightarrow> ap_inv c A \<longrightarrow> ap_inv c A' \<and> kept M V q (ap_fs A) (ap_fs A'))"

subsection \<open>Operations on the session identity\<close>

lemma dev_frame_then [hframe]:
  assumes "dev_frame M V q m" and "\<And>x. dev_frame M V q (f x)"
  shows "dev_frame M V q (act_then m f)"
  unfolding dev_frame_def
proof
  fix S
  obtain r S1 where m: "m S = (r, S1)" by (metis surj_pair)
  then have k: "kept M V q (ds_fs S) (ds_fs S1)" using assms(1) unfolding dev_frame_def by (metis snd_conv)
  show "kept M V q (ds_fs S) (ds_fs (snd (act_then m f S)))"
  proof (cases r)
    case (Inr x)
    from assms(2) [of x] have "kept M V q (ds_fs S1) (ds_fs (snd (f x S1)))" by (simp add: dev_frame_def)
    with k kept_trans show ?thesis by (auto simp: act_then_def m Inr)
  qed (use k in \<open>simp add: act_then_def m\<close>)
qed

lemma dev_frame_ca [hframe]: "act_frame M V q m \<Longrightarrow> dev_frame M V q (ca_do m)"
  unfolding dev_frame_def ca_do_def act_frame_def by (auto split: prod.split) (metis snd_conv)

lemma dev_frame_basic [hframe]:
  "dev_frame M V q (dev_get g)" "dev_frame M V q (dev_rng h)" "dev_frame M V q (fails e)" "dev_frame M V q (gives x)"
  "dev_frame M V q (\<lambda>S. (k S, S))"
  by (simp_all add: dev_frame_ca dev_get_def dev_rng_def frame_basic) (simp_all add: dev_frame_def fails_def gives_def)

lemma dev_frame_fs [hframe]: "fs_frame M V q f \<Longrightarrow> dev_frame M V q (dev_fs f)"
  unfolding dev_fs_def by (intro hframe frame)

lemma dev_frame_at: "dev_frame M V q m \<Longrightarrow> kept M V q (ds_fs S) (ds_fs (snd (m S)))"
  by (simp add: dev_frame_def)

lemma session_not_key [simp]: "child session_dir f \<noteq> slot_path i g"
  by (simp add: child_def session_dir_def slot_path_def slot_dir_def keys_dir_def)

lemma client_not_key [simp]: "client_hex_path b f \<noteq> slot_path i g" "client_dir b \<noteq> slot_path i g"
  by (simp_all add: client_hex_path_def client_dir_def child_def clients_dir_def slot_path_def slot_dir_def keys_dir_def)

lemma config_not_key [simp]: "UNLOCK_SEQ_PATH \<noteq> slot_path i g" "UNLOCK_ATTEMPTS_PATH \<noteq> slot_path i g"
  by (simp_all add: UNLOCK_SEQ_PATH_def UNLOCK_ATTEMPTS_PATH_def child_def slot_path_def slot_dir_def keys_dir_def)

context fs_laws begin

lemma frame_session [frame]:
  "fs_frame mounted view (slot_path i ''key.bin'') (storage_session_cert_write F d)"
  "fs_frame mounted view (slot_path i ''key.bin'') (storage_session_csr_write F d)"
  "fs_frame mounted view (slot_path i ''key.bin'') (storage_session_meta_write F d)"
  "fs_frame mounted view (slot_path i ''key.bin'') (storage_session_chain_write F d)"
  using frame_write by (auto simp: fs_frame_def storage_session_cert_write_def storage_session_csr_write_def
      storage_session_meta_write_def storage_session_chain_write_def)

lemma frame_session_chain_delete [frame]: "fs_frame mounted view (slot_path i ''key.bin'') (storage_session_chain_delete F)"
  using frame_unlink [of "child session_dir ''chain.der''" "slot_path i ''key.bin''"]
  by (auto simp: fs_frame_def storage_session_chain_delete_def unlink_quiet_def split: prod.splits) (metis snd_conv)

lemma frame_client_dir:
  assumes "rm_rf F (client_dir (client_bond_id pub)) s = Some (rc, s')"
  shows "kept mounted view (slot_path i ''key.bin'') s s'"
proof (rule frame_rm_rf [OF assms])
  show "length (client_dir (client_bond_id pub)) \<le> 126"
    by (simp add: client_dir_def child_def clients_dir_def client_bond_id_def)
  show "\<not> below (client_dir (client_bond_id pub)) (slot_path i ''key.bin'')"
    by (auto simp: below_def client_dir_def child_def clients_dir_def slot_path_def slot_dir_def keys_dir_def)
qed (rule client_not_key(2) [symmetric])

lemma frame_bond:
  "fs_frame mounted view (slot_path i ''key.bin'') (client_bond_set_name F pub name)"
  "client_bond_remove F pub s = Some (r, s') \<Longrightarrow> kept mounted view (slot_path i ''key.bin'') s s'"
proof -
  show "fs_frame mounted view (slot_path i ''key.bin'') (client_bond_set_name F pub name)"
    using frame_write by (auto simp: fs_frame_def client_bond_set_name_def storage_client_bond_meta_write_def split: sum.splits)
  assume "client_bond_remove F pub s = Some (r, s')"
  then consider "s' = s" | rc where "rm_rf F (client_dir (client_bond_id pub)) s = Some (rc, s')"
    by (auto simp: client_bond_remove_def Let_def storage_client_bond_delete_def bind_eq_Some_conv split: option.splits if_splits)
  then show "kept mounted view (slot_path i ''key.bin'') s s'"
    by cases (auto intro: frame_client_dir)
qed

lemma frame_bond_add:
  assumes "client_bond_add F C pub kind now v = Some (rc, v')"
  shows "kept mounted view (slot_path i ''key.bin'') (vfs v) (vfs v')"
proof -
  let ?i = "client_bond_id pub" and ?q = "slot_path i ''key.bin''"
  have w: "kept mounted view ?q s s'" if "write_file F (client_hex_path ?i f) d s = (r, s')" for f d r s s'
    using fs_frameD [OF frame_write that] client_not_key(1) by (metis (full_types))
  from assms consider "vfs v' = vfs v"
    | s1 r1 where "write_file F (client_hex_path ?i ''pubkey.bin'') pub (vfs v) = (r1, s1)" "vfs v' = s1"
    | s1 s2 r2 where "write_file F (client_hex_path ?i ''pubkey.bin'') pub (vfs v) = (None, s1)"
        "write_file F (client_hex_path ?i ''meta.bin'') (client_meta_bytes (new_client_meta kind now)) s1 = (r2, s2)"
        "vfs v' = s2 \<or> (\<exists>rc. rm_rf F (client_dir ?i) s2 = Some (rc, vfs v'))"
    by (auto simp: client_bond_add_def Let_def storage_client_bond_pubkey_write_def storage_client_bond_meta_write_def
        storage_client_bond_delete_def bind_eq_Some_conv split: if_splits sum.splits prod.splits option.splits)
  then show ?thesis
  proof cases
    case 2
    then show ?thesis using w by blast
  next
    case 3
    have k: "kept mounted view ?q (vfs v) s2" by (rule kept_trans [OF w [OF 3(1)] w [OF 3(2)]])
    from 3(3) show ?thesis
    proof (elim disjE exE)
      fix rc assume "rm_rf F (client_dir ?i) s2 = Some (rc, vfs v')"
      from kept_trans [OF k frame_client_dir [OF this]] show ?thesis .
    qed (use k in simp)
  qed simp
qed

lemma frame_session_ops:
  assumes [simp]: "env_fs (dv_ca D) = F"
  shows "dev_frame mounted view (slot_path i ''key.bin'') (session_slot_get_csr D cap)"
    and "dev_frame mounted view (slot_path i ''key.bin'') (session_slot_sign_from_slot D slot force)"
    and "dev_frame mounted view (slot_path i ''key.bin'') (session_slot_push_cert D cert chain force)"
proof -
  let ?q = "slot_path i ''key.bin''"
  note [simp] = frame_ops(6) [OF assms] frame_session frame_session_chain_delete
  show "dev_frame mounted view ?q (session_slot_get_csr D cap)"
    unfolding dev_frame_def session_slot_get_csr_def by (auto intro!: dev_frame_at hframe frame)
  show "dev_frame mounted view ?q (session_slot_sign_from_slot D slot force)"
    unfolding dev_frame_def session_slot_sign_from_slot_def by (auto split: option.split intro!: dev_frame_at hframe frame)
  show "dev_frame mounted view ?q (session_slot_push_cert D cert chain force)"
    unfolding dev_frame_def session_slot_push_cert_def by (auto split: option.split intro!: dev_frame_at hframe frame)
qed

end

subsection \<open>Building blocks of the handlers\<close>

lemma ap_fs_simps [simp]:
  "ap_fs (put_ca C A) = ca_fs C" "ap_fs (put_ap_fs s A) = s" "ap_fs (from_gest d A) = gfs (gest d)"
  "ap_ca (put_ca C A) = C" "gfs (gest (to_gest A)) = ap_fs A" "ap_gest (put_ca C A) = ap_gest A"
  "ap_user (from_gest d A) = ap_user A" "clock (to_gest A) = clock (ap_gest A)"
  by (simp_all add: put_ca_def put_ap_fs_def from_gest_def to_gest_def put_fs_def)

lemma ap_inv_simps [simp]:
  "ap_inv c (put_ca C A) = ap_inv c A" "ap_inv c (put_ap_fs s A) = ap_inv c A" "ap_inv c (A\<lparr>ap_dev := D\<rparr>) = ap_inv c A"
  "ap_inv c (A\<lparr>ap_sess := x\<rparr>) = ap_inv c A" "ap_inv c (A\<lparr>ap_link := y\<rparr>) = ap_inv c A" "ap_inv c (A\<lparr>ap_user := z\<rparr>) = ap_inv c A"
  "ap_inv c (A\<lparr>ap_sess := x, ap_link := y\<rparr>) = ap_inv c A"
  "ap_inv c (from_gest d A) = gesture_inv c (gest d)" "gesture_inv c (gest (to_gest A)) = ap_inv c A"
  by (simp_all add: ap_inv_def put_ca_def put_ap_fs_def from_gest_def to_gest_def gesture_inv_def)

lemma h_frameD:
  "h_frame c M V q h \<Longrightarrow> h A = Some (out, A') \<Longrightarrow> ap_inv c A \<Longrightarrow> ap_inv c A' \<and> kept M V q (ap_fs A) (ap_fs A')"
  by (simp add: h_frame_def)

lemma h_frameI:
  "(\<And>A out A'. h A = Some (out, A') \<Longrightarrow> ap_inv c A \<Longrightarrow> ap_inv c A' \<and> kept M V q (ap_fs A) (ap_fs A')) \<Longrightarrow> h_frame c M V q h"
  by (simp add: h_frame_def)

text \<open>A handler that goes on from another state.\<close>

lemma h_frame_step:
  assumes "h_frame c M V q k" and "ap_inv c A1" and "kept M V q (ap_fs A) (ap_fs A1)" and "k A1 = Some (out, A')"
  shows "ap_inv c A' \<and> kept M V q (ap_fs A) (ap_fs A')"
  using h_frameD [OF assms(1,4,2)] kept_trans [OF assms(3)] by blast

lemma h_frame_answer [hframe]: "h_frame c M V q (answer err d)"
  by (simp add: h_frame_def answer_def)

lemma h_frame_reboot [hframe]: "h_frame c M V q (\<lambda>A. Some (Rebooting k, A))"
  by (simp add: h_frame_def)

lemma h_frame_if [hframe]: "h_frame c M V q a \<Longrightarrow> h_frame c M V q b \<Longrightarrow> h_frame c M V q (if x then a else b)"
  by simp

lemma h_frame_case [hframe]:
  "(\<And>e. h_frame c M V q (f e)) \<Longrightarrow> (\<And>x. h_frame c M V q (g x)) \<Longrightarrow> h_frame c M V q (case r of Inl e \<Rightarrow> f e | Inr x \<Rightarrow> g x)"
  "h_frame c M V q a \<Longrightarrow> (\<And>x. h_frame c M V q (b x)) \<Longrightarrow> h_frame c M V q (case r' of None \<Rightarrow> a | Some x \<Rightarrow> b x)"
  "(\<And>x y. h_frame c M V q (h x y)) \<Longrightarrow> h_frame c M V q (case p of (x, y) \<Rightarrow> h x y)"
  by (auto split: sum.split option.split prod.split)

lemma h_frame_let [hframe]: "(\<And>x. h_frame c M V q (f x)) \<Longrightarrow> h_frame c M V q (Let y f)"
  by (simp add: Let_def)

lemma h_frame_run_ca [hframe]:
  assumes "act_frame M V q m" and "\<And>x. h_frame c M V q (k x)"
  shows "h_frame c M V q (run_ca m k)"
proof (rule h_frameI)
  fix A out A' assume run: "run_ca m k A = Some (out, A')" and inv: "ap_inv c A"
  obtain x C where m: "m (ap_ca A) = (x, C)" by (metis surj_pair)
  with run have "k x (put_ca C A) = Some (out, A')" by (simp add: run_ca_def)
  from h_frame_step [OF assms(2) _ _ this, of A] inv act_frameD [OF assms(1) m]
  show "ap_inv c A' \<and> kept M V q (ap_fs A) (ap_fs A')" by simp
qed

lemma h_frame_run_dev [hframe]:
  assumes "dev_frame M V q m" and "\<And>x. h_frame c M V q (k x)"
  shows "h_frame c M V q (run_dev m k)"
proof (rule h_frameI)
  fix A out A' assume run: "run_dev m k A = Some (out, A')" and inv: "ap_inv c A"
  obtain x D where m: "m (ap_dev A) = (x, D)" by (metis surj_pair)
  with run have "k x (A\<lparr>ap_dev := D\<rparr>) = Some (out, A')" by (simp add: run_dev_def)
  from h_frame_step [OF assms(2) _ _ this, of A] inv dev_frame_at [OF assms(1), of "ap_dev A"] m
  show "ap_inv c A' \<and> kept M V q (ap_fs A) (ap_fs A')" by simp
qed

lemma h_frame_run_fs:
  assumes "\<And>s r s'. m s = Some (r, s') \<Longrightarrow> kept M V q s s'" and "\<And>x. h_frame c M V q (k x)"
  shows "h_frame c M V q (run_fs m k)"
proof (rule h_frameI)
  fix A out A' assume run: "run_fs m k A = Some (out, A')" and inv: "ap_inv c A"
  then obtain x s where m: "m (ap_fs A) = Some (x, s)" "k x (put_ap_fs s A) = Some (out, A')"
    by (auto simp: run_fs_def bind_eq_Some_conv)
  from h_frame_step [OF assms(2) _ _ m(2), of A] inv assms(1) [OF m(1)]
  show "ap_inv c A' \<and> kept M V q (ap_fs A) (ap_fs A')" by simp
qed

lemma h_frame_run_fs_total [hframe]:
  "fs_frame M V q m \<Longrightarrow> (\<And>x. h_frame c M V q (k x)) \<Longrightarrow> h_frame c M V q (run_fs (Some \<circ> m) k)"
  by (rule h_frame_run_fs) (auto dest: fs_frameD)

lemma h_frame_run_gest:
  assumes "\<And>now g. gesture_inv c g \<Longrightarrow> gesture_inv c (snd (m now g)) \<and> kept M V q (gfs g) (gfs (snd (m now g)))"
    and "\<And>x. h_frame c M V q (k x)"
  shows "h_frame c M V q (run_gest m k)"
proof (rule h_frameI)
  fix A out A' assume run: "run_gest m k A = Some (out, A')" and inv: "ap_inv c A"
  let ?d = "to_gest A"
  obtain x g where m: "m (clock ?d) (gest ?d) = (x, g)" by (metis surj_pair)
  with run have "k x (from_gest (?d\<lparr>gest := g\<rparr>) A) = Some (out, A')" by (simp add: run_gest_def Let_def)
  from h_frame_step [OF assms(2) _ _ this, of A] inv assms(1) [of "gest ?d" "clock ?d"] m
  show "ap_inv c A' \<and> kept M V q (ap_fs A) (ap_fs A')" by simp
qed

lemma h_frame_run_send [hframe]:
  assumes "\<And>x. h_frame c M V q (k x)"
  shows "h_frame c M V q (run_send P T msg k)"
proof (rule h_frameI)
  fix A out A' assume run: "run_send P T msg k A = Some (out, A')" and inv: "ap_inv c A"
  obtain x s t where m: "session_send (dv_noise (pe_dev P)) T (ap_sess A) msg (ap_link A) = (x, s, t)" by (metis prod_cases3)
  with run have "k x (A\<lparr>ap_sess := s, ap_link := t\<rparr>) = Some (out, A')" by (simp add: run_send_def)
  from h_frame_step [OF assms _ _ this, of A] inv show "ap_inv c A' \<and> kept M V q (ap_fs A) (ap_fs A')" by simp
qed

lemma h_frame_at [hframe]:
  "(\<And>x. h_frame c M V q (k x)) \<Longrightarrow> h_frame c M V q (reads f k)" "h_frame c M V q (read_or err u f)"
  unfolding h_frame_def reads_def read_or_def answer_def by (auto split: sum.splits)

lemma h_frame_finish [hframe]:
  "h_frame c M V q (finish tbl other r)" "h_frame c M V q (finish_rc tbl other rc)" "h_frame c M V q (finish_data tbl other d)"
  unfolding finish_def finish_rc_def finish_data_def by (intro hframe)+

subsection \<open>The gesture engine\<close>

lemma get_state_keeps [simp]: "gfs (snd (gesture_get_state c now g)) = gfs g"
  by (simp add: gesture_get_state_def led_set_idle_def)

lemma h_frame_get_state [hframe]:
  "(\<And>x. h_frame c M V q (k x)) \<Longrightarrow> h_frame c M V q (run_gest (gesture_get_state c) k)"
  by (rule h_frame_run_gest) (simp_all add: inv_get_state)

lemma h_frame_led [hframe]:
  "h_frame c M V q k \<Longrightarrow> h_frame c M V q (run_led (led_set_idle p) k)"
  "h_frame c M V q k \<Longrightarrow> h_frame c M V q (run_led (led_play_oneshot p) k)"
  unfolding run_led_def by (rule h_frame_run_gest; simp add: led_set_idle_def led_play_oneshot_def gesture_inv_def)+

text \<open>What a request for a gesture leaves behind when it is accepted.\<close>

lemma request_confirm_accepted:
  assumes "gesture_request_confirm c now cb g = (None, g')"
  shows "gstate g = CANTIL_STATE_UNLOCKED \<and> gstate g' = CANTIL_STATE_AWAITING_CONFIRM \<and> closed_digits c g' = []
    \<and> gfs g' = gfs g \<and> unlock_seq g' = unlock_seq g"
  using assms by (auto simp: gesture_request_confirm_def transition_def led_set_idle_def reset_accumulator_def closed_digits_def
      split: if_splits alphabet.splits)

lemma request_reset_accepted:
  assumes "gesture_request_reset c now cb g = (None, g')"
  shows "gstate g' = CANTIL_STATE_AWAITING_RESET \<and> closed_digits c g' = []
    \<and> gfs g' = gfs g \<and> unlock_seq g' = unlock_seq g"
  using assms by (auto simp: gesture_request_reset_def transition_def led_set_idle_def reset_accumulator_def closed_digits_def
      split: if_splits alphabet.splits)

lemma request_refused:
  "gesture_request_confirm c now cb g = (Some e, g') \<Longrightarrow> g' = g" "gesture_request_reset c now cb g = (Some e, g') \<Longrightarrow> g' = g"
  by (auto simp: gesture_request_confirm_def gesture_request_reset_def split: if_splits)

text \<open>
  \<open>asked_by req A\<close>: the gesture engine after the request \<open>req\<close> on the appliance \<open>A\<close>.
\<close>

definition asked_by :: "(int \<Rightarrow> (host_cb, 'fs) gesture \<Rightarrow> errno option \<times> (host_cb, 'fs) gesture) \<Rightarrow> ('fs, 'r, 't) appliance
    \<Rightarrow> (host_cb, 'fs) device" where
  "asked_by req A = (let d = to_gest A in d\<lparr>gest := snd (req (clock d) (gest d))\<rparr>)"

lemma await_typed:
  assumes "await_answer F c es d = Some (r, es', d')" and "gesture_inv c (gest d)" and "answer_seq c (gest d) = Some sq"
    and "closed_digits c (gest d) = []"
  shows "gesture_inv c (gest d') \<and> gfs (gest d') = gfs (gest d) \<and> unlock_seq (gest d') = unlock_seq (gest d)
    \<and> (r = CANTIL_CONFIRM_OK \<longrightarrow> user_typed F c sq es d es')"
proof -
  have "awaiting (gstate (gest d))" using assms(3) by (simp add: answer_seq_def split: cantil_state.splits)
  from await_answer_ends [OF assms(1,2) this] assms(3,4) show ?thesis by (auto simp: user_typed_def)
qed

lemma to_from_gest [simp]: "to_gest (from_gest d A) = d" "to_gest ((from_gest d A)\<lparr>ap_user := es\<rparr>) = d"
  by (simp_all add: to_gest_def from_gest_def put_ap_fs_def put_ca_def put_fs_def)

lemma from_gest_dev: "gfs (gest d) = ap_fs A \<Longrightarrow> ap_dev (from_gest d A) = ap_dev A"
  by (simp add: from_gest_def put_ap_fs_def put_ca_def put_fs_def)

lemma wait_cases:
  assumes "run_wait P k A = Some (out, A')" and "ap_inv (pe_gest P) A" and "answer_seq (pe_gest P) (gest (ap_gest A)) = Some sq"
    and "closed_digits (pe_gest P) (gest (ap_gest A)) = []"
  obtains r A1 where "k r A1 = Some (out, A')" and "ap_dev A1 = ap_dev A" and "ap_inv (pe_gest P) A1"
    and "r = CANTIL_CONFIRM_OK \<longrightarrow> user_typed (pe_fs P) (pe_gest P) sq (ap_user A) (to_gest A) (ap_user A1)"
proof -
  from assms(1) obtain r es d where w: "await_answer (pe_fs P) (pe_gest P) (ap_user A) (to_gest A) = Some (r, es, d)"
    "k r (from_gest d (A\<lparr>ap_user := es\<rparr>)) = Some (out, A')"
    by (auto simp: run_wait_def bind_eq_Some_conv)
  have "answer_seq (pe_gest P) (gest (to_gest A)) = Some sq" "closed_digits (pe_gest P) (gest (to_gest A)) = []"
    using assms(3,4) by (auto simp: to_gest_def answer_seq_def closed_digits_def split: cantil_state.splits alphabet.splits)
  note t = await_typed [OF w(1) _ this]
  show thesis
  proof (rule that [OF w(2)])
    show "ap_dev (from_gest d (A\<lparr>ap_user := es\<rparr>)) = ap_dev A"
      using t assms(2) by (simp add: from_gest_dev)
  qed (use t assms(2) in simp_all)
qed

lemma ap_gest_from [simp]: "ap_gest (from_gest d A) = d"
  by (simp add: from_gest_def put_ap_fs_def put_ca_def)

lemma confirmed_cases:
  fixes A :: "('fs, 'r, 't) appliance"
  assumes "confirmed P h A = Some (out, A')" and "ap_inv (pe_gest P) A"
  obtains (refused) err where "out = Respond err []" and "err \<noteq> ERR_OK" and "ap_dev A' = ap_dev A" and "ap_inv (pe_gest P) A'"
  | (confirmed) A1 where "h A1 = Some (out, A')" and "ap_dev A1 = ap_dev A" and "ap_inv (pe_gest P) A1"
    and "user_typed (pe_fs P) (pe_gest P) (SEQ_CONFIRM (pe_gest P)) (ap_user A)
      (asked_by (\<lambda>now. gesture_request_confirm (pe_gest P) now protect_confirm_cb) A) (ap_user A1)"
proof -
  let ?c = "pe_gest P" and ?d = "to_gest A"
  let ?req = "\<lambda>now. gesture_request_confirm ?c now protect_confirm_cb"
  obtain rc g where r: "?req (clock ?d) (gest ?d) = (rc, g)" by (metis surj_pair)
  define A0 where "A0 = from_gest (?d\<lparr>gest := g\<rparr>) A"
  have inv: "gesture_inv ?c g" using inv_requests(1) [of ?c "gest ?d" "clock ?d" protect_confirm_cb] assms(2) r by simp
  have asked: "asked_by ?req A = to_gest A0" using r by (simp add: asked_by_def Let_def A0_def)
  show thesis
  proof (cases rc)
    case (Some e)
    have "g = gest ?d" by (rule request_refused(1) [OF r [unfolded Some]])
    then have "ap_dev A0 = ap_dev A" by (simp add: A0_def from_gest_dev)
    moreover from assms(1) Some r obtain err where "out = Respond err []" "err \<noteq> ERR_OK" "A' = A0"
      by (auto simp: confirmed_def await_protect_confirm_def run_gest_def Let_def answer_def A0_def split: if_splits)
    ultimately show thesis using inv by (intro refused) (simp_all add: A0_def)
  next
    case None
    note acc = request_confirm_accepted [OF r [unfolded None]]
    have dev: "ap_dev A0 = ap_dev A" using acc by (simp add: A0_def from_gest_dev)
    have seq: "answer_seq ?c (gest (ap_gest A0)) = Some (SEQ_CONFIRM ?c)" "closed_digits ?c (gest (ap_gest A0)) = []" "ap_inv ?c A0"
      using acc inv by (simp_all add: A0_def answer_seq_def)
    from assms(1) None r have "run_wait P (\<lambda>r. if r \<noteq> CANTIL_CONFIRM_OK then answer ERR_BUSY [] else h) A0 = Some (out, A')"
      by (simp add: confirmed_def await_protect_confirm_def run_gest_def Let_def A0_def if_distrib cong: if_cong)
    then obtain x A1 where w: "(if x \<noteq> CANTIL_CONFIRM_OK then answer ERR_BUSY [] else h) A1 = Some (out, A')"
      "ap_dev A1 = ap_dev A0" "ap_inv ?c A1"
      "x = CANTIL_CONFIRM_OK \<longrightarrow> user_typed (pe_fs P) ?c (SEQ_CONFIRM ?c) (ap_user A0) (to_gest A0) (ap_user A1)"
      by (rule wait_cases [OF _ seq(3,1,2)])
    show thesis
    proof (cases "x = CANTIL_CONFIRM_OK")
      case True
      with w dev asked show thesis by (intro confirmed [of A1]) (simp_all add: A0_def)
    next
      case False
      with w dev show thesis by (intro refused [of ERR_BUSY]) (auto simp: answer_def)
    qed
  qed
qed

lemma h_frame_confirmed [hframe]:
  assumes "h_frame (pe_gest P) M V q h"
  shows "h_frame (pe_gest P) M V q (confirmed P h)"
proof (rule h_frameI)
  fix A out A' assume run: "confirmed P h A = Some (out, A')" and inv: "ap_inv (pe_gest P) A"
  from run inv show "ap_inv (pe_gest P) A' \<and> kept M V q (ap_fs A) (ap_fs A')"
  proof (cases rule: confirmed_cases)
    case (confirmed A1)
    from h_frameD [OF assms confirmed(1,3)] confirmed(2) show ?thesis by simp
  qed simp
qed

lemma run_led_eq: "run_led f k A = k (from_gest ((to_gest A)\<lparr>gest := f (gest (to_gest A))\<rparr>) A)"
  by (simp add: run_led_def run_gest_def Let_def)

lemma wipe_cases:
  assumes "wipe_and_reboot P A = Some (out, A')" and "ap_inv (pe_gest P) A"
  obtains (refused) "out = Respond ERR_VOLUME_INVALID []" and "ap_dev A' = ap_dev A" and "ap_inv (pe_gest P) A'"
  | (wiped) v where "storage_secure_wipe (pe_fs P) (ca_vol (ap_ca A)) = Some (None, v)" and "ap_ca A' = (ap_ca A)\<lparr>ca_vol := v\<rparr>"
    and "out = Rebooting Cold" and "ap_inv (pe_gest P) A'" and "ap_user A' = ap_user A"
proof -
  define A0 where "A0 = from_gest ((to_gest A)\<lparr>gest := led_set_idle LED_PATTERN_RESET_WIPING (gest (to_gest A))\<rparr>) A"
  have A0: "ap_dev A0 = ap_dev A" "ap_inv (pe_gest P) A0" "ap_user A0 = ap_user A"
    using assms(2) by (simp_all add: A0_def from_gest_dev led_set_idle_def) (simp_all add: gesture_inv_def ap_inv_def to_gest_def)
  from assms(1) A0(1) obtain rc v where v: "storage_secure_wipe (pe_fs P) (ca_vol (ap_ca A)) = Some (rc, v)"
    "(if rc \<noteq> None then answer ERR_VOLUME_INVALID [] else run_led (led_play_oneshot LED_PATTERN_RESET_COMPLETE)
      (\<lambda>A. Some (Rebooting Cold, A))) (put_ca ((ap_ca A)\<lparr>ca_vol := v\<rparr>) A0) = Some (out, A')"
    by (auto simp: wipe_and_reboot_def run_led_eq vol_wipe_def bind_eq_Some_conv simp flip: A0_def)
  show thesis
  proof (cases rc)
    case None
    let ?A1 = "put_ca ((ap_ca A)\<lparr>ca_vol := v\<rparr>) A0"
    let ?d = "(to_gest ?A1)\<lparr>gest := led_play_oneshot LED_PATTERN_RESET_COMPLETE (gest (to_gest ?A1))\<rparr>"
    from v(2) None have A': "A' = from_gest ?d ?A1" "out = Rebooting Cold" by (auto simp: run_led_eq)
    then have "ap_dev A' = ap_dev ?A1" by (simp add: from_gest_dev led_play_oneshot_def)
    with v(1) None A0 A' show thesis by (intro wiped [of v]) (simp_all add: put_ca_def)
  next
    case (Some e)
    with v(1) have "v = ca_vol (ap_ca A)" by (auto simp: storage_secure_wipe_def bind_eq_Some_conv Let_def split_beta split: if_splits)
    with Some v(2) A0 show thesis by (intro refused) (auto simp: answer_def put_ca_def ap_inv_def)
  qed
qed

lemma reset_cases:
  fixes A :: "('fs, 'r, 't) appliance"
  assumes "handle_reset_device P T seq A = Some (out, A')" and "ap_inv (pe_gest P) A"
  obtains (refused) err where "out = Respond err []" and "err \<noteq> ERR_OK" and "ap_dev A' = ap_dev A" and "ap_inv (pe_gest P) A'"
  | (wiped) v where "storage_secure_wipe (pe_fs P) (ca_vol (ap_ca A)) = Some (None, v)" and "ap_ca A' = (ap_ca A)\<lparr>ca_vol := v\<rparr>"
    and "out = Rebooting Cold" and "ap_inv (pe_gest P) A'"
    and "user_typed (pe_fs P) (pe_gest P) (unlock_seq (gest (ap_gest A))) (ap_user A)
      (asked_by (\<lambda>now. gesture_request_reset (pe_gest P) now reset_confirm_cb) A) (ap_user A')"
proof -
  let ?c = "pe_gest P" and ?d = "to_gest A"
  let ?req = "\<lambda>now. gesture_request_reset ?c now reset_confirm_cb"
  obtain rc g where r: "?req (clock ?d) (gest ?d) = (rc, g)" by (metis surj_pair)
  define A0 where "A0 = from_gest (?d\<lparr>gest := g\<rparr>) A"
  have inv: "gesture_inv ?c g" using inv_requests(2) [of ?c "gest ?d" "clock ?d" reset_confirm_cb] assms(2) r by simp
  have asked: "asked_by ?req A = to_gest A0" using r by (simp add: asked_by_def Let_def A0_def)
  show thesis
  proof (cases rc)
    case (Some e)
    have "g = gest ?d" by (rule request_refused(2) [OF r [unfolded Some]])
    then have "ap_dev A0 = ap_dev A" by (simp add: A0_def from_gest_dev)
    moreover from assms(1) Some r obtain err where "out = Respond err []" "err \<noteq> ERR_OK" "A' = A0"
      by (auto simp: handle_reset_device_def run_gest_def Let_def answer_def A0_def split: if_splits)
    ultimately show thesis using inv by (intro refused) (simp_all add: A0_def)
  next
    case None
    let ?k = "\<lambda>r. if r \<noteq> CANTIL_CONFIRM_OK then answer ERR_BUSY [] else wipe_and_reboot P"
    note acc = request_reset_accepted [OF r [unfolded None]]
    from assms(1) None r obtain A2 where A2: "run_wait P ?k A2 = Some (out, A')"
      "ap_dev A2 = ap_dev A0" "ap_gest A2 = ap_gest A0" "ap_user A2 = ap_user A0"
      by (auto simp: handle_reset_device_def run_gest_def Let_def A0_def send_ack_def run_send_def
          split: sum.splits prod.splits)
    have seq: "answer_seq ?c (gest (ap_gest A2)) = Some (unlock_seq (gest (ap_gest A)))" "closed_digits ?c (gest (ap_gest A2)) = []"
      "ap_inv ?c A2" and dev: "ap_dev A2 = ap_dev A" and g2: "to_gest A2 = to_gest A0"
      using acc inv A2(2,3) by (simp_all add: A0_def answer_seq_def from_gest_dev ap_inv_def to_gest_def)
    from A2(1) obtain x A1 where w: "?k x A1 = Some (out, A')" "ap_dev A1 = ap_dev A2" "ap_inv ?c A1"
      "x = CANTIL_CONFIRM_OK \<longrightarrow> user_typed (pe_fs P) ?c (unlock_seq (gest (ap_gest A))) (ap_user A2) (to_gest A2) (ap_user A1)"
      by (rule wait_cases [OF _ seq(3,1,2)])
    show thesis
    proof (cases "x = CANTIL_CONFIRM_OK")
      case True
      with w(1) have "wipe_and_reboot P A1 = Some (out, A')" by simp
      from this w(3) show thesis
      proof (cases rule: wipe_cases)
        case refused
        with w(2) dev show thesis by (intro that(1) [of ERR_VOLUME_INVALID]) simp_all
      next
        case (wiped v)
        with w(2,4) dev True asked g2 A2(4) show thesis by (intro that(2)) (simp_all add: A0_def)
      qed
    next
      case False
      with w dev show thesis by (intro refused [of ERR_BUSY]) (auto simp: answer_def)
    qed
  qed
qed

context fs_laws begin

lemma frame_set_unlock_seq:
  assumes "gesture_inv c g" and "unat len \<le> length sq"
  shows "gesture_inv c (snd (gesture_set_unlock_seq F c (Some sq) len g))
    \<and> kept mounted view (slot_path i ''key.bin'') (gfs g) (gfs (snd (gesture_set_unlock_seq F c (Some sq) len g)))"
proof -
  have "fs_frame mounted view (slot_path i ''key.bin'') (storage_unlock_seq_write F d)" for d
    using frame_write by (simp add: fs_frame_def storage_unlock_seq_write_def)
  then show ?thesis using inv_set_unlock_seq [OF assms(1), where sq = "Some sq" and len = len and F = F] assms(2)
    by (auto simp: gesture_set_unlock_seq_def Let_def split_beta fs_frame_def)
qed

lemma frame_sign_csr_der:
  "env_fs E = F \<Longrightarrow> act_frame mounted view (slot_path i ''key.bin'') (sign_csr_der E slot csr cap)"
  unfolding act_frame_def sign_csr_der_def by (auto intro!: frame_at frame)

lemma frame_singles:
  assumes [simp]: "pe_fs P = F" and "max_key_slots (pe_ca P) \<le> 2 ^ 32"
  shows "h_frame (pe_gest P) mounted view (slot_path i ''key.bin'') (do_get_cert_count P)"
    and "h_frame (pe_gest P) mounted view (slot_path i ''key.bin'') (do_get_session_cert P)"
    and "h_frame (pe_gest P) mounted view (slot_path i ''key.bin'') (do_unpair_client P data)"
    and "h_frame (pe_gest P) mounted view (slot_path i ''key.bin'') (do_set_unlock_seq P data)"
    and "h_frame (pe_gest P) mounted view (slot_path 0 ''key.bin'') (do_delete_key P data)"
proof -
  let ?q = "slot_path i ''key.bin''"
  show "h_frame (pe_gest P) mounted view ?q (do_get_cert_count P)"
    by (auto simp: h_frame_def do_get_cert_count_def answer_def split: sum.splits)
  show "h_frame (pe_gest P) mounted view ?q (do_get_session_cert P)"
    by (auto simp: h_frame_def do_get_session_cert_def finish_data_def answer_def split: sum.splits)
  show "h_frame (pe_gest P) mounted view ?q (do_unpair_client P data)"
    unfolding do_unpair_client_def by (intro hframe h_frame_run_fs) (auto dest: frame_bond(2))
  have "unat (word_of_nat n :: byte) \<le> n" for n by (simp add: unat_of_nat)
  then show "h_frame (pe_gest P) mounted view ?q (do_set_unlock_seq P data)"
    unfolding do_set_unlock_seq_def by (intro hframe h_frame_run_gest) (simp add: frame_set_unlock_seq)
  have "kept mounted view (slot_path 0 ''key.bin'') s s'" if "ca_delete_key (pe_ca P) slot s = Some (r, s')" for slot s r s'
    using that frame_slot_delete [of slot s r s' 0] assms(2)
    by (auto simp: ca_delete_key_def CA_SLOT_def split: if_splits)
  then show "h_frame (pe_gest P) mounted view (slot_path 0 ''key.bin'') (do_delete_key P data)"
    unfolding do_delete_key_def by (intro hframe h_frame_run_fs) auto
qed

lemmas handler_defs = handle_sign_csr_def handle_get_ca_cert_def handle_device_status_def handle_get_random_def
  handle_get_random_names_def send_ack_def handle_update_firmware_def do_get_ca_chain_def do_get_session_csr_def
  do_sign_session_from_slot_def do_push_session_cert_def do_push_ca_cert_def do_auto_expire_def do_revoke_cert_def do_get_crl_def
  do_gen_key_def do_protect_slot_def do_unprotect_slot_def do_gen_key_csr_def do_get_key_csr_def
  do_sign_csr_slot_def do_sign_key_slot_def do_push_key_cert_def do_push_key_x509_def do_set_client_name_def

end

context fs_reliable begin

lemma h_frame_status: "h_frame c M V q (\<lambda>A. answer err (f A) A)"
  by (simp add: h_frame_def answer_def)

lemma frame_handlers:
  assumes "pe_fs P = F"
  shows "h_frame (pe_gest P) mounted view (slot_path i ''key.bin'') (handle_sign_csr P data)"
    and "h_frame (pe_gest P) mounted view (slot_path i ''key.bin'') (handle_get_ca_cert P)"
    and "h_frame (pe_gest P) mounted view (slot_path i ''key.bin'') (handle_device_status P)"
    and "h_frame (pe_gest P) mounted view (slot_path i ''key.bin'') (handle_get_random P data)"
    and "h_frame (pe_gest P) mounted view (slot_path i ''key.bin'') (handle_get_random_names P data)"
    and "h_frame (pe_gest P) mounted view (slot_path i ''key.bin'') (handle_update_firmware P T seq)"
    and "h_frame (pe_gest P) mounted view (slot_path i ''key.bin'') (do_get_ca_chain P data)"
    and "h_frame (pe_gest P) mounted view (slot_path i ''key.bin'') (do_get_session_csr P)"
    and "h_frame (pe_gest P) mounted view (slot_path i ''key.bin'') (do_sign_session_from_slot P data)"
    and "h_frame (pe_gest P) mounted view (slot_path i ''key.bin'') (do_push_session_cert P data)"
    and "h_frame (pe_gest P) mounted view (slot_path i ''key.bin'') (do_push_ca_cert P data)"
    and "h_frame (pe_gest P) mounted view (slot_path i ''key.bin'') (do_auto_expire P data)"
    and "h_frame (pe_gest P) mounted view (slot_path i ''key.bin'') (do_revoke_cert P data)"
    and "h_frame (pe_gest P) mounted view (slot_path i ''key.bin'') (do_get_crl P data)"
    and "h_frame (pe_gest P) mounted view (slot_path i ''key.bin'') (do_protect_slot P data)"
    and "h_frame (pe_gest P) mounted view (slot_path i ''key.bin'') (do_unprotect_slot P data)"
    and "h_frame (pe_gest P) mounted view (slot_path i ''key.bin'') (do_gen_key_csr P data)"
    and "h_frame (pe_gest P) mounted view (slot_path i ''key.bin'') (do_get_key_csr P data)"
    and "h_frame (pe_gest P) mounted view (slot_path i ''key.bin'') (do_sign_csr_slot P data)"
    and "h_frame (pe_gest P) mounted view (slot_path i ''key.bin'') (do_sign_key_slot P data)"
    and "h_frame (pe_gest P) mounted view (slot_path i ''key.bin'') (do_push_key_cert P data)"
    and "h_frame (pe_gest P) mounted view (slot_path i ''key.bin'') (do_push_key_x509 P data)"
    and "h_frame (pe_gest P) mounted view (slot_path i ''key.bin'') (do_set_client_name P data)"
    and "h_frame (pe_gest P) mounted view (slot_path 0 ''key.bin'') (do_gen_key P data)"
  by (unfold handler_defs assms) (intro hframe frame h_frame_status frame_fs_ops [OF assms] frame_revoke frame_expire
      frame_bond(1) frame_ops(2-5) [OF assms] frame_gen_key [OF assms] frame_sign_csr_der [OF assms]
      frame_session_ops [OF assms])+

lemma dispatch_frame:
  assumes "pe_fs P = F" and "max_key_slots (pe_ca P) \<le> 2 ^ 32"
    and "cmd_of (cmd_bits P) cmd \<noteq> Some CMD_PROVISION_CA" and "cmd_of (cmd_bits P) cmd \<noteq> Some CMD_RESET_DEVICE"
  shows "h_frame (pe_gest P) mounted view (slot_path 0 ''key.bin'') (dispatch P T cmd seq data)"
proof (cases "cmd_of (cmd_bits P) cmd")
  case None
  then show ?thesis by (simp add: dispatch_def hframe)
next
  case (Some c)
  note handlers = frame_handlers [OF assms(1)] frame_singles [OF assms(1,2)]
  show ?thesis
    by (cases c) (use Some assms(3,4) in \<open>simp_all add: dispatch_def handlers hframe\<close>)
qed

end

end
