(* ===== verification/Transport.thy ===== *)
theory Transport
  imports Session
begin

text \<open>
  The transports of the device, \<open>firmware/src/transport\<close>: the USB driver with its receive
  ring, the BLE driver with its packet buffer, and the choice between them.

  The UART and the Bluetooth stack are outside: what the UART's FIFO delivers is the list of
  chunks \<open>u_fifo\<close>, one per interrupt, and interrupts are taken while the receive loop sleeps;
  what was sent is \<open>u_sent\<close>.  BLE packets arrive while \<open>ble_recv\<close> waits for the semaphore, and
  the outcome of \<open>bt_nus_send\<close> is the parameter \<open>nus\<close>.
\<close>

definition USB_RX_RING_BYTES :: nat where "USB_RX_RING_BYTES = 4096"
definition BLE_RX_BUF_SIZE :: nat where "BLE_RX_BUF_SIZE = 512"

subsection \<open>USB\<close>

record usb_state =
  usb_rx_ring :: "byte list"
  u_connected :: bool
  u_fifo :: "byte list list"
  u_sent :: "byte list"
  u_now :: int

definition usb_uart_isr :: "byte list \<Rightarrow> usb_state \<Rightarrow> usb_state" where
  "usb_uart_isr chunk u = u\<lparr>usb_rx_ring := usb_rx_ring u @ take (USB_RX_RING_BYTES - length (usb_rx_ring u)) chunk\<rparr>"

definition usb_send :: "byte list \<Rightarrow> usb_state \<Rightarrow> errno option \<times> usb_state" where
  "usb_send buf u = (None, u\<lparr>u_sent := u_sent u @ buf\<rparr>)"

definition usb_recv :: "nat \<Rightarrow> usb_state \<Rightarrow> byte list res \<times> usb_state" where
  "usb_recv max_len u = (Inr (take max_len (usb_rx_ring u)), u\<lparr>usb_rx_ring := drop max_len (usb_rx_ring u)\<rparr>)"

text \<open>One millisecond of sleep: the next interrupt, if any, is taken.\<close>

definition usb_msleep :: "usb_state \<Rightarrow> usb_state" where
  "usb_msleep u = (case u_fifo u of
     [] \<Rightarrow> u\<lparr>u_now := u_now u + 1\<rparr>
   | c # cs \<Rightarrow> usb_uart_isr c (u\<lparr>u_fifo := cs, u_now := u_now u + 1\<rparr>))"

definition usb_transport :: "usb_state transport" where
  "usb_transport = \<lparr>t_send = usb_send, t_recv = usb_recv, t_connected = u_connected, t_uptime = u_now, t_msleep = usb_msleep\<rparr>"

definition update_connected :: "bool \<Rightarrow> usb_state \<Rightarrow> usb_state" where
  "update_connected dtr u = u\<lparr>u_connected := dtr\<rparr>"

datatype usbd_msg = USBD_MSG_CONTROL_LINE_STATE bool bool | USBD_MSG_VBUS_READY | USBD_MSG_VBUS_REMOVED | USBD_MSG_OTHER

text \<open>The messages of the stack: the control-line message says whether it is for the protocol port, and the level of DTR.\<close>

definition usbd_msg_cb :: "bool \<Rightarrow> usbd_msg \<Rightarrow> usb_state \<Rightarrow> usb_state" where
  "usbd_msg_cb can_detect_vbus m u = (case m of
     USBD_MSG_CONTROL_LINE_STATE for_cdc dtr \<Rightarrow> if for_cdc then update_connected dtr u else u
   | USBD_MSG_VBUS_REMOVED \<Rightarrow> if can_detect_vbus then u\<lparr>u_connected := False\<rparr> else u
   | _ \<Rightarrow> u)"

definition transport_usb_get :: "usb_state \<Rightarrow> usb_state transport option" where
  "transport_usb_get u = (if u_connected u then Some usb_transport else None)"

definition transport_usb_flush_rx :: "usb_state \<Rightarrow> usb_state" where
  "transport_usb_flush_rx u = u\<lparr>usb_rx_ring := []\<rparr>"

subsection \<open>BLE\<close>

record ble_state =
  rx_buf :: "byte list"
  rx_sem :: bool
  active_conn :: "nat option"
  b_connected :: bool
  b_packets :: "byte list list"
  b_sent :: "byte list"
  b_now :: int

definition nus_received :: "byte list \<Rightarrow> ble_state \<Rightarrow> ble_state" where
  "nus_received data b =
    (if length data \<le> BLE_RX_BUF_SIZE - length (rx_buf b) then b\<lparr>rx_buf := rx_buf b @ data, rx_sem := True\<rparr> else b\<lparr>rx_sem := True\<rparr>)"

definition ble_send :: "(nat \<Rightarrow> byte list \<Rightarrow> errno option) \<Rightarrow> byte list \<Rightarrow> ble_state \<Rightarrow> errno option \<times> ble_state" where
  "ble_send nus buf b = (case active_conn b of
     None \<Rightarrow> (Some ENOTCONN, b)
   | Some c \<Rightarrow> (case nus c buf of Some e \<Rightarrow> (Some e, b) | None \<Rightarrow> (None, b\<lparr>b_sent := b_sent b @ buf\<rparr>)))"

definition ble_wait :: "ble_state \<Rightarrow> ble_state" where
  "ble_wait b =
    (if rx_sem b then b\<lparr>rx_sem := False\<rparr>
     else case b_packets b of
       [] \<Rightarrow> b\<lparr>b_now := b_now b + 100\<rparr>
     | p # ps \<Rightarrow> (nus_received p (b\<lparr>b_packets := ps\<rparr>))\<lparr>rx_sem := False\<rparr>)"

definition ble_recv :: "nat \<Rightarrow> ble_state \<Rightarrow> byte list res \<times> ble_state" where
  "ble_recv max_len b =
    (let b = ble_wait b; n = min (length (rx_buf b)) max_len in (Inr (take n (rx_buf b)), b\<lparr>rx_buf := drop n (rx_buf b)\<rparr>))"

text \<open>The driver has no \<open>connected\<close> hook.\<close>

definition ble_transport :: "(nat \<Rightarrow> byte list \<Rightarrow> errno option) \<Rightarrow> ble_state transport" where
  "ble_transport nus = \<lparr>t_send = ble_send nus, t_recv = ble_recv, t_connected = (\<lambda>_. True), t_uptime = b_now,
     t_msleep = (\<lambda>b. b\<lparr>b_now := b_now b + 1\<rparr>)\<rparr>"

definition conn_connected :: "nat \<Rightarrow> bool \<Rightarrow> ble_state \<Rightarrow> ble_state" where
  "conn_connected conn err b = (if err then b else b\<lparr>active_conn := Some conn, b_connected := True\<rparr>)"

definition conn_disconnected :: "nat \<Rightarrow> ble_state \<Rightarrow> ble_state" where
  "conn_disconnected conn b = (if active_conn b = Some conn then b\<lparr>active_conn := None, b_connected := False\<rparr> else b)"

subsection \<open>The choice\<close>

datatype active_transport = No_transport | Usb_active | Ble_active

text \<open>The two flags say which drivers are compiled in.\<close>

definition transport_get_active :: "bool \<Rightarrow> bool \<Rightarrow> usb_state \<Rightarrow> ble_state \<Rightarrow> active_transport" where
  "transport_get_active has_usb has_ble u b =
    (if has_usb \<and> u_connected u then Usb_active
     else if has_ble then if b_connected b then Ble_active else No_transport
     else No_transport)"

end
