(* ===== verification/Host_X509.thy ===== *)
theory Host_X509
  imports Cantil_Prelude
begin

text \<open>
  The X.509 reader of the host library: the seam \<open>libcantil/src/x509.h\<close> with its two
  implementations, \<open>x509_wolfssl.c\<close> and \<open>x509_openssl.c\<close>.

  The seam is a record of the three functions that \<open>trust.c\<close> calls; exactly one
  implementation is compiled.  The libraries are the parameters \<open>L\<close> (wolfSSL, whose
  certificate manager has the state \<open>'cm\<close>) and \<open>OS\<close> (OpenSSL, whose certificates have type
  \<open>'x\<close>).  Allocation failures have no counterpart, except where the library object is
  created.
\<close>

datatype x509_err = X509_ERR_PARSE | X509_ERR_ABSENT | X509_ERR_SPACE | X509_ERR_CHAIN | X509_ERR_INTERNAL

definition CANTIL_X509_SUBJECT_MAX :: nat where "CANTIL_X509_SUBJECT_MAX = 512"

record host_x509 =
  x509_subject_der :: "byte list \<Rightarrow> nat \<Rightarrow> x509_err + byte list"
  x509_subject_cn :: "byte list \<Rightarrow> nat \<Rightarrow> x509_err + byte list"
  x509_verify_chain :: "byte list \<Rightarrow> byte list list \<Rightarrow> byte list \<Rightarrow> x509_err option"

subsection \<open>wolfSSL\<close>

text \<open>
  The fields of \<open>DecodedCert\<close> that the backend reads: the subject with the offset at which
  its contents start, the common name, and whether the three OIDs are those of the profile.
\<close>

record host_decoded =
  hd_subjectRaw :: "nat \<times> byte list"
  hd_subjectCN :: "byte list"
  hd_sha256_ecdsa :: bool
  hd_ecdsa_key :: bool
  hd_p256 :: bool

record 'cm wolfssl =
  w_ParseCert :: "byte list \<Rightarrow> host_decoded option"
  w_CertManagerNew :: "'cm option"
  w_CertManagerLoadCABuffer :: "byte list \<Rightarrow> 'cm \<Rightarrow> 'cm option"
  w_CertManagerVerifyBuffer :: "(bool \<Rightarrow> int \<Rightarrow> bool) \<Rightarrow> 'cm \<Rightarrow> byte list \<Rightarrow> bool"
  ASN_BEFORE_DATE_E :: int
  ASN_AFTER_DATE_E :: int

definition wolf_decode :: "'cm wolfssl \<Rightarrow> byte list \<Rightarrow> x509_err + host_decoded" where
  "wolf_decode L der = (case w_ParseCert L der of None \<Rightarrow> Inl X509_ERR_PARSE | Some dc \<Rightarrow> Inr dc)"

definition profile_ok :: "host_decoded \<Rightarrow> bool" where
  "profile_ok dc \<longleftrightarrow> hd_sha256_ecdsa dc \<and> hd_ecdsa_key dc \<and> hd_p256 dc"

definition wolf_subject_der :: "'cm wolfssl \<Rightarrow> byte list \<Rightarrow> nat \<Rightarrow> x509_err + byte list" where
  "wolf_subject_der L cert cap =
    (if cert = [] then Inl X509_ERR_PARSE
     else ok_then (wolf_decode L cert) (\<lambda>dc.
       let (off, content) = hd_subjectRaw dc; content_len = length content in
       if content_len = 0 then Inl X509_ERR_ABSENT
       else
         let hdr = (if content_len < 0x80 then 2 else if content_len \<le> 0xFF then 3 else if content_len \<le> 0xFFFF then 4 else 5);
             total = hdr + content_len
         in if off < hdr \<or> cert ! (off - hdr) \<noteq> 0x30 then Inl X509_ERR_PARSE
            else if total > cap then Inl X509_ERR_SPACE
            else Inr (take total (drop (off - hdr) cert))))"

definition wolf_subject_cn :: "'cm wolfssl \<Rightarrow> byte list \<Rightarrow> nat \<Rightarrow> x509_err + byte list" where
  "wolf_subject_cn L cert cap =
    (if cap = 0 \<or> cert = [] then Inl X509_ERR_PARSE
     else ok_then (wolf_decode L cert) (\<lambda>dc.
       if hd_subjectCN dc = [] then Inl X509_ERR_ABSENT
       else if length (hd_subjectCN dc) + 1 > cap then Inl X509_ERR_SPACE
       else Inr (hd_subjectCN dc)))"

definition date_tolerant_verify :: "'cm wolfssl \<Rightarrow> bool \<Rightarrow> int \<Rightarrow> bool" where
  "date_tolerant_verify L preverify err \<longleftrightarrow> preverify \<or> err = ASN_BEFORE_DATE_E L \<or> err = ASN_AFTER_DATE_E L"

text \<open>One round over the intermediates, and the rounds; \<open>promoted\<close> is the array of that name.\<close>

fun wolf_promote :: "'cm wolfssl \<Rightarrow> byte list list \<Rightarrow> nat list \<Rightarrow> 'cm \<times> bool list \<times> bool \<Rightarrow> 'cm \<times> bool list \<times> bool" where
  "wolf_promote L inters [] st = st"
| "wolf_promote L inters (i # is) (cm, promoted, progress) =
    (if promoted ! i \<or> inters ! i = [] then wolf_promote L inters is (cm, promoted, progress)
     else if \<not> w_CertManagerVerifyBuffer L (date_tolerant_verify L) cm (inters ! i)
     then wolf_promote L inters is (cm, promoted, progress)
     else case w_CertManagerLoadCABuffer L (inters ! i) cm of
       None \<Rightarrow> wolf_promote L inters is (cm, promoted, progress)
     | Some cm \<Rightarrow> wolf_promote L inters is (cm, promoted[i := True], True))"

fun wolf_rounds :: "'cm wolfssl \<Rightarrow> byte list \<Rightarrow> byte list list \<Rightarrow> nat \<Rightarrow> 'cm \<Rightarrow> bool list \<Rightarrow> x509_err option" where
  "wolf_rounds L leaf inters 0 cm promoted = Some X509_ERR_CHAIN"
| "wolf_rounds L leaf inters (Suc n) cm promoted =
    (if w_CertManagerVerifyBuffer L (date_tolerant_verify L) cm leaf then None
     else case wolf_promote L inters [0..<length inters] (cm, promoted, False) of (cm, promoted, progress) \<Rightarrow>
       if progress then wolf_rounds L leaf inters n cm promoted else Some X509_ERR_CHAIN)"

definition wolf_verify_chain :: "'cm wolfssl \<Rightarrow> byte list \<Rightarrow> byte list list \<Rightarrow> byte list \<Rightarrow> x509_err option" where
  "wolf_verify_chain L leaf inters ca =
    (if leaf = [] \<or> ca = [] then Some X509_ERR_PARSE
     else case wolf_decode L leaf of
       Inl e \<Rightarrow> Some e
     | Inr dc \<Rightarrow>
         if \<not> profile_ok dc then Some X509_ERR_CHAIN
         else case w_CertManagerNew L of
           None \<Rightarrow> Some X509_ERR_INTERNAL
         | Some cm \<Rightarrow>
             (case w_CertManagerLoadCABuffer L ca cm of
                None \<Rightarrow> Some X509_ERR_PARSE
              | Some cm \<Rightarrow> wolf_rounds L leaf inters (length inters + 1) cm (replicate (length inters) False)))"

definition wolf_x509 :: "'cm wolfssl \<Rightarrow> host_x509" where
  "wolf_x509 L = \<lparr>x509_subject_der = wolf_subject_der L, x509_subject_cn = wolf_subject_cn L, x509_verify_chain = wolf_verify_chain L\<rparr>"

subsection \<open>OpenSSL\<close>

text \<open>
  \<open>o_verify_cert\<close> is \<open>X509_verify_cert\<close> on a context with the given trusted certificate, leaf
  and untrusted certificates; the flag says that validity dates are not checked.  \<open>o_group\<close>
  is \<open>None\<close> when the key is not an elliptic-curve key or has no group name.
\<close>

record 'x openssl =
  o_d2i_X509 :: "byte list \<Rightarrow> 'x option"
  o_signature_is_ecdsa_sha256 :: "'x \<Rightarrow> bool"
  o_group :: "'x \<Rightarrow> string option"
  o_i2d_subject :: "'x \<Rightarrow> byte list"
  o_commonName :: "'x \<Rightarrow> byte list option"
  o_store_ok :: "'x \<Rightarrow> bool"
  o_verify_cert :: "bool \<Rightarrow> 'x \<Rightarrow> 'x \<Rightarrow> 'x list \<Rightarrow> bool"

definition ossl_decode :: "'x openssl \<Rightarrow> byte list \<Rightarrow> 'x option" where
  "ossl_decode OS der = (if der = [] then None else o_d2i_X509 OS der)"

definition leaf_profile_ok :: "'x openssl \<Rightarrow> 'x \<Rightarrow> bool" where
  "leaf_profile_ok OS leaf \<longleftrightarrow> o_signature_is_ecdsa_sha256 OS leaf
    \<and> (o_group OS leaf = Some ''prime256v1'' \<or> o_group OS leaf = Some ''P-256'')"

definition ossl_subject_der :: "'x openssl \<Rightarrow> byte list \<Rightarrow> nat \<Rightarrow> x509_err + byte list" where
  "ossl_subject_der OS cert cap =
    (case ossl_decode OS cert of
       None \<Rightarrow> Inl X509_ERR_PARSE
     | Some crt \<Rightarrow>
         let name = o_i2d_subject OS crt in
         if name = [] then Inl X509_ERR_PARSE else if length name > cap then Inl X509_ERR_SPACE else Inr name)"

definition ossl_subject_cn :: "'x openssl \<Rightarrow> byte list \<Rightarrow> nat \<Rightarrow> x509_err + byte list" where
  "ossl_subject_cn OS cert cap =
    (if cap = 0 then Inl X509_ERR_PARSE
     else case ossl_decode OS cert of
       None \<Rightarrow> Inl X509_ERR_PARSE
     | Some crt \<Rightarrow>
         (case o_commonName OS crt of
            None \<Rightarrow> Inl X509_ERR_ABSENT
          | Some cn \<Rightarrow> if length cn + 1 > cap then Inl X509_ERR_SPACE else Inr cn))"

definition ossl_verify_chain :: "'x openssl \<Rightarrow> byte list \<Rightarrow> byte list list \<Rightarrow> byte list \<Rightarrow> x509_err option" where
  "ossl_verify_chain OS leaf_der inters ca_der =
    (case ossl_decode OS leaf_der of
       None \<Rightarrow> Some X509_ERR_PARSE
     | Some leaf \<Rightarrow>
    (case ossl_decode OS ca_der of
       None \<Rightarrow> Some X509_ERR_PARSE
     | Some ca \<Rightarrow>
         if \<not> leaf_profile_ok OS leaf then Some X509_ERR_CHAIN
         else
           let untrusted = List.map_filter (ossl_decode OS) inters in
           if \<not> o_store_ok OS ca then Some X509_ERR_INTERNAL
           else if o_verify_cert OS True ca leaf untrusted then None else Some X509_ERR_CHAIN))"

definition ossl_x509 :: "'x openssl \<Rightarrow> host_x509" where
  "ossl_x509 OS = \<lparr>x509_subject_der = ossl_subject_der OS, x509_subject_cn = ossl_subject_cn OS, x509_verify_chain = ossl_verify_chain OS\<rparr>"

end
