(* ===== verification/Trust.thy ===== *)
theory Trust
  imports Host_X509
begin

text \<open>
  The trust policies of the host library, \<open>libcantil/src/trust.c\<close>: the store of allowed
  roots and the four tiers.

  A store is the list of its certificates in the order they were added (\<open>capacity\<close> only
  governs reallocation).  A null pointer in a policy is \<open>None\<close>.  The device chain of the
  session is the list of its certificates, leaf first.  \<open>X\<close> is the X.509 seam and \<open>sha\<close> the
  hash of libsodium.
\<close>

datatype cantil_err =
    CANTIL_OK | CANTIL_ERR_IO | CANTIL_ERR_NOISE | CANTIL_ERR_PROTOCOL | CANTIL_ERR_DEVICE_LOCKED | CANTIL_ERR_TIMEOUT
  | CANTIL_ERR_NO_MEMORY | CANTIL_ERR_INVALID_ARG | CANTIL_ERR_NOT_SUPPORTED | CANTIL_ERR_CERT_INVALID | CANTIL_ERR_KEY_FULL
  | CANTIL_ERR_KEY_NOT_FOUND | CANTIL_ERR_CERT_NOT_FOUND | CANTIL_ERR_BOND_FULL | CANTIL_ERR_ALREADY_REVOKED
  | CANTIL_ERR_TRUST | CANTIL_ERR_AUTH | CANTIL_ERR_PASSKEY_REQUIRED | CANTIL_ERR_FW_UPDATE_BUSY
  | CANTIL_ERR_FW_UPDATE_FLASH | CANTIL_ERR_NOT_PROVISIONED | CANTIL_ERR_ALREADY_PROVISIONED | CANTIL_ERR_VOLUME_INVALID

datatype trust_mode =
    CANTIL_TRUST_NONE | CANTIL_TRUST_PINNED_SELF_SIGNED | CANTIL_TRUST_CA_ALLOWLIST | CANTIL_TRUST_CA_PLUS_CN_PIN

type_synonym trust_store = "byte list list"

record trust_policy =
  tp_mode :: trust_mode
  expected_fingerprint :: "byte list option"
  expected_subject_der :: "byte list option"
  tp_store :: "trust_store option"
  expected_cn :: "byte list option"

definition cantil_trust_store_new :: trust_store where "cantil_trust_store_new = []"

definition cantil_trust_add_ca :: "trust_store \<Rightarrow> byte list \<Rightarrow> errno option \<times> trust_store" where
  "cantil_trust_add_ca store cert = (if cert = [] then (Some EINVAL, store) else (None, store @ [cert]))"

text \<open>The directory is the list of its entries, with the contents of those that could be read.\<close>

fun load_entries :: "(string \<times> byte list option) list \<Rightarrow> trust_store \<Rightarrow> nat \<Rightarrow> nat \<times> trust_store" where
  "load_entries [] store loaded = (loaded, store)"
| "load_entries ((name, content) # es) store loaded =
    (if length name < 5 \<or> drop (length name - 4) name \<noteq> ''.der'' then load_entries es store loaded
     else case content of
       None \<Rightarrow> load_entries es store loaded
     | Some buf \<Rightarrow>
         if length buf = 0 \<or> length buf > 65536 then load_entries es store loaded
         else case cantil_trust_add_ca store buf of
           (None, store) \<Rightarrow> load_entries es store (loaded + 1)
         | (Some _, store) \<Rightarrow> load_entries es store loaded)"

definition cantil_trust_load_dir :: "errno + (string \<times> byte list option) list \<Rightarrow> trust_store \<Rightarrow> nat res \<times> trust_store" where
  "cantil_trust_load_dir dir store =
    (case dir of Inl e \<Rightarrow> (Inl e, store) | Inr es \<Rightarrow> (case load_entries es store 0 of (n, store) \<Rightarrow> (Inr n, store)))"

definition tier2_check_subject :: "host_x509 \<Rightarrow> trust_policy \<Rightarrow> byte list \<Rightarrow> cantil_err" where
  "tier2_check_subject X policy leaf =
    (case expected_subject_der policy of
       None \<Rightarrow> CANTIL_OK
     | Some want \<Rightarrow>
         if want = [] then CANTIL_OK
         else case x509_subject_der X leaf CANTIL_X509_SUBJECT_MAX of
           Inl _ \<Rightarrow> CANTIL_ERR_TRUST
         | Inr subject \<Rightarrow> if subject = want then CANTIL_OK else CANTIL_ERR_TRUST)"

definition tier3_chain_validate :: "host_x509 \<Rightarrow> trust_policy \<Rightarrow> byte list list \<Rightarrow> cantil_err" where
  "tier3_chain_validate X policy certs =
    (case tp_store policy of
       None \<Rightarrow> CANTIL_ERR_INVALID_ARG
     | Some store \<Rightarrow>
         if store = [] then CANTIL_ERR_INVALID_ARG
         else case certs of
           [] \<Rightarrow> CANTIL_ERR_TRUST
         | leaf # inters \<Rightarrow>
             if list_ex (\<lambda>ca. x509_verify_chain X leaf inters ca = None) store then CANTIL_OK else CANTIL_ERR_TRUST)"

definition host_extract_cn :: "host_x509 \<Rightarrow> byte list \<Rightarrow> nat \<Rightarrow> cantil_err + byte list" where
  "host_extract_cn X cert buflen =
    (case x509_subject_cn X cert buflen of
       Inr cn \<Rightarrow> Inr cn
     | Inl X509_ERR_SPACE \<Rightarrow> Inl CANTIL_ERR_INVALID_ARG
     | Inl _ \<Rightarrow> Inl CANTIL_ERR_TRUST)"

text \<open>\<open>strcmp\<close> reads both names up to their first NUL byte.\<close>

definition tier4_cn_validate :: "host_x509 \<Rightarrow> trust_policy \<Rightarrow> byte list list \<Rightarrow> cantil_err" where
  "tier4_cn_validate X policy certs =
    (let rc = tier3_chain_validate X policy certs in
     if rc \<noteq> CANTIL_OK then rc
     else case expected_cn policy of
       None \<Rightarrow> CANTIL_ERR_INVALID_ARG
     | Some want \<Rightarrow>
         (case certs of
            [] \<Rightarrow> CANTIL_ERR_TRUST
          | leaf # _ \<Rightarrow>
              (case host_extract_cn X leaf 128 of
                 Inl e \<Rightarrow> e
               | Inr cn \<Rightarrow>
                   if takeWhile (\<lambda>b. b \<noteq> 0) cn \<noteq> takeWhile (\<lambda>b. b \<noteq> 0) want then CANTIL_ERR_TRUST else CANTIL_OK)))"

definition cantil_session_get_leaf_cn :: "host_x509 \<Rightarrow> byte list list \<Rightarrow> nat \<Rightarrow> cantil_err + byte list" where
  "cantil_session_get_leaf_cn X certs buflen =
    (if buflen = 0 then Inl CANTIL_ERR_INVALID_ARG
     else case certs of [] \<Rightarrow> Inl CANTIL_ERR_TRUST | leaf # _ \<Rightarrow> host_extract_cn X leaf buflen)"

definition cantil_trust_check_policy :: "host_x509 \<Rightarrow> (byte list \<Rightarrow> byte list) \<Rightarrow> trust_policy option \<Rightarrow> byte list list \<Rightarrow> cantil_err" where
  "cantil_trust_check_policy X sha policy certs =
    (case policy of
       None \<Rightarrow> CANTIL_OK
     | Some p \<Rightarrow>
         (case tp_mode p of
            CANTIL_TRUST_NONE \<Rightarrow> CANTIL_OK
          | CANTIL_TRUST_PINNED_SELF_SIGNED \<Rightarrow>
              (case expected_fingerprint p of
                 None \<Rightarrow> CANTIL_ERR_INVALID_ARG
               | Some fp \<Rightarrow>
                   (case certs of
                      [] \<Rightarrow> CANTIL_ERR_TRUST
                    | leaf # _ \<Rightarrow> if sha leaf \<noteq> fp then CANTIL_ERR_TRUST else tier2_check_subject X p leaf))
          | CANTIL_TRUST_CA_ALLOWLIST \<Rightarrow> tier3_chain_validate X p certs
          | CANTIL_TRUST_CA_PLUS_CN_PIN \<Rightarrow> tier4_cn_validate X p certs))"

end
