(* ===== verification/Host_Session.thy ===== *)
theory Host_Session
  imports Session Trust
begin

text \<open>
  The secure channel of the host library, \<open>libcantil/src/session.c\<close>: the initiator of the
  Noise handshake and the encrypted messages after it.

  libsodium is the parameter \<open>Sd\<close>, the entropy source of the host has the state \<open>'h\<close>, and
  the transport is \<open>T\<close> on a state \<open>'t\<close> with the monotonic clock in seconds and nanoseconds.
  The handshake is split into functions on messages as on the device.  \<open>size_t\<close> has 64
  bits here.
\<close>

definition DEFAULT_TIMEOUT_MS :: int where "DEFAULT_TIMEOUT_MS = 5000"
definition CANTIL_DEVICE_CHAIN_MAX :: nat where "CANTIL_DEVICE_CHAIN_MAX = 4096"
definition CANTIL_DEVICE_CHAIN_CERTS :: nat where "CANTIL_DEVICE_CHAIN_CERTS = 8"

record 'h sodium =
  randombytes_buf :: "nat \<Rightarrow> 'h \<Rightarrow> byte list \<times> 'h"
  crypto_scalarmult_base :: "byte list \<Rightarrow> byte list"
  crypto_scalarmult :: "byte list \<Rightarrow> byte list \<Rightarrow> byte list option"
  crypto_hash_sha256 :: "byte list \<Rightarrow> byte list"
  crypto_auth_hmacsha256 :: "byte list \<Rightarrow> byte list \<Rightarrow> byte list"
  crypto_aead_encrypt :: "byte list \<Rightarrow> byte list \<Rightarrow> byte list \<Rightarrow> byte list \<Rightarrow> byte list option"
  crypto_aead_decrypt :: "byte list \<Rightarrow> byte list \<Rightarrow> byte list \<Rightarrow> byte list \<Rightarrow> byte list option"

subsection \<open>The symmetric state\<close>

definition h_nonce_encode :: "64 word \<Rightarrow> byte list" where
  "h_nonce_encode n = [0, 0, 0, 0] @ le_bytes 8 (unat n)"

definition h_mix_hash :: "'h sodium \<Rightarrow> byte list \<Rightarrow> sym_state \<Rightarrow> sym_state" where
  "h_mix_hash Sd data s = s\<lparr>ss_h := crypto_hash_sha256 Sd (ss_h s @ data)\<rparr>"

definition h_hkdf2 :: "'h sodium \<Rightarrow> byte list \<Rightarrow> byte list \<Rightarrow> byte list \<times> byte list" where
  "h_hkdf2 Sd ck ikm =
    (let hmac = crypto_auth_hmacsha256 Sd; temp = hmac ck ikm; out1 = hmac temp [1]; out2 = hmac temp (out1 @ [2])
     in (out1, out2))"

definition h_mix_key :: "'h sodium \<Rightarrow> byte list \<Rightarrow> sym_state \<Rightarrow> sym_state" where
  "h_mix_key Sd ikm s =
    (case h_hkdf2 Sd (ss_ck s) ikm of (new_ck, new_k) \<Rightarrow>
       s\<lparr>ss_ck := new_ck, ss_k := new_k, ss_n := 0, ss_has_key := True\<rparr>)"

definition h_sym_split :: "'h sodium \<Rightarrow> sym_state \<Rightarrow> byte list \<times> byte list" where
  "h_sym_split Sd s = h_hkdf2 Sd (ss_ck s) []"

definition h_encrypt_and_hash :: "'h sodium \<Rightarrow> byte list \<Rightarrow> nat \<Rightarrow> sym_state \<Rightarrow> (byte list \<times> sym_state) res" where
  "h_encrypt_and_hash Sd pt ct_buf s =
    (if \<not> ss_has_key s then
       if ct_buf < length pt then Inl ENOBUFS else Inr (pt, h_mix_hash Sd pt s)
     else case crypto_aead_encrypt Sd (ss_k s) (h_nonce_encode (ss_n s)) (ss_h s) pt of
       None \<Rightarrow> Inl EIO
     | Some ct \<Rightarrow> Inr (ct, h_mix_hash Sd ct (s\<lparr>ss_n := ss_n s + 1\<rparr>)))"

definition h_decrypt_and_hash :: "'h sodium \<Rightarrow> byte list \<Rightarrow> nat \<Rightarrow> sym_state \<Rightarrow> (byte list \<times> sym_state) res" where
  "h_decrypt_and_hash Sd ct pt_buf s =
    (if \<not> ss_has_key s then
       if pt_buf < length ct then Inl ENOBUFS else Inr (ct, h_mix_hash Sd ct s)
     else case crypto_aead_decrypt Sd (ss_k s) (h_nonce_encode (ss_n s)) (ss_h s) ct of
       None \<Rightarrow> Inl EBADMSG
     | Some pt \<Rightarrow> Inr (pt, h_mix_hash Sd ct (s\<lparr>ss_n := ss_n s + 1\<rparr>)))"

subsection \<open>Framing\<close>

record 't htransport =
  ht_send :: "byte list \<Rightarrow> 't \<Rightarrow> errno option \<times> 't"
  ht_recv :: "nat \<Rightarrow> int \<Rightarrow> 't \<Rightarrow> byte list res \<times> 't"
  ht_clock :: "'t \<Rightarrow> int \<times> int"

definition h_send_frame :: "'t htransport \<Rightarrow> byte list \<Rightarrow> 't \<Rightarrow> errno option \<times> 't" where
  "h_send_frame T buf t =
    (case ht_send T [word_of_nat (length buf div 256), word_of_nat (length buf mod 256)] t of
       (Some e, t) \<Rightarrow> (Some e, t)
     | (None, t) \<Rightarrow> ht_send T buf t)"

text \<open>Milliseconds between two clock readings; C division rounds towards zero.\<close>

definition elapsed_ms :: "int \<times> int \<Rightarrow> int \<times> int \<Rightarrow> int" where
  "elapsed_ms start cur =
    (let dn = snd cur - snd start in (fst cur - fst start) * 1000 + sgn dn * (\<bar>dn\<bar> div 1000000))"

partial_function (option) h_recv_loop :: "'t htransport \<Rightarrow> nat \<Rightarrow> int \<Rightarrow> int \<times> int \<Rightarrow> byte list \<Rightarrow> 't \<Rightarrow> (byte list res \<times> 't) option" where
  "h_recv_loop T len timeout_ms start got t =
    (if length got \<ge> len then Some (Inr got, t)
     else if elapsed_ms start (ht_clock T t) \<ge> timeout_ms then Some (Inl ETIMEDOUT, t)
     else case ht_recv T (len - length got) 50 t of
       (Inl e, t) \<Rightarrow> if e = ETIMEDOUT then h_recv_loop T len timeout_ms start got t else Some (Inl e, t)
     | (Inr bs, t) \<Rightarrow> h_recv_loop T len timeout_ms start (got @ bs) t)"

declare h_recv_loop.simps [code]

definition h_recv_exact :: "'t htransport \<Rightarrow> nat \<Rightarrow> int \<Rightarrow> 't \<Rightarrow> (byte list res \<times> 't) option" where
  "h_recv_exact T len timeout_ms t = h_recv_loop T len timeout_ms (ht_clock T t) [] t"

definition h_recv_frame :: "'t htransport \<Rightarrow> nat \<Rightarrow> int \<Rightarrow> 't \<Rightarrow> (byte list res \<times> 't) option" where
  "h_recv_frame T max_len timeout_ms t =
    Option.bind (h_recv_exact T 2 timeout_ms t) (\<lambda>(r, t).
      case r of
        Inl e \<Rightarrow> Some (Inl e, t)
      | Inr hdr \<Rightarrow>
          let frame_len = unat (hdr ! 0) * 256 + unat (hdr ! 1) in
          if frame_len > max_len then Some (Inl ENOBUFS, t) else h_recv_exact T frame_len timeout_ms t)"

partial_function (option) drain_transport :: "'t htransport \<Rightarrow> 't \<Rightarrow> 't option" where
  "drain_transport T t =
    (case ht_recv T 256 20 t of
       (Inl _, t) \<Rightarrow> Some t
     | (Inr bs, t) \<Rightarrow> if bs = [] then Some t else drain_transport T t)"

declare drain_transport.simps [code]

subsection \<open>Keys\<close>

definition cantil_keygen :: "'h sodium \<Rightarrow> 'h \<Rightarrow> (byte list \<times> byte list) \<times> 'h" where
  "cantil_keygen Sd r = (case randombytes_buf Sd 32 r of (priv, r) \<Rightarrow> ((priv, crypto_scalarmult_base Sd priv), r))"

definition cantil_pubkey_from_privkey :: "'h sodium \<Rightarrow> byte list \<Rightarrow> byte list" where
  "cantil_pubkey_from_privkey Sd priv = crypto_scalarmult_base Sd priv"

subsection \<open>The handshake\<close>

record host_session =
  hs_tx_key :: "byte list"
  hs_rx_key :: "byte list"
  hs_tx_nonce :: "64 word"
  hs_rx_nonce :: "64 word"
  device_s_pub :: "byte list"
  client_s_pub :: "byte list"
  hs_established :: bool
  device_certs :: "byte list list"

definition parse_device_chain :: "byte list \<Rightarrow> chain_copy" where
  "parse_device_chain pt = parse_chain 64 CANTIL_DEVICE_CHAIN_CERTS CANTIL_DEVICE_CHAIN_MAX pt"

definition cantil_session_device_cert :: "host_session \<Rightarrow> nat \<Rightarrow> byte list res" where
  "cantil_session_device_cert s idx = (if idx \<ge> length (device_certs s) then Inl ENOENT else Inr (device_certs s ! idx))"

definition hh_start :: "'h sodium \<Rightarrow> byte list \<Rightarrow> sym_state" where
  "hh_start Sd eI_pub = h_mix_hash Sd [] (h_mix_hash Sd eI_pub (h_mix_hash Sd [] sym_init))"

definition hh_read_msg2 :: "'h sodium \<Rightarrow> byte list \<Rightarrow> byte list \<Rightarrow> sym_state
    \<Rightarrow> (byte list \<times> byte list \<times> byte list \<times> sym_state) res" where
  "hh_read_msg2 Sd eI_priv msg2 sy =
    (let eR_pub = take 32 msg2; sy = h_mix_hash Sd eR_pub sy in
     case crypto_scalarmult Sd eI_priv eR_pub of
       None \<Rightarrow> Inl EIO
     | Some ee \<Rightarrow>
     ok_then (h_decrypt_and_hash Sd (take 48 (drop 32 msg2)) 32 (h_mix_key Sd ee sy)) (\<lambda>(dev_pub, sy).
     case crypto_scalarmult Sd eI_priv dev_pub of
       None \<Rightarrow> Inl EIO
     | Some es \<Rightarrow>
     ok_then (h_decrypt_and_hash Sd (drop 80 msg2) MAX_FRAME_PAYLOAD (h_mix_key Sd es sy)) (\<lambda>(chain_pt, sy).
     Inr (eR_pub, dev_pub, chain_pt, sy))))"

text \<open>The split of the client's chain into certificates, which the code does twice: to count and to emit.\<close>

function client_chain_parts :: "byte list \<Rightarrow> byte list list" where
  "client_chain_parts chain =
    (if length chain \<le> 2 \<or> chain ! 0 \<noteq> 0x30 then []
     else
       let nb = unat (chain ! 1 AND 0x7F);
           long = chain ! 1 AND 0x80 \<noteq> 0
       in if long \<and> (nb > 3 \<or> 2 + nb > length chain) then []
          else
            let inner = (if long then be_nat (take nb (drop 2 chain)) else unat (chain ! 1));
                hlen = (if long then 2 + nb else 2)
            in if hlen + inner > length chain then []
               else take (hlen + inner) chain # client_chain_parts (drop (hlen + inner) chain))"
  by pat_completeness auto

termination
  by (relation "measure length") (auto simp: Let_def split: if_splits)

declare client_chain_parts.simps [simp del]

record client_cert =
  cc_cert_der :: "byte list"
  cc_chain_der :: "byte list"

definition emsgsize :: "'a res \<Rightarrow> 'a res" where
  "emsgsize x = (case x of Inl _ \<Rightarrow> Inl EMSGSIZE | Inr y \<Rightarrow> Inr y)"

definition client_payload :: "client_cert option \<Rightarrow> byte list res" where
  "client_payload cert =
    (case cert of
       None \<Rightarrow> Inr [0xA0]
     | Some c \<Rightarrow>
         if cc_cert_der c = [] then Inr [0xA0]
         else
           let parts = client_chain_parts (cc_chain_der c) in
           emsgsize (
             ok_then (emit_map 3000 [] 1) (\<lambda>out.
             ok_then (emit_uint 3000 out SESSION_CBOR_KEY_CHAIN) (\<lambda>out.
             ok_then (emit_array 3000 out (word_of_nat (1 + length parts))) (\<lambda>out.
             emit_bstrs 3000 out (cc_cert_der c # parts))))))"

definition hh_write_msg3 :: "'h sodium \<Rightarrow> byte list \<Rightarrow> byte list \<Rightarrow> byte list \<Rightarrow> byte list \<Rightarrow> sym_state \<Rightarrow> (byte list \<times> sym_state) res" where
  "hh_write_msg3 Sd client_priv client_pub eR_pub client_cbor sy =
    ok_then (h_encrypt_and_hash Sd client_pub 48 sy) (\<lambda>(enc_s, sy).
    case crypto_scalarmult Sd client_priv eR_pub of
      None \<Rightarrow> Inl EIO
    | Some se \<Rightarrow>
    ok_then (h_encrypt_and_hash Sd client_cbor (length client_cbor + NOISE_TAG_LEN) (h_mix_key Sd se sy)) (\<lambda>(enc_c, sy).
    Inr (enc_s @ enc_c, sy)))"

definition new_host_session :: "byte list \<times> byte list \<Rightarrow> byte list \<Rightarrow> byte list \<Rightarrow> byte list list \<Rightarrow> host_session" where
  "new_host_session ks dev client certs = (case ks of (k1, k2) \<Rightarrow>
    \<lparr>hs_tx_key = k1, hs_rx_key = k2, hs_tx_nonce = 0, hs_rx_nonce = 0, device_s_pub = dev, client_s_pub = client,
     hs_established = True, device_certs = certs\<rparr>)"

text \<open>\<open>cantil_session_open\<close> returns a session or a null pointer; \<open>H_fault\<close> is the wild copy of the chain parser.\<close>

datatype host_open = H_null | H_session host_session | H_fault

definition cantil_session_open :: "'h sodium \<Rightarrow> host_x509 \<Rightarrow> 't htransport \<Rightarrow> byte list \<Rightarrow> trust_policy option
    \<Rightarrow> client_cert option \<Rightarrow> 32 word \<Rightarrow> 'h \<Rightarrow> 't \<Rightarrow> (host_open \<times> 'h \<times> 't) option" where
  "cantil_session_open Sd X T client_priv policy client_cert timeout_ms r t =
    (let tms = (if timeout_ms \<noteq> 0 then sint timeout_ms else DEFAULT_TIMEOUT_MS);
         client_pub = crypto_scalarmult_base Sd client_priv;
         (eI_priv, r) = randombytes_buf Sd 32 r;
         eI_pub = crypto_scalarmult_base Sd eI_priv
     in Option.bind (drain_transport T t) (\<lambda>t.
        case h_send_frame T eI_pub t of
          (Some _, t) \<Rightarrow> Some (H_null, r, t)
        | (None, t) \<Rightarrow>
        Option.bind (h_recv_frame T MAX_FRAME_PAYLOAD tms t) (\<lambda>(m, t). case m of
          Inl _ \<Rightarrow> Some (H_null, r, t)
        | Inr msg2 \<Rightarrow>
            if length msg2 < 96 then Some (H_null, r, t)
            else case hh_read_msg2 Sd eI_priv msg2 (hh_start Sd eI_pub) of
              Inl _ \<Rightarrow> Some (H_null, r, t)
            | Inr (eR_pub, dev_pub, chain_pt, sy) \<Rightarrow>
           (case parse_device_chain chain_pt of
              Wild_copy \<Rightarrow> Some (H_fault, r, t)
            | Copied certs \<Rightarrow>
                if cantil_trust_check_policy X (crypto_hash_sha256 Sd) policy certs \<noteq> CANTIL_OK then Some (H_null, r, t)
                else case client_payload client_cert of
                  Inl _ \<Rightarrow> Some (H_null, r, t)
                | Inr client_cbor \<Rightarrow>
               (case hh_write_msg3 Sd client_priv client_pub eR_pub client_cbor sy of
                  Inl _ \<Rightarrow> Some (H_null, r, t)
                | Inr (msg3, sy) \<Rightarrow>
               (case h_send_frame T msg3 t of
                  (Some _, t) \<Rightarrow> Some (H_null, r, t)
                | (None, t) \<Rightarrow> Some (H_session (new_host_session (h_sym_split Sd sy) dev_pub client_pub certs), r, t)))))))"

definition cantil_session_get_device_pubkey :: "host_session \<Rightarrow> cantil_err + byte list" where
  "cantil_session_get_device_pubkey s = (if \<not> hs_established s then Inl CANTIL_ERR_INVALID_ARG else Inr (device_s_pub s))"

definition cantil_session_verify_policy :: "'h sodium \<Rightarrow> host_x509 \<Rightarrow> host_session \<Rightarrow> trust_policy \<Rightarrow> cantil_err" where
  "cantil_session_verify_policy Sd X s policy =
    (if \<not> hs_established s then CANTIL_ERR_INVALID_ARG
     else cantil_trust_check_policy X (crypto_hash_sha256 Sd) (Some policy) (device_certs s))"

subsection \<open>Messages\<close>

definition cantil_session_send :: "'h sodium \<Rightarrow> 't htransport \<Rightarrow> host_session \<Rightarrow> byte list \<Rightarrow> 't
    \<Rightarrow> errno option \<times> host_session \<times> 't" where
  "cantil_session_send Sd T s buf t =
    (if \<not> hs_established s then (Some EINVAL, s, t)
     else if length buf > MAX_FRAME_PAYLOAD then (Some EMSGSIZE, s, t)
     else case crypto_aead_encrypt Sd (hs_tx_key s) (h_nonce_encode (hs_tx_nonce s)) [] buf of
       None \<Rightarrow> (Some EIO, s, t)
     | Some ct \<Rightarrow> (case h_send_frame T ct t of (rc, t) \<Rightarrow> (rc, s\<lparr>hs_tx_nonce := hs_tx_nonce s + 1\<rparr>, t)))"

text \<open>
  The library decrypts into a buffer of \<open>max_len\<close> bytes; \<open>Recv_overflow\<close> is a plaintext that
  does not fit it, which nothing checks.
\<close>

datatype recv_result = Recv_err errno | Recv_ok "byte list" | Recv_overflow

definition cantil_session_recv_to :: "'h sodium \<Rightarrow> 't htransport \<Rightarrow> host_session \<Rightarrow> nat \<Rightarrow> int \<Rightarrow> 't
    \<Rightarrow> (recv_result \<times> host_session \<times> 't) option" where
  "cantil_session_recv_to Sd T s max_len timeout_ms t =
    (if \<not> hs_established s then Some (Recv_err EINVAL, s, t)
     else if max_len < NOISE_TAG_LEN then Some (Recv_err ENOBUFS, s, t)
     else Option.bind (h_recv_frame T (MAX_FRAME_PAYLOAD + NOISE_TAG_LEN)
         (if timeout_ms > 0 then timeout_ms else DEFAULT_TIMEOUT_MS) t) (\<lambda>(m, t).
       case m of
         Inl e \<Rightarrow> Some (Recv_err e, s, t)
       | Inr ct \<Rightarrow>
           if length ct < NOISE_TAG_LEN then Some (Recv_err EPROTO, s, t)
           else case crypto_aead_decrypt Sd (hs_rx_key s) (h_nonce_encode (hs_rx_nonce s)) [] ct of
             None \<Rightarrow> Some (Recv_err EBADMSG, s, t)
           | Some pt \<Rightarrow>
               if length pt > max_len then Some (Recv_overflow, s, t)
               else Some (Recv_ok pt, s\<lparr>hs_rx_nonce := hs_rx_nonce s + 1\<rparr>, t)))"

definition cantil_session_recv :: "'h sodium \<Rightarrow> 't htransport \<Rightarrow> host_session \<Rightarrow> nat \<Rightarrow> 't
    \<Rightarrow> (recv_result \<times> host_session \<times> 't) option" where
  "cantil_session_recv Sd T s max_len t = cantil_session_recv_to Sd T s max_len DEFAULT_TIMEOUT_MS t"

end
