(* ===== verification/Link.thy ===== *)
theory Link
  imports Transport Host_Session
begin

text \<open>
  Framing over the transports.  \<open>dev_receiver\<close> and \<open>dev_link\<close> are what the session layer of the
  device relies on: bytes come out in the order they went in, any number of them at a time,
  and the clock runs while the receive loop sleeps.  \<open>host_link\<close> is the same for the host,
  whose peer answers what it was sent.

  Under these laws a frame that was sent is received, and a receive always returns: with the
  bytes, or with an error when the deadline has passed.
\<close>

definition frame :: "byte list \<Rightarrow> byte list" where
  "frame p = frame_header (length p) @ p"

lemma frame_header_bytes:
  assumes "len < 65536"
  shows "unat (frame_header len ! 0) * 256 + unat (frame_header len ! 1) = len" and "length (frame_header len) = 2"
proof -
  from assms have "len div 256 < 256" by simp
  then show "unat (frame_header len ! 0) * 256 + unat (frame_header len ! 1) = len"
    by (simp add: frame_header_def unat_of_nat)
qed (simp add: frame_header_def)

text \<open>A chunk \<open>bs\<close> taken off a stream \<open>xs\<close> that meanwhile grew by \<open>zs\<close>.\<close>

lemma chunk_taken:
  assumes "xs @ zs = bs @ ys" and "length bs \<le> k" and "k \<le> length xs"
  shows "take k xs = bs @ take (k - length bs) ys" and "drop (k - length bs) ys = drop k xs @ zs"
    and "k - length bs \<le> length ys"
proof -
  have "take k (xs @ zs) = take k (bs @ ys)" "drop k (xs @ zs) = drop k (bs @ ys)" using assms(1) by simp_all
  then show "take k xs = bs @ take (k - length bs) ys" "drop (k - length bs) ys = drop k xs @ zs" using assms(2,3) by simp_all
  show "k - length bs \<le> length ys" using arg_cong [OF assms(1), of length] assms(2,3) by simp
qed

locale dev_receiver =
  fixes T :: "'t transport" and inp :: "'t \<Rightarrow> byte list" and outp :: "'t \<Rightarrow> byte list"
  assumes recv: "0 < n \<Longrightarrow> \<exists>bs t' more. t_recv T n t = (Inr bs, t') \<and> length bs \<le> n \<and> inp t @ more = bs @ inp t'
      \<and> (inp t \<noteq> [] \<longrightarrow> bs \<noteq> []) \<and> outp t' = outp t \<and> t_uptime T t \<le> t_uptime T t'"
    and sleep_clock: "t_uptime T t < t_uptime T (t_msleep T t)"
    and sleep_outp: "outp (t_msleep T t) = outp t"
begin

lemma recv_loop_returns: "\<exists>r t'. recv_loop T len deadline got t = Some (r, t') \<and> outp t' = outp t"
proof (induction "(len - length got) + nat (deadline - t_uptime T t)" arbitrary: got t rule: less_induct)
  case less
  show ?case
  proof (cases "length got \<ge> len")
    case True
    then show ?thesis by (subst recv_loop.simps) simp
  next
    case False
    then obtain bs t' more where r: "t_recv T (len - length got) t = (Inr bs, t')" "outp t' = outp t"
      "t_uptime T t \<le> t_uptime T t'"
      using recv [of "len - length got" t] by auto
    show ?thesis
    proof (cases "bs = []")
      case bs: True
      show ?thesis
      proof (cases "t_connected T t' \<and> t_uptime T t' < deadline")
        case True
        have "(len - length got) + nat (deadline - t_uptime T (t_msleep T t')) < (len - length got) + nat (deadline - t_uptime T t)"
          using sleep_clock [of t'] True r(3) by auto
        from less [OF this] show ?thesis
          using True False bs r sleep_outp [of t'] by (subst recv_loop.simps) auto
      next
        case nt: False
        then show ?thesis using False bs r by (subst recv_loop.simps) auto
      qed
    next
      case bs: False
      have "(len - length (got @ bs)) + nat (deadline - t_uptime T t') < (len - length got) + nat (deadline - t_uptime T t)"
        using bs False r(3) by (cases bs) auto
      from less [OF this] show ?thesis using False bs r by (subst recv_loop.simps) auto
    qed
  qed
qed

lemma recv_loop_delivers:
  "len - length got \<le> length (inp t) \<Longrightarrow> length got \<le> len \<Longrightarrow> \<exists>t' more. recv_loop T len deadline got t
     = Some (Inr (got @ take (len - length got) (inp t)), t')
     \<and> inp t' = drop (len - length got) (inp t) @ more \<and> outp t' = outp t"
proof (induction "len - length got" arbitrary: got t rule: less_induct)
  case less
  show ?case
  proof (cases "length got \<ge> len")
    case True
    then show ?thesis by (subst recv_loop.simps) simp
  next
    case False
    then obtain bs t' more where r: "t_recv T (len - length got) t = (Inr bs, t')" "outp t' = outp t"
      "inp t @ more = bs @ inp t'" "length bs \<le> len - length got" "bs \<noteq> []"
      using recv [of "len - length got" t] less.prems by fastforce
    have fewer: "len - length (got @ bs) < len - length got" using r(5) False by (cases bs) auto
    note chunk = chunk_taken [OF r(3,4) less.prems(1)]
    have fits: "length (got @ bs) \<le> len" using r(4) False by simp
    have enough: "len - length (got @ bs) \<le> length (inp t')" using chunk(3) by simp
    from less.hyps [OF fewer enough fits] obtain t'' more' where
      IH: "recv_loop T len deadline (got @ bs) t' = Some (Inr ((got @ bs) @ take (len - length (got @ bs)) (inp t')), t'')"
      "inp t'' = drop (len - length (got @ bs)) (inp t') @ more'" "outp t'' = outp t'" by blast
    show ?thesis using IH chunk(1,2) False r by (subst recv_loop.simps) (auto simp: diff_diff_left)
  qed
qed

lemma recv_exact_delivers:
  assumes "inp t = bs @ rest" and "length bs = len"
  shows "\<exists>t' more. raw_recv_exact T len t = Some (Inr bs, t') \<and> inp t' = rest @ more \<and> outp t' = outp t"
  using recv_loop_delivers [of len "[]" t "t_uptime T t + RECV_TIMEOUT_MS"] assms by (auto simp: raw_recv_exact_def)

lemma recv_exact_returns: "\<exists>r t'. raw_recv_exact T len t = Some (r, t') \<and> outp t' = outp t"
  by (simp add: raw_recv_exact_def recv_loop_returns)

lemma recv_frame_returns: "\<exists>r t'. recv_frame T max_len t = Some (r, t') \<and> outp t' = outp t"
proof -
  from recv_exact_returns obtain r t' where h: "raw_recv_exact T 2 t = Some (r, t')" "outp t' = outp t" by metis
  show ?thesis
  proof (cases r)
    case (Inr hdr)
    obtain r2 t2 where "raw_recv_exact T (unat (hdr ! 0) * 256 + unat (hdr ! Suc 0)) t' = Some (r2, t2)" "outp t2 = outp t'"
      using recv_exact_returns by metis
    with h Inr show ?thesis by (simp add: recv_frame_def Let_def)
  qed (use h in \<open>simp add: recv_frame_def\<close>)
qed

lemma recv_frame_delivers:
  assumes "inp t = frame p @ rest" and "length p \<le> max_len" and "max_len < 65536"
  shows "\<exists>t' more. recv_frame T max_len t = Some (Inr p, t') \<and> inp t' = rest @ more \<and> outp t' = outp t"
proof -
  have lt: "length p < 65536" using assms(2,3) by simp
  have "inp t = frame_header (length p) @ (p @ rest)" using assms(1) by (simp add: frame_def)
  from recv_exact_delivers [OF this frame_header_bytes(2) [OF lt]] obtain t1 m1 where
    h: "raw_recv_exact T 2 t = Some (Inr (frame_header (length p)), t1)" "inp t1 = p @ (rest @ m1)" "outp t1 = outp t" by auto
  from recv_exact_delivers [OF h(2) refl] obtain t2 m2 where
    "raw_recv_exact T (length p) t1 = Some (Inr p, t2)" "inp t2 = (rest @ m1) @ m2" "outp t2 = outp t1" by auto
  then show ?thesis using h assms(2) frame_header_bytes(1) [OF lt] by (auto simp: recv_frame_def Let_def)
qed

end

locale dev_link = dev_receiver +
  assumes send: "\<exists>t' more. t_send T bs t = (None, t') \<and> inp t' = inp t @ more \<and> outp t' = outp t @ bs"
begin

lemma send_frame_sends: "\<exists>t' more. send_frame T p t = (None, t') \<and> inp t' = inp t @ more \<and> outp t' = outp t @ frame p"
proof -
  obtain t1 m1 where h: "t_send T (frame_header (length p)) t = (None, t1)" "inp t1 = inp t @ m1"
    "outp t1 = outp t @ frame_header (length p)" using send by blast
  obtain t2 m2 where "t_send T p t1 = (None, t2)" "inp t2 = inp t1 @ m2" "outp t2 = outp t1 @ p" using send by blast
  with h show ?thesis by (simp add: send_frame_def frame_def)
qed

end

interpretation usb: dev_link usb_transport usb_rx_ring u_sent
proof unfold_locales
  fix n :: nat and t :: usb_state
  assume "0 < n"
  then show "\<exists>bs t' more. t_recv usb_transport n t = (Inr bs, t') \<and> length bs \<le> n \<and> usb_rx_ring t @ more = bs @ usb_rx_ring t'
      \<and> (usb_rx_ring t \<noteq> [] \<longrightarrow> bs \<noteq> []) \<and> u_sent t' = u_sent t \<and> t_uptime usb_transport t \<le> t_uptime usb_transport t'"
    by (auto simp: usb_transport_def usb_recv_def intro: exI [of _ "[]"])
qed (auto simp: usb_transport_def usb_msleep_def usb_uart_isr_def usb_send_def split: list.split intro: exI [of _ "[]"])

interpretation ble: dev_receiver "ble_transport nus" rx_buf b_sent
proof unfold_locales
  fix n :: nat and t :: ble_state
  assume "0 < n"
  have w: "\<exists>more. rx_buf (ble_wait t) = rx_buf t @ more" "b_sent (ble_wait t) = b_sent t" "b_now t \<le> b_now (ble_wait t)"
    by (auto simp: ble_wait_def nus_received_def split: list.split)
  show "\<exists>bs t' more. t_recv (ble_transport nus) n t = (Inr bs, t') \<and> length bs \<le> n \<and> rx_buf t @ more = bs @ rx_buf t'
      \<and> (rx_buf t \<noteq> [] \<longrightarrow> bs \<noteq> []) \<and> b_sent t' = b_sent t
      \<and> t_uptime (ble_transport nus) t \<le> t_uptime (ble_transport nus) t'"
    using w \<open>0 < n\<close> by (auto simp: ble_transport_def ble_recv_def Let_def)
qed (auto simp: ble_transport_def)

end
