(* ===== verification/Host_Usb.thy ===== *)
theory Host_Usb
  imports Host_Session
begin

text \<open>
  The serial port of the host, \<open>libcantil/src/transport_usb.c\<close>.  The operating system is the
  parameter \<open>OS\<close>: \<open>write\<close> takes a number of bytes, \<open>select\<close> says whether there is something to
  read, and \<open>read\<close> delivers it.
\<close>

record 'o serial_os =
  os_write :: "byte list \<Rightarrow> 'o \<Rightarrow> nat res \<times> 'o"
  os_select :: "int \<Rightarrow> 'o \<Rightarrow> bool res \<times> 'o"
  os_read :: "nat \<Rightarrow> 'o \<Rightarrow> byte list res \<times> 'o"
  os_clock :: "'o \<Rightarrow> int \<times> int"

function h_usb_send :: "'o serial_os \<Rightarrow> byte list \<Rightarrow> 'o \<Rightarrow> errno option \<times> 'o" where
  "h_usb_send OS buf t =
    (if buf = [] then (None, t)
     else case os_write OS buf t of
       (Inl e, t) \<Rightarrow> (Some e, t)
     | (Inr n, t) \<Rightarrow> if n = 0 then (Some EIO, t) else h_usb_send OS (drop n buf) t)"
  by pat_completeness auto

termination
  by (relation "measure (\<lambda>(_, buf, _). length buf)") auto

declare h_usb_send.simps [simp del]

definition h_usb_recv :: "'o serial_os \<Rightarrow> nat \<Rightarrow> int \<Rightarrow> 'o \<Rightarrow> byte list res \<times> 'o" where
  "h_usb_recv OS max_len timeout_ms t =
    (case os_select OS timeout_ms t of
       (Inl e, t) \<Rightarrow> (Inl e, t)
     | (Inr False, t) \<Rightarrow> (Inl ETIMEDOUT, t)
     | (Inr True, t) \<Rightarrow>
         (case os_read OS max_len t of
            (Inl e, t) \<Rightarrow> (Inl e, t)
          | (Inr bs, t) \<Rightarrow> if bs = [] then (Inl EIO, t) else (Inr bs, t)))"

definition h_usb_transport :: "'o serial_os \<Rightarrow> 'o htransport" where
  "h_usb_transport OS = \<lparr>ht_send = h_usb_send OS, ht_recv = h_usb_recv OS, ht_clock = os_clock OS\<rparr>"

end
