(* ===== verification/Host_Link.thy ===== *)
theory Host_Link
  imports Link Host_Usb
begin

text \<open>
  Framing over the transport of the host.  \<open>host_link\<close> describes a line with a peer behind it:
  \<open>sent\<close> is what the host wrote so far, \<open>reply w\<close> all that the peer writes when it has read \<open>w\<close>,
  and \<open>taken\<close> how much of that the host has read.  \<open>serial_port\<close> is the same for the system
  calls, and the serial driver turns one into the other.
\<close>

definition pending :: "('t \<Rightarrow> byte list) \<Rightarrow> ('t \<Rightarrow> nat) \<Rightarrow> (byte list \<Rightarrow> byte list) \<Rightarrow> 't \<Rightarrow> byte list" where
  "pending sent taken reply t = drop (taken t) (reply (sent t))"

lemma elapsed_none [simp]: "elapsed_ms c c = 0"
  by (simp add: elapsed_ms_def)

locale host_link =
  fixes T :: "'t htransport" and sent :: "'t \<Rightarrow> byte list" and taken :: "'t \<Rightarrow> nat" and reply :: "byte list \<Rightarrow> byte list"
  assumes hsend: "\<exists>t'. ht_send T bs t = (None, t') \<and> sent t' = sent t @ bs \<and> taken t' = taken t"
    and hrecv_none: "0 < n \<Longrightarrow> pending sent taken reply t = [] \<Longrightarrow> \<exists>t'. ht_recv T n ms t = (Inl ETIMEDOUT, t')
      \<and> sent t' = sent t \<and> taken t' = taken t \<and> (\<forall>c. elapsed_ms c (ht_clock T t) < elapsed_ms c (ht_clock T t'))"
    and hrecv_some: "0 < n \<Longrightarrow> pending sent taken reply t \<noteq> [] \<Longrightarrow> \<exists>bs rest t'. ht_recv T n ms t = (Inr bs, t')
      \<and> pending sent taken reply t = bs @ rest \<and> bs \<noteq> [] \<and> length bs \<le> n
      \<and> sent t' = sent t \<and> taken t' = taken t + length bs \<and> ht_clock T t' = ht_clock T t"
begin

abbreviation pend :: "'t \<Rightarrow> byte list" where "pend \<equiv> pending sent taken reply"

lemma pend_step: "pend t = bs @ rest \<Longrightarrow> sent t' = sent t \<Longrightarrow> taken t' = taken t + length bs \<Longrightarrow> pend t' = rest"
  by (simp add: pending_def add.commute [of "taken t"] flip: drop_drop)

lemma drain_returns: "\<exists>t'. drain_transport T t = Some t' \<and> pend t' = [] \<and> sent t' = sent t \<and> taken t' = taken t + length (pend t)"
proof (induction "length (pend t)" arbitrary: t rule: less_induct)
  case less
  show ?case
  proof (cases "pend t = []")
    case True
    from hrecv_none [OF _ True, of 256 20] obtain t' where "ht_recv T 256 20 t = (Inl ETIMEDOUT, t')" "sent t' = sent t" "taken t' = taken t"
      by auto
    with True show ?thesis by (subst drain_transport.simps) (simp add: pending_def)
  next
    case False
    from hrecv_some [OF _ False, of 256 20] obtain bs rest t' where r: "ht_recv T 256 20 t = (Inr bs, t')" "pend t = bs @ rest"
      "bs \<noteq> []" "sent t' = sent t" "taken t' = taken t + length bs" by auto
    have p: "pend t' = rest" by (rule pend_step [OF r(2,4,5)])
    then have "length (pend t') < length (pend t)" using r(2,3) by simp
    from less [OF this] show ?thesis using r p by (subst drain_transport.simps) auto
  qed
qed

lemma h_recv_loop_delivers:
  "len - length got \<le> length (pend t) \<Longrightarrow> length got \<le> len \<Longrightarrow> elapsed_ms start (ht_clock T t) < ms \<Longrightarrow>
    \<exists>t'. h_recv_loop T len ms start got t = Some (Inr (got @ take (len - length got) (pend t)), t')
      \<and> pend t' = drop (len - length got) (pend t) \<and> sent t' = sent t \<and> taken t' = taken t + (len - length got)"
proof (induction "len - length got" arbitrary: got t rule: less_induct)
  case less
  show ?case
  proof (cases "length got \<ge> len")
    case True
    then show ?thesis by (subst h_recv_loop.simps) simp
  next
    case False
    then have "0 < len - length got" "pend t \<noteq> []" using less.prems(1) by auto
    from hrecv_some [OF this, of 50] obtain bs rest t' where r: "ht_recv T (len - length got) 50 t = (Inr bs, t')"
      "pend t = bs @ rest" "bs \<noteq> []" "length bs \<le> len - length got" "sent t' = sent t" "taken t' = taken t + length bs"
      "ht_clock T t' = ht_clock T t" by auto
    have p: "pend t' = rest" by (rule pend_step [OF r(2,5,6)])
    have fewer: "len - length (got @ bs) < len - length got" using r(3) False by (cases bs) auto
    have enough: "len - length (got @ bs) \<le> length (pend t')" using less.prems(1) r(2) p by simp
    have fits: "length (got @ bs) \<le> len" using r(4) False by simp
    from less.hyps [OF fewer enough fits] less.prems(3) r(7) obtain t'' where
      "h_recv_loop T len ms start (got @ bs) t' = Some (Inr ((got @ bs) @ take (len - length (got @ bs)) (pend t')), t'')"
      "pend t'' = drop (len - length (got @ bs)) (pend t')" "sent t'' = sent t'" "taken t'' = taken t' + (len - length (got @ bs))"
      by auto
    then show ?thesis using False r p less.prems(3) by (subst h_recv_loop.simps) (auto simp: diff_diff_left)
  qed
qed

lemma h_recv_exact_delivers:
  assumes "pend t = bs @ rest" and "length bs = len" and "0 < ms"
  shows "\<exists>t'. h_recv_exact T len ms t = Some (Inr bs, t') \<and> pend t' = rest \<and> sent t' = sent t \<and> taken t' = taken t + len"
  using h_recv_loop_delivers [of len "[]" t "ht_clock T t" ms] assms by (auto simp: h_recv_exact_def)

lemma h_recv_loop_returns: "\<exists>r t'. h_recv_loop T len ms start got t = Some (r, t')"
proof (induction "(len - length got) + nat (ms - elapsed_ms start (ht_clock T t))" arbitrary: got t rule: less_induct)
  case less
  show ?case
  proof (cases "length got \<ge> len \<or> elapsed_ms start (ht_clock T t) \<ge> ms")
    case True
    then show ?thesis by (subst h_recv_loop.simps) auto
  next
    case False
    then have n: "0 < len - length got" by simp
    show ?thesis
    proof (cases "pend t = []")
      case True
      from hrecv_none [OF n True, of 50] obtain t' where r: "ht_recv T (len - length got) 50 t = (Inl ETIMEDOUT, t')"
        "elapsed_ms start (ht_clock T t) < elapsed_ms start (ht_clock T t')" by blast
      have "(len - length got) + nat (ms - elapsed_ms start (ht_clock T t')) < (len - length got) + nat (ms - elapsed_ms start (ht_clock T t))"
        using r(2) False by auto
      from less [OF this] show ?thesis using False r by (subst h_recv_loop.simps) simp
    next
      case pe: False
      from hrecv_some [OF n pe, of 50] obtain bs t' where r: "ht_recv T (len - length got) 50 t = (Inr bs, t')"
        "bs \<noteq> []" "ht_clock T t' = ht_clock T t" by auto
      have "(len - length (got @ bs)) + nat (ms - elapsed_ms start (ht_clock T t')) < (len - length got) + nat (ms - elapsed_ms start (ht_clock T t))"
        using r False by (cases bs) auto
      from less [OF this] show ?thesis using False r by (subst h_recv_loop.simps) simp
    qed
  qed
qed

lemma h_recv_frame_delivers:
  assumes "pend t = frame p @ rest" and "length p \<le> max_len" and "max_len < 65536" and "0 < ms"
  shows "\<exists>t'. h_recv_frame T max_len ms t = Some (Inr p, t') \<and> pend t' = rest \<and> sent t' = sent t
    \<and> taken t' = taken t + length (frame p)"
proof -
  have lt: "length p < 65536" using assms(2,3) by simp
  have "pend t = frame_header (length p) @ (p @ rest)" using assms(1) by (simp add: frame_def)
  from h_recv_exact_delivers [OF this frame_header_bytes(2) [OF lt] assms(4)] obtain t1 where
    h: "h_recv_exact T 2 ms t = Some (Inr (frame_header (length p)), t1)" "pend t1 = p @ rest" "sent t1 = sent t" "taken t1 = taken t + 2"
    by auto
  from h_recv_exact_delivers [OF h(2) refl assms(4)] obtain t2 where
    "h_recv_exact T (length p) ms t1 = Some (Inr p, t2)" "pend t2 = rest" "sent t2 = sent t1" "taken t2 = taken t1 + length p" by auto
  then show ?thesis using h assms(2) frame_header_bytes [OF lt] by (auto simp: h_recv_frame_def Let_def frame_def)
qed

lemma h_send_frame_sends: "\<exists>t'. h_send_frame T p t = (None, t') \<and> sent t' = sent t @ frame p \<and> taken t' = taken t"
proof -
  obtain t1 where h: "ht_send T (frame_header (length p)) t = (None, t1)" "sent t1 = sent t @ frame_header (length p)" "taken t1 = taken t"
    using hsend by blast
  obtain t2 where "ht_send T p t1 = (None, t2)" "sent t2 = sent t1 @ p" "taken t2 = taken t1" using hsend by blast
  with h show ?thesis by (simp add: h_send_frame_def frame_def frame_header_def)
qed

end

locale serial_port =
  fixes OS :: "'o serial_os" and sent :: "'o \<Rightarrow> byte list" and taken :: "'o \<Rightarrow> nat" and reply :: "byte list \<Rightarrow> byte list"
  assumes writes: "bs \<noteq> [] \<Longrightarrow> \<exists>n t'. os_write OS bs t = (Inr n, t') \<and> 0 < n \<and> n \<le> length bs
      \<and> sent t' = sent t @ take n bs \<and> taken t' = taken t"
    and selects: "\<exists>t'. os_select OS ms t = (Inr (pending sent taken reply t \<noteq> []), t') \<and> sent t' = sent t \<and> taken t' = taken t
      \<and> (if pending sent taken reply t \<noteq> [] then os_clock OS t' = os_clock OS t
         else \<forall>c. elapsed_ms c (os_clock OS t) < elapsed_ms c (os_clock OS t'))"
    and reads: "0 < n \<Longrightarrow> pending sent taken reply t \<noteq> [] \<Longrightarrow> \<exists>bs rest t'. os_read OS n t = (Inr bs, t')
      \<and> pending sent taken reply t = bs @ rest \<and> bs \<noteq> [] \<and> length bs \<le> n
      \<and> sent t' = sent t \<and> taken t' = taken t + length bs \<and> os_clock OS t' = os_clock OS t"
begin

lemma usb_send_all: "\<exists>t'. h_usb_send OS bs t = (None, t') \<and> sent t' = sent t @ bs \<and> taken t' = taken t"
proof (induction "length bs" arbitrary: bs t rule: less_induct)
  case less
  show ?case
  proof (cases "bs = []")
    case False
    from writes [OF False, of t] obtain n t' where w: "os_write OS bs t = (Inr n, t')" "0 < n" "n \<le> length bs"
      "sent t' = sent t @ take n bs" "taken t' = taken t" by auto
    have "length (drop n bs) < length bs" using w False by simp
    from less [OF this, of t'] w False show ?thesis by (subst h_usb_send.simps) auto
  qed (subst h_usb_send.simps, simp)
qed

end

sublocale serial_port \<subseteq> host_link "h_usb_transport OS" sent taken reply
proof unfold_locales
  fix n t ms
  assume n: "0 < (n::nat)" and p: "pending sent taken reply t = []"
  from selects [of ms t] p show "\<exists>t'. ht_recv (h_usb_transport OS) n ms t = (Inl ETIMEDOUT, t') \<and> sent t' = sent t \<and> taken t' = taken t
      \<and> (\<forall>c. elapsed_ms c (ht_clock (h_usb_transport OS) t) < elapsed_ms c (ht_clock (h_usb_transport OS) t'))"
    by (auto simp: h_usb_transport_def h_usb_recv_def)
next
  fix n t ms
  assume n: "0 < (n::nat)" and p: "pending sent taken reply t \<noteq> []"
  from selects [of ms t] p obtain t1 where s: "os_select OS ms t = (Inr True, t1)" "sent t1 = sent t" "taken t1 = taken t"
    "os_clock OS t1 = os_clock OS t" by auto
  then have p1: "pending sent taken reply t1 = pending sent taken reply t" by (simp add: pending_def)
  from reads [OF n, of t1] p p1 obtain bs rest t2 where "os_read OS n t1 = (Inr bs, t2)"
    "pending sent taken reply t = bs @ rest" "bs \<noteq> []" "length bs \<le> n" "sent t2 = sent t1" "taken t2 = taken t1 + length bs"
    "os_clock OS t2 = os_clock OS t1" by auto
  with s show "\<exists>bs rest t'. ht_recv (h_usb_transport OS) n ms t = (Inr bs, t') \<and> pending sent taken reply t = bs @ rest
      \<and> bs \<noteq> [] \<and> length bs \<le> n \<and> sent t' = sent t \<and> taken t' = taken t + length bs
      \<and> ht_clock (h_usb_transport OS) t' = ht_clock (h_usb_transport OS) t"
    by (auto simp: h_usb_transport_def h_usb_recv_def)
qed (use usb_send_all in \<open>simp add: h_usb_transport_def\<close>)

end
