(* ===== verification/Chain.thy ===== *)
theory Chain
  imports Host_Session
begin

text \<open>
  The certificate chain inside the handshake: what one end encodes the other copies out, and
  the payloads on which the copy leaves its buffers.
\<close>

definition bstr_bytes :: "byte list \<Rightarrow> byte list" where
  "bstr_bytes c = head_bytes MT_BSTR (length c) @ c"

definition chain_bytes :: "byte list list \<Rightarrow> byte list" where
  "chain_bytes certs = head_bytes MT_MAP 1 @ head_bytes MT_UINT SESSION_CBOR_KEY_CHAIN @ head_bytes MT_ARRAY (length certs)
    @ concat (map bstr_bytes certs)"

text \<open>The certificates a receiver keeps: as many as fit its two limits.\<close>

fun kept_certs :: "nat \<Rightarrow> nat \<Rightarrow> byte list list \<Rightarrow> byte list list \<Rightarrow> byte list list" where
  "kept_certs maxc maxb done [] = done"
| "kept_certs maxc maxb done (c # cs) =
    (if length done \<ge> maxc \<or> length (concat done) + length c > maxb then done else kept_certs maxc maxb (done @ [c]) cs)"

lemma kept_certs_take:
  "length done \<le> maxc \<Longrightarrow> length (concat (done @ cs)) \<le> maxb \<Longrightarrow> kept_certs maxc maxb done cs = take maxc (done @ cs)"
  by (induction maxc maxb "done" cs rule: kept_certs.induct) auto

lemma length_bstr_bytes [simp]: "length (bstr_bytes c) = head_need (length c) + length c"
  by (simp add: bstr_bytes_def)

lemma emit_bstr_eq: "emit_bstr cap out c = (if length out + length (bstr_bytes c) \<le> cap then Inr (out @ bstr_bytes c) else Inl ENOMEM)"
  by (simp add: emit_bstr_def emit_head_def bstr_bytes_def)

lemma emit_bstrs_eq: "length out \<le> cap \<Longrightarrow> emit_bstrs cap out cs =
    (if length (out @ concat (map bstr_bytes cs)) \<le> cap then Inr (out @ concat (map bstr_bytes cs)) else Inl ENOMEM)"
  by (induction cs arbitrary: out) (auto simp: emit_bstr_eq)

lemma encode_chain_eq:
  assumes "length certs < 2 ^ 32"
  shows "encode_chain_cbor cap certs = (if length (chain_bytes certs) \<le> cap then Inr (chain_bytes certs) else Inl ENOMEM)"
proof -
  have u: "unat (word_of_nat (length certs) :: 32 word) = length certs" using assms by (simp add: unat_of_nat)
  show ?thesis
    by (auto simp: encode_chain_cbor_def emit_map_def emit_uint_def emit_array_def emit_head_def u emit_bstrs_eq chain_bytes_def)
qed

lemma length_concat_bstr: "length cs \<le> length (concat (map bstr_bytes cs))" "length (concat cs) \<le> length (concat (map bstr_bytes cs))"
proof (induction cs)
  case (Cons c cs)
  show "length (c # cs) \<le> length (concat (map bstr_bytes (c # cs)))"
    using Cons(1) head_need_pos(1) [of "length c"] by (simp del: head_need_pos)
  show "length (concat (c # cs)) \<le> length (concat (map bstr_bytes (c # cs)))" using Cons(2) by simp
qed simp_all

lemma length_chain_bytes: "length cs \<le> length (chain_bytes cs)" "length (concat cs) \<le> length (chain_bytes cs)"
  using length_concat_bstr [of cs] by (simp_all add: chain_bytes_def)

lemma encode_chain_few:
  assumes "encode_chain_cbor cap certs = Inr pt"
  shows "length certs \<le> cap"
proof -
  let ?out = "head_bytes MT_MAP 1 @ head_bytes MT_UINT SESSION_CBOR_KEY_CHAIN @ head_bytes MT_ARRAY (unat (word_of_nat (length certs) :: 32 word))"
  from assms have "length ?out \<le> cap" "emit_bstrs cap ?out certs = Inr pt"
    by (auto simp: encode_chain_cbor_def emit_map_def emit_uint_def emit_array_def res_simps emit_head_eq_Inr)
  then show ?thesis using length_concat_bstr(1) [of certs] by (simp add: emit_bstrs_eq split: if_splits)
qed

text \<open>The certificates a client offers: its own and the parts of its issuer chain.\<close>

definition offered_certs :: "client_cert option \<Rightarrow> byte list list" where
  "offered_certs cc = (case cc of None \<Rightarrow> [] | Some c \<Rightarrow>
     if cc_cert_der c = [] then [] else cc_cert_der c # client_chain_parts (cc_chain_der c))"

lemma client_payload_cases:
  "client_payload cc = (if offered_certs cc = [] then Inr [0xA0] else emsgsize (encode_chain_cbor 3000 (offered_certs cc)))"
  by (cases cc) (simp_all add: client_payload_def offered_certs_def encode_chain_cbor_def Let_def)

lemma client_payload_chain:
  assumes "client_payload cc = Inr pt" and "offered_certs cc \<noteq> []"
  shows "pt = chain_bytes (offered_certs cc)"
proof -
  have e: "encode_chain_cbor 3000 (offered_certs cc) = Inr pt"
    using assms by (auto simp: client_payload_cases emsgsize_def split: sum.splits)
  then have "length (offered_certs cc) < 2 ^ 32" using encode_chain_few by fastforce
  from encode_chain_eq [OF this, of 3000] e show ?thesis by (simp split: if_splits)
qed

lemma head_need_small [simp]: "head_need 1 = 1" "head_need (Suc 0) = 1" "head_need 2 = 1"
  by (simp_all add: head_need_def)

lemma read_head_at:
  "buf = pre @ head_bytes m v @ suf \<Longrightarrow> off = length pre \<Longrightarrow> is_major m \<Longrightarrow> v < 2 ^ 64 \<Longrightarrow>
    read_head buf off = Inr (m, v, off + head_need v)"
  by (simp add: read_head_head_bytes)

lemma copy_certs_encoded:
  "length done + length cs < 2 ^ W \<Longrightarrow> W \<le> 64 \<Longrightarrow> length pt < 2 ^ W \<Longrightarrow> length (concat done) \<le> length pre \<Longrightarrow>
    pt = pre @ concat (map bstr_bytes cs) \<Longrightarrow>
    copy_certs W maxc maxb pt (length cs) (length pre) done = Copied (kept_certs maxc maxb done cs)"
proof (induction cs arbitrary: "done" pre)
  case (Cons c cs)
  have len: "length pt = length pre + head_need (length c) + length c + length (concat (map bstr_bytes cs))"
    using Cons.prems(5) by simp
  have total: "length (concat done) + length c < 2 ^ W" using Cons.prems(3,4) len by simp
  have rd: "read_bstr W pt (length pre) = Inr (length pre + head_need (length c), length c, length pre + head_need (length c) + length c)"
    unfolding read_bstr_def
    by (rule read_str_head [where suf = "concat (map bstr_bytes cs)"]) (use Cons.prems in \<open>simp_all add: bstr_bytes_def [of c]\<close>)
  have d: "take (length c) (drop (length pre + head_need (length c)) pt) = c" using Cons.prems(5) by (simp add: bstr_bytes_def [of c])
  have "copy_certs W maxc maxb pt (length cs) (length (pre @ bstr_bytes c)) (done @ [c]) = Copied (kept_certs maxc maxb (done @ [c]) cs)"
    by (rule Cons.IH) (use Cons.prems in simp_all)
  then show ?case using total len by (simp add: rd Let_def d add.assoc)
qed simp

lemma parse_chain_encoded:
  assumes "length (chain_bytes certs) < 2 ^ W" and "W \<le> 64" and "0 < W"
  shows "parse_chain W maxc maxb (chain_bytes certs) = Copied (kept_certs maxc maxb [] certs)"
proof -
  let ?h1 = "head_bytes MT_MAP 1" and ?h2 = "head_bytes MT_UINT 1" and ?h3 = "head_bytes MT_ARRAY (length certs)"
  let ?body = "concat (map bstr_bytes certs)"
  have pt: "chain_bytes certs = ?h1 @ ?h2 @ ?h3 @ ?body" by (simp add: chain_bytes_def SESSION_CBOR_KEY_CHAIN_def)
  have cnt: "length certs < 2 ^ W" using assms(1) length_chain_bytes(1) [of certs] by simp
  then have c64: "length certs < 2 ^ 64" using assms(2) by (rule nat_less_64)
  have one: "(1 :: nat) mod 2 ^ W \<noteq> 0" using assms(3) by (cases W) auto
  have r1: "read_head (chain_bytes certs) 0 = Inr (MT_MAP, 1, 1)"
    using read_head_head_bytes [of MT_MAP 1 "[]" "?h2 @ ?h3 @ ?body"] pt by (simp add: head_need_def)
  have r2: "read_uint32 (chain_bytes certs) 1 = Inr (1, 2)"
    using read_uint32_head [of "chain_bytes certs" ?h1 1 "?h3 @ ?body" 1] pt by (simp add: head_need_def)
  have r3: "read_head (chain_bytes certs) 2 = Inr (MT_ARRAY, length certs, 2 + head_need (length certs))"
    by (rule read_head_at [where pre = "?h1 @ ?h2" and suf = ?body]) (use pt c64 in simp_all)
  have c: "copy_certs W maxc maxb (chain_bytes certs) (length certs) (length (?h1 @ ?h2 @ ?h3)) [] = Copied (kept_certs maxc maxb [] certs)"
    by (rule copy_certs_encoded) (use assms cnt pt in simp_all)
  have ne: "chain_bytes certs \<noteq> []" by (simp add: chain_bytes_def head_bytes_def)
  show ?thesis using c cnt one ne by (simp add: parse_chain_def r1 r2 [simplified] r3 SESSION_CBOR_KEY_CHAIN_def add.assoc)
qed

subsection \<open>Copies past the buffers\<close>

lemma copy_certs_safe:
  assumes "no_wrap pt" and "length pt < 2 ^ W" and "2 * length pt < 2 ^ W"
  shows "length (concat done) \<le> off \<Longrightarrow> off \<le> length pt \<Longrightarrow> copy_certs W maxc maxb pt n off done \<noteq> Wild_copy"
proof (induction n arbitrary: off "done")
  case (Suc n)
  show ?case
  proof (cases "read_bstr W pt off")
    case (Inr r)
    then obtain p cl o1 where rd: "read_bstr W pt off = Inr (p, cl, o1)" by (cases r) auto
    then have b: "p + cl \<le> length pt" "o1 = p + cl"
      using read_str_bounds [OF assms(1,2), of MT_BSTR off p cl o1] by (auto simp: read_bstr_def)
    obtain v where "read_head pt off = Inr (MT_BSTR, v, p)"
      using rd by (auto simp: read_bstr_def read_str_def res_simps split: prod.splits if_splits)
    then have "off < p" by (rule read_head_bounds)
    then have "length (concat done) + cl < 2 ^ W" using Suc.prems b assms(3) by simp
    moreover have "copy_certs W maxc maxb pt n o1 (done @ [take cl (drop p pt)]) \<noteq> Wild_copy"
      by (rule Suc.IH) (use Suc.prems b \<open>off < p\<close> in simp_all)
    ultimately show ?thesis using b by (simp add: rd Let_def)
  qed simp
qed simp

text \<open>A payload with a genuine first certificate and a second one whose length wraps.\<close>

definition hostile_chain :: "byte list \<Rightarrow> byte list" where
  "hostile_chain c = head_bytes MT_MAP 1 @ head_bytes MT_UINT 1 @ head_bytes MT_ARRAY 2 @ bstr_bytes c @ head_bytes MT_BSTR (2 ^ 64 - 8)"

lemma hostile_chain_wild:
  assumes "8 \<le> length c" and "length c \<le> maxb" and "2 \<le> maxc" and "length c \<le> 2000" and "W = 32 \<or> W = 64" and "maxb < 5000"
  shows "parse_chain W maxc maxb (hostile_chain c) = Wild_copy"
proof -
  let ?pt = "hostile_chain c"
  let ?h = "head_bytes MT_MAP 1 @ head_bytes MT_UINT 1 @ head_bytes MT_ARRAY 2"
  let ?k = "2 ^ 64 - 8 :: nat"
  have big: "?k < 2 ^ 64" "head_need ?k = 9" by (simp_all add: head_need_def)
  have len: "length ?pt = 12 + head_need (length c) + length c" by (simp add: hostile_chain_def bstr_bytes_def head_need_def)
  have W: "W \<le> 64" "(2 :: nat) ^ 32 \<le> 2 ^ W" "?k mod 2 ^ W = 2 ^ W - 8" using assms(5) by auto
  have fits: "length ?pt < 2 ^ W" using len W(2) assms(4) head_need_pos(2) [of "length c"] by (simp del: head_need_pos)
  have r1: "read_head ?pt 0 = Inr (MT_MAP, 1, 1)"
    using read_head_head_bytes [of MT_MAP 1 "[]" "head_bytes MT_UINT 1 @ head_bytes MT_ARRAY 2 @ bstr_bytes c @ head_bytes MT_BSTR ?k"]
    by (simp add: hostile_chain_def head_need_def)
  have r2: "read_uint32 ?pt 1 = Inr (1, 2)"
    using read_uint32_head [of ?pt "head_bytes MT_MAP 1" 1 "head_bytes MT_ARRAY 2 @ bstr_bytes c @ head_bytes MT_BSTR ?k" 1]
    by (simp add: hostile_chain_def head_need_def)
  have r3: "read_head ?pt 2 = Inr (MT_ARRAY, 2, 3)"
    using read_head_at [of ?pt "head_bytes MT_MAP 1 @ head_bytes MT_UINT 1" MT_ARRAY 2 "bstr_bytes c @ head_bytes MT_BSTR ?k" 2]
    by (simp add: hostile_chain_def)
  define p where "p = 3 + head_need (length c)"
  have lenp: "length ?pt = p + length c + 9" using len by (simp add: p_def)
  have b1: "read_bstr W ?pt 3 = Inr (p, length c, p + length c)"
    unfolding read_bstr_def p_def
    by (rule read_str_head [where pre = ?h and suf = "head_bytes MT_BSTR ?k"])
      (use fits W in \<open>simp_all add: hostile_chain_def bstr_bytes_def head_need_def\<close>)
  have h2: "read_head ?pt (p + length c) = Inr (MT_BSTR, ?k, p + length c + 9)"
    using read_head_at [of ?pt "?h @ bstr_bytes c" MT_BSTR ?k "[]" "p + length c"] big
    by (simp add: hostile_chain_def p_def)
  have "(p + length c + 9 + ?k) mod 2 ^ 64 = p + length c + 1"
  proof -
    have "p + length c + 9 + ?k = (p + length c + 1) + 2 ^ 64" by simp
    moreover have "p + length c + 1 < 2 ^ 64" using assms(4) head_need_pos(2) [of "length c"] by (simp add: p_def del: head_need_pos)
    ultimately show ?thesis by (metis mod_add_self2 mod_less)
  qed
  then have b2: "read_bstr W ?pt (p + length c) = Inr (p + length c + 9, 2 ^ W - 8, advance W (p + length c + 9) ?k)"
    using lenp W(3) by (simp add: read_bstr_def read_str_def h2)
  have t: "(length c + (2 ^ W - 8)) mod 2 ^ W = length c - 8"
  proof -
    have "(8 :: nat) \<le> 2 ^ W" using W(2) by simp
    then have "length c + (2 ^ W - 8) = (length c - 8) + 2 ^ W" using assms(1) by linarith
    moreover have "length c - 8 < 2 ^ W" using assms(4,5) by auto
    ultimately show ?thesis by (metis mod_add_self2 mod_less)
  qed
  have d: "length (take (length c) (drop p ?pt)) = length c" using lenp by simp
  have small: "length c < 2 ^ W" "2 mod 2 ^ W = (2 :: nat)" "(1::nat) mod 2 ^ W = 1" using assms(4,5) by auto
  let ?c1 = "take (length c) (drop p ?pt)"
  have second: "copy_certs W maxc maxb ?pt (Suc 0) (p + length c) [?c1] = Wild_copy"
  proof -
    have "maxb < length c + (2 ^ W - 8)" using assms(5,6) by auto
    moreover have "length c - 8 \<le> maxb" using assms(2) by simp
    ultimately show ?thesis using assms(3) t d by (simp add: b2 Let_def)
  qed
  have "copy_certs W maxc maxb ?pt (Suc (Suc 0)) 3 [] = copy_certs W maxc maxb ?pt (Suc 0) (p + length c) [?c1]"
    using assms(2,3) small(1) lenp by (subst copy_certs.simps(2)) (simp add: b1 Let_def)
  with second have "copy_certs W maxc maxb ?pt 2 3 [] = Wild_copy" by (simp add: eval_nat_numeral)
  moreover have "?pt \<noteq> []" using len by auto
  ultimately show ?thesis using small(2,3) by (simp add: parse_chain_def r1 r2 [simplified] r3 SESSION_CBOR_KEY_CHAIN_def)
qed

end
