(* ===== verification/Handshake.thy ===== *)
theory Handshake
  imports Host_Link Chain
begin

text \<open>
  The two ends of the channel together: the handshake of the device and that of the host
  derive the same keys and learn each other's static keys, and what one end sends the other
  receives.

  \<open>noise_peers\<close> relates the libraries of the two ends: wolfCrypt and libsodium implement the
  same hash, key derivation, AEAD and curve.
\<close>

text \<open>A sealed message: the ciphertext with its tag.\<close>

definition sealed :: "wolfnoise \<Rightarrow> byte list \<Rightarrow> 64 word \<Rightarrow> byte list \<Rightarrow> byte list \<Rightarrow> byte list" where
  "sealed N k n ad pt = (case wc_ChaCha20Poly1305_Encrypt N k (nonce_encode n) ad pt of Some (ct, tag) \<Rightarrow> ct @ tag | None \<Rightarrow> [])"

definition after_seal :: "'h sodium \<Rightarrow> sym_state \<Rightarrow> byte list \<Rightarrow> sym_state" where
  "after_seal Sd s ct = h_mix_hash Sd ct (s\<lparr>ss_n := ss_n s + 1\<rparr>)"

lemma nonce_agrees [simp]: "h_nonce_encode n = nonce_encode n"
  by (simp add: h_nonce_encode_def nonce_encode_def)

lemma clamp_twice: "length k = 32 \<Longrightarrow> x25519_clamp (x25519_clamp k) = x25519_clamp k"
  by (simp add: x25519_clamp_def list_update_swap and.assoc word_ao_dist or.assoc)

locale noise_peers =
  fixes K :: "'r wolfcrypt" and N :: wolfnoise and Sd :: "'h sodium"
  assumes sha_agrees: "wc_Sha256Hash K d = Some (crypto_hash_sha256 Sd d)"
    and sha_length: "length (crypto_hash_sha256 Sd d) = 32"
    and hkdf_agrees: "wc_HKDF K ikm ck [] 64 = Some (fst (h_hkdf2 Sd ck ikm) @ snd (h_hkdf2 Sd ck ikm))"
    and hmac_length: "length (crypto_auth_hmacsha256 Sd k d) = 32"
    and enc_agrees: "crypto_aead_encrypt Sd k n ad pt = map_option (\<lambda>(ct, tag). ct @ tag) (wc_ChaCha20Poly1305_Encrypt N k n ad pt)"
    and enc_total: "length k = 32 \<Longrightarrow> wc_ChaCha20Poly1305_Encrypt N k n ad pt \<noteq> None"
    and enc_lengths: "wc_ChaCha20Poly1305_Encrypt N k n ad pt = Some (ct, tag) \<Longrightarrow> length ct = length pt \<and> length tag = 16"
    and dec_inverse: "wc_ChaCha20Poly1305_Encrypt N k n ad pt = Some (ct, tag) \<Longrightarrow> wc_ChaCha20Poly1305_Decrypt N k n ad ct tag = GcmOk pt"
    and dec_agrees: "length tag = 16 \<Longrightarrow> crypto_aead_decrypt Sd k n ad (ct @ tag) =
      (case wc_ChaCha20Poly1305_Decrypt N k n ad ct tag of GcmOk pt \<Rightarrow> Some pt | _ \<Rightarrow> None)"
    and base_length: "length (crypto_scalarmult_base Sd a) = 32"
    and base_agrees: "length a = 32 \<Longrightarrow> wc_curve25519_make_pub N (x25519_clamp a) = Some (crypto_scalarmult_base Sd a)"
    and dh_agrees: "length a = 32 \<Longrightarrow> length b = 32 \<Longrightarrow>
      wc_curve25519_generic N (x25519_clamp a) (crypto_scalarmult_base Sd b) = crypto_scalarmult Sd b (crypto_scalarmult_base Sd a)"
    and dh_defined: "length a = 32 \<Longrightarrow> length b = 32 \<Longrightarrow> crypto_scalarmult Sd b (crypto_scalarmult_base Sd a) \<noteq> None"
begin

lemma mix_hash_agrees: "sym_mix_hash K d s = Inr (h_mix_hash Sd d s)"
  by (simp add: sym_mix_hash_def noise_crypto_hash_def eio_def sha_agrees h_mix_hash_def)

lemma hkdf2_lengths: "length (fst (h_hkdf2 Sd ck ikm)) = 32" "length (snd (h_hkdf2 Sd ck ikm)) = 32"
  by (simp_all add: h_hkdf2_def Let_def hmac_length)

lemma hkdf2_agrees: "noise_crypto_hkdf2 K ck ikm = Inr (h_hkdf2 Sd ck ikm)"
  by (simp add: noise_crypto_hkdf2_def hkdf_agrees hkdf2_lengths)

lemma mix_key_agrees: "sym_mix_key K ikm s = Inr (h_mix_key Sd ikm s)"
  by (simp add: sym_mix_key_def hkdf2_agrees h_mix_key_def split: prod.split)

lemma mix_key_keyed [simp]: "ss_has_key (h_mix_key Sd ikm s)" "length (ss_k (h_mix_key Sd ikm s)) = 32"
  using hkdf2_lengths [of "ss_ck s" ikm] by (auto simp: h_mix_key_def split: prod.split)

lemma mix_hash_keyed [simp]: "ss_has_key (h_mix_hash Sd d s) = ss_has_key s" "ss_k (h_mix_hash Sd d s) = ss_k s"
  by (simp_all add: h_mix_hash_def)

lemma sealed_length: "length k = 32 \<Longrightarrow> length (sealed N k n ad pt) = length pt + 16"
  using enc_total [of k "nonce_encode n" ad pt] enc_lengths [of k "nonce_encode n" ad pt]
  by (auto simp: sealed_def split: option.split prod.split)

lemma sealed_by_both:
  assumes "length k = 32"
  shows "noise_crypto_encrypt N cap k n ad pt = (if cap < length pt + 16 then Inl EINVAL else Inr (sealed N k n ad pt))"
    and "crypto_aead_encrypt Sd k (h_nonce_encode n) ad pt = Some (sealed N k n ad pt)"
proof -
  from enc_total [OF assms, of "nonce_encode n" ad pt] obtain ct tag
    where e: "wc_ChaCha20Poly1305_Encrypt N k (nonce_encode n) ad pt = Some (ct, tag)" by auto
  show "noise_crypto_encrypt N cap k n ad pt = (if cap < length pt + 16 then Inl EINVAL else Inr (sealed N k n ad pt))"
    by (simp add: noise_crypto_encrypt_def sealed_def e)
  show "crypto_aead_encrypt Sd k (h_nonce_encode n) ad pt = Some (sealed N k n ad pt)"
    using enc_agrees [of k "nonce_encode n" ad pt] by (simp add: sealed_def e)
qed

lemma opened_by_both:
  assumes "length k = 32"
  shows "noise_crypto_decrypt N cap k n ad (sealed N k n ad pt) = (if cap < length pt then Inl EINVAL else Inr pt)"
    and "crypto_aead_decrypt Sd k (h_nonce_encode n) ad (sealed N k n ad pt) = Some pt"
proof -
  from enc_total [OF assms, of "nonce_encode n" ad pt] obtain ct tag
    where e: "wc_ChaCha20Poly1305_Encrypt N k (nonce_encode n) ad pt = Some (ct, tag)" by auto
  note l = enc_lengths [OF e] and d = dec_inverse [OF e]
  show "noise_crypto_decrypt N cap k n ad (sealed N k n ad pt) = (if cap < length pt then Inl EINVAL else Inr pt)"
    using l d by (simp add: noise_crypto_decrypt_def sealed_def e)
  show "crypto_aead_decrypt Sd k (h_nonce_encode n) ad (sealed N k n ad pt) = Some pt"
    using l d dec_agrees [of tag k "nonce_encode n" ad ct] by (simp add: sealed_def e)
qed

lemma seal_state:
  assumes "ss_has_key s" and "length (ss_k s) = 32" and "ct = sealed N (ss_k s) (ss_n s) (ss_h s) pt"
  shows "sym_encrypt_and_hash K N pt cap s = (if cap < length pt + 16 then Inl EINVAL else Inr (ct, after_seal Sd s ct))"
    and "h_encrypt_and_hash Sd pt cap s = Inr (ct, after_seal Sd s ct)"
    and "sym_decrypt_and_hash K N ct cap s = (if cap < length pt then Inl EINVAL else Inr (pt, after_seal Sd s ct))"
    and "h_decrypt_and_hash Sd ct cap s = Inr (pt, after_seal Sd s ct)"
  using assms sealed_by_both [OF assms(2)] opened_by_both [OF assms(2)]
  by (simp_all add: sym_encrypt_and_hash_def h_encrypt_and_hash_def sym_decrypt_and_hash_def h_decrypt_and_hash_def
      mix_hash_agrees after_seal_def)

lemma after_seal_keyed [simp]: "ss_has_key (after_seal Sd s ct) = ss_has_key s" "ss_k (after_seal Sd s ct) = ss_k s"
  by (simp_all add: after_seal_def)

lemma msg2_room_ample: "pos \<le> 3000 \<Longrightarrow> len \<le> 3000 \<Longrightarrow> 4 < pos \<Longrightarrow> \<not> msg2_room pos < len + 16"
  by (simp add: msg2_room_def size_bits_def)

lemma device_dh:
  assumes "length a = 32" and "length b = 32"
  obtains z where "noise_crypto_dh N a (crypto_scalarmult_base Sd b) = Inr z"
    "crypto_scalarmult Sd b (crypto_scalarmult_base Sd a) = Some z"
  using dh_agrees [OF assms] dh_defined [OF assms] that by (auto simp: noise_crypto_dh_def eio_def)

lemma handshake_messages:
  assumes "length sR = 32" and "length eR = 32" and "length sI = 32" and "length eI = 32"
    and "length chain_pt \<le> SESSION_CHAIN_PT_MAX" and "length client_pt \<le> SESSION_CHAIN_PT_MAX"
    and "expected = None \<or> expected = Some (crypto_scalarmult_base Sd sI)"
  shows "\<exists>sy1 msg2 sy2 msg3 sy3.
      ok_then (sym_mix_hash K [] sym_init) (hs_read_msg1 K (crypto_scalarmult_base Sd eI)) = Inr sy1
    \<and> hs_write_msg2 K N (sR, crypto_scalarmult_base Sd sR) (eR, crypto_scalarmult_base Sd eR) (crypto_scalarmult_base Sd eI) chain_pt sy1
        = Inr (msg2, sy2)
    \<and> length msg2 = 96 + length chain_pt
    \<and> hh_read_msg2 Sd eI msg2 (hh_start Sd (crypto_scalarmult_base Sd eI))
        = Inr (crypto_scalarmult_base Sd eR, crypto_scalarmult_base Sd sR, chain_pt, sy2)
    \<and> hh_write_msg3 Sd sI (crypto_scalarmult_base Sd sI) (crypto_scalarmult_base Sd eR) client_pt sy2 = Inr (msg3, sy3)
    \<and> length msg3 = 64 + length client_pt
    \<and> hs_read_msg3 K N expected eR msg3 sy2 = Inr (crypto_scalarmult_base Sd sI, client_pt, sy3)
    \<and> sym_split K sy3 = Inr (h_sym_split Sd sy3)"
proof -
  let ?B = "crypto_scalarmult_base Sd"
  obtain ee where ee: "noise_crypto_dh N eR (?B eI) = Inr ee" "crypto_scalarmult Sd eI (?B eR) = Some ee"
    by (rule device_dh [OF assms(2,4)])
  obtain es where es: "noise_crypto_dh N sR (?B eI) = Inr es" "crypto_scalarmult Sd eI (?B sR) = Some es"
    by (rule device_dh [OF assms(1,4)])
  obtain se where se: "noise_crypto_dh N eR (?B sI) = Inr se" "crypto_scalarmult Sd sI (?B eR) = Some se"
    by (rule device_dh [OF assms(2,3)])
  define sy1 where "sy1 = hh_start Sd (?B eI)"
  define a where "a = h_mix_key Sd ee (h_mix_hash Sd (?B eR) sy1)"
  define c1 where "c1 = sealed N (ss_k a) (ss_n a) (ss_h a) (?B sR)"
  define b where "b = h_mix_key Sd es (after_seal Sd a c1)"
  define c2 where "c2 = sealed N (ss_k b) (ss_n b) (ss_h b) chain_pt"
  define sy2 where "sy2 = after_seal Sd b c2"
  define c3 where "c3 = sealed N (ss_k sy2) (ss_n sy2) (ss_h sy2) (?B sI)"
  define c where "c = h_mix_key Sd se (after_seal Sd sy2 c3)"
  define c4 where "c4 = sealed N (ss_k c) (ss_n c) (ss_h c) client_pt"
  define sy3 where "sy3 = after_seal Sd c c4"
  have ka: "ss_has_key a" "length (ss_k a) = 32" by (simp_all add: a_def)
  have kb: "ss_has_key b" "length (ss_k b) = 32" by (simp_all add: b_def)
  have k2: "ss_has_key sy2" "length (ss_k sy2) = 32" using kb by (simp_all add: sy2_def)
  have kc: "ss_has_key c" "length (ss_k c) = 32" by (simp_all add: c_def)
  note S1 = seal_state [OF ka c1_def] and S2 = seal_state [OF kb c2_def]
  note S3 = seal_state [OF k2 c3_def] and S4 = seal_state [OF kc c4_def]
  have len: "length c1 = 48" "length c2 = length chain_pt + 16" "length c3 = 48" "length c4 = length client_pt + 16"
    using sealed_length [OF ka(2)] sealed_length [OF kb(2)] sealed_length [OF k2(2)] sealed_length [OF kc(2)]
    by (simp_all add: c1_def c2_def c3_def c4_def base_length)
  have room: "\<not> msg2_room 32 < 48" "\<not> msg2_room (32 + length c1) < length chain_pt + 16"
    using msg2_room_ample [of 32 32] msg2_room_ample [of 80 "length chain_pt"] assms(5) by (simp_all add: len SESSION_CHAIN_PT_MAX_def)
  have m1: "ok_then (sym_mix_hash K [] sym_init) (hs_read_msg1 K (?B eI)) = Inr sy1"
    by (simp add: hs_read_msg1_def mix_hash_agrees sy1_def hh_start_def)
  have m2: "hs_write_msg2 K N (sR, ?B sR) (eR, ?B eR) (?B eI) chain_pt sy1 = Inr (?B eR @ c1 @ c2, sy2)"
    using room by (simp add: hs_write_msg2_def mix_hash_agrees mix_key_agrees ee es a_def [symmetric] b_def [symmetric]
        S1(1) S2(1) base_length sy2_def)
  have r2: "hh_read_msg2 Sd eI (?B eR @ c1 @ c2) sy1 = Inr (?B eR, ?B sR, chain_pt, sy2)"
    by (simp add: hh_read_msg2_def Let_def base_length len ee es a_def [symmetric] b_def [symmetric] S1(4) S2(4) sy2_def)
  have m3: "hh_write_msg3 Sd sI (?B sI) (?B eR) client_pt sy2 = Inr (c3 @ c4, sy3)"
    by (simp add: hh_write_msg3_def S3(2) S4(2) se c_def [symmetric] sy3_def)
  have r3: "hs_read_msg3 K N expected eR (c3 @ c4) sy2 = Inr (?B sI, client_pt, sy3)"
    using assms(6,7) by (auto simp: hs_read_msg3_def len S3(3) S4(3) base_length se mix_key_agrees c_def [symmetric] sy3_def)
  have sp: "sym_split K sy3 = Inr (h_sym_split Sd sy3)" by (simp add: sym_split_def h_sym_split_def hkdf2_agrees)
  show ?thesis using m1 m2 r2 m3 r3 sp by (auto simp: len base_length sy1_def [symmetric])
qed

lemma keygen_pair:
  assumes "entropy_get K 32 r = (Inr bs, r')" and "length bs = 32"
  shows "noise_crypto_dh_keygen K N r = (Inr (x25519_clamp bs, crypto_scalarmult_base Sd (x25519_clamp bs)), r')"
proof -
  have "length (x25519_clamp bs) = 32" using assms(2) by (simp add: x25519_clamp_def)
  from base_agrees [OF this] base_agrees [OF assms(2)] clamp_twice [OF assms(2)] assms
  show ?thesis by (simp add: noise_crypto_dh_keygen_def Let_def)
qed

end

subsection \<open>The handshake over the transports\<close>

lemma host_side:
  fixes Sd :: "'h sodium"
  defines "base \<equiv> crypto_scalarmult_base Sd"
  assumes "host_link Th sent taken reply"
    and "sent th = []" and "taken th = 0" and "reply [] = stale" and "reply (frame (base eI)) = stale @ frame msg2"
    and "randombytes_buf Sd 32 rh = (eI, rh')"
    and "96 \<le> length msg2" and "length msg2 \<le> SESSION_HS_MSG_MAX"
    and "hh_read_msg2 Sd eI msg2 (hh_start Sd (base eI)) = Inr (eR_pub, dev_pub, chain_pt, sy2)"
    and "hh_write_msg3 Sd sI (base sI) eR_pub client_pt sy2 = Inr (msg3, sy3)"
    and "parse_device_chain chain_pt = Copied certs" and "client_payload cc = Inr client_pt"
    and "cantil_trust_check_policy X (crypto_hash_sha256 Sd) policy certs = CANTIL_OK"
    and "timeout_ms = 0 \<or> 0 < sint timeout_ms"
  shows "\<exists>th'. cantil_session_open Sd X Th sI policy cc timeout_ms rh th
      = Some (H_session (new_host_session (h_sym_split Sd sy3) dev_pub (base sI) certs), rh', th')
    \<and> sent th' = frame (base eI) @ frame msg3"
proof -
  let ?ms = "if timeout_ms \<noteq> 0 then sint timeout_ms else DEFAULT_TIMEOUT_MS"
  have ms: "0 < ?ms" using assms(15) by (auto simp: DEFAULT_TIMEOUT_MS_def)
  have fits: "length msg2 \<le> MAX_FRAME_PAYLOAD" "MAX_FRAME_PAYLOAD < 65536"
    using assms(9) by (simp_all add: SESSION_HS_MSG_MAX_def SESSION_CHAIN_PT_MAX_def NOISE_TAG_LEN_def MAX_FRAME_PAYLOAD_def)
  obtain t0 where d: "drain_transport Th th = Some t0" "sent t0 = []" "taken t0 = length stale"
    using host_link.drain_returns [OF assms(2), of th] assms(3-5) by (auto simp: pending_def)
  obtain t1 where s1: "h_send_frame Th (base eI) t0 = (None, t1)" "sent t1 = frame (base eI)" "taken t1 = length stale"
    using host_link.h_send_frame_sends [OF assms(2), of "base eI" t0] d by auto
  have "pending sent taken reply t1 = frame msg2 @ []" using s1 assms(6) by (simp add: pending_def)
  from host_link.h_recv_frame_delivers [OF assms(2) this fits ms] obtain t2 where
    r: "h_recv_frame Th MAX_FRAME_PAYLOAD ?ms t1 = Some (Inr msg2, t2)" "sent t2 = frame (base eI)" using s1 by auto
  obtain t3 where s3: "h_send_frame Th msg3 t2 = (None, t3)" "sent t3 = frame (base eI) @ frame msg3"
    using host_link.h_send_frame_sends [OF assms(2), of msg3 t2] r by auto
  have "\<not> length msg2 < 96" using assms(8) by simp
  with d r s1 s3 assms(7,10-14) show ?thesis by (simp add: cantil_session_open_def Let_def base_def)
qed

definition local_chain :: "('fs, 'k, 'r) dev_env \<Rightarrow> ('fs, 'r) dev_state \<Rightarrow> byte list res" where
  "local_chain D S = (case collect_local_certs D S of
     Inr (c # cs) \<Rightarrow> encode_chain_cbor SESSION_CHAIN_PT_MAX (c # cs) | _ \<Rightarrow> Inr [])"

lemma local_chain_rng [simp]: "local_chain D (S\<lparr>ds_ca := (ds_ca S)\<lparr>ca_rng := r\<rparr>\<rparr>) = local_chain D S"
  by (simp add: local_chain_def collect_local_certs_def session_slot_get_cert_def cong: option.case_cong sum.case_cong)

locale channel = noise_peers "dv_wc D" "dv_noise D" Sd + dev_link T inp outp
  for D :: "('fs, 'k, 'r) dev_env" and Sd :: "'h sodium" and T :: "'t transport" and inp :: "'t \<Rightarrow> byte list"
    and outp :: "'t \<Rightarrow> byte list" +
  fixes S :: "('fs, 'r) dev_state" and sR :: "byte list" and bs :: "byte list" and r' :: 'r and chain_pt :: "byte list"
  assumes static: "load_static_keypair D S = Inr (sR, crypto_scalarmult_base Sd sR)" "length sR = 32"
    and fresh: "entropy_get (dv_wc D) 32 (ca_rng (ds_ca S)) = (Inr bs, r')" "length bs = 32"
    and chain: "local_chain D S = Inr chain_pt" "length chain_pt \<le> SESSION_CHAIN_PT_MAX"
begin

abbreviation base :: "byte list \<Rightarrow> byte list" where "base \<equiv> crypto_scalarmult_base Sd"
abbreviation eR :: "byte list" where "eR \<equiv> x25519_clamp bs"
abbreviation S' :: "('fs, 'r) dev_state" where "S' \<equiv> S\<lparr>ds_ca := (ds_ca S)\<lparr>ca_rng := r'\<rparr>\<rparr>"

lemma eR_length: "length eR = 32" using fresh(2) by (simp add: x25519_clamp_def)

lemma session_open_answers:
  assumes "inp t = frame (base eI) @ rest"
    and "ok_then (sym_mix_hash (dv_wc D) [] sym_init) (hs_read_msg1 (dv_wc D) (base eI)) = Inr sy1"
    and "hs_write_msg2 (dv_wc D) (dv_noise D) (sR, base sR) (eR, base eR) (base eI) chain_pt sy1 = Inr (msg2, sy2)"
  shows "\<exists>t2 more. inp t2 = rest @ more \<and> outp t2 = outp t @ frame msg2
    \<and> session_open D T expected False S t = Option.bind (recv_frame T SESSION_HS_MSG_MAX t2) (\<lambda>(r, t).
        Some (hs_finish (dv_wc D) (dv_noise D) expected eR (base sR) sy2 r, S', t))"
proof -
  from assms(2) obtain sy0 where m: "sym_mix_hash (dv_wc D) [] sym_init = Inr sy0" "hs_read_msg1 (dv_wc D) (base eI) sy0 = Inr sy1"
    by (auto simp: ok_then_def split: sum.splits)
  from recv_frame_delivers [OF assms(1), of 32] obtain t1 more1 where
    t1: "recv_frame T 32 t = Some (Inr (base eI), t1)" "inp t1 = rest @ more1" "outp t1 = outp t" by (auto simp: base_length)
  obtain t2 more2 where t2: "send_frame T msg2 t1 = (None, t2)" "inp t2 = inp t1 @ more2" "outp t2 = outp t1 @ frame msg2"
    using send_frame_sends by blast
  have rng: "dev_rng (noise_crypto_dh_keygen (dv_wc D) (dv_noise D)) S = (Inr (eR, base eR), S')"
    using keygen_pair [OF fresh] by (simp add: dev_rng_def ca_do_def rng_do_def)
  have "local_chain D S' = Inr chain_pt" using chain(1) by simp
  then have "session_open D T expected False S t = Option.bind (recv_frame T SESSION_HS_MSG_MAX t2) (\<lambda>(r, t).
        Some (hs_finish (dv_wc D) (dv_noise D) expected eR (base sR) sy2 r, S', t))"
    by (simp add: session_open_def Let_def static rng m t1(1) t2(1) base_length assms(3) local_chain_def [symmetric])
  then show ?thesis using t1 t2 by auto
qed

lemma hs_msg3_fits: "length client_pt \<le> SESSION_CHAIN_PT_MAX \<Longrightarrow> 64 + length client_pt \<le> SESSION_HS_MSG_MAX"
  by (simp add: SESSION_HS_MSG_MAX_def SESSION_CHAIN_PT_MAX_def NOISE_TAG_LEN_def)

text \<open>The messages of one handshake, and what the device does with them.\<close>

lemma device_side:
  assumes "length sI = 32" and "length eI = 32" and "length client_pt \<le> SESSION_CHAIN_PT_MAX"
    and "expected = None \<or> expected = Some (base sI)"
  shows "\<exists>msg2 sy2 msg3 sy3.
      96 \<le> length msg2 \<and> length msg2 \<le> SESSION_HS_MSG_MAX
    \<and> hh_read_msg2 Sd eI msg2 (hh_start Sd (base eI)) = Inr (base eR, base sR, chain_pt, sy2)
    \<and> hh_write_msg3 Sd sI (base sI) (base eR) client_pt sy2 = Inr (msg3, sy3)
    \<and> (\<forall>t rest. inp t = frame (base eI) @ rest \<longrightarrow>
        (\<exists>res t'. session_open D T expected False S t = Some (res, S', t') \<and> outp t' = outp t @ frame msg2))
    \<and> (\<forall>t rest. inp t = frame (base eI) @ frame msg3 @ rest \<longrightarrow>
        (\<exists>t'. session_open D T expected False S t = Some (case parse_client_chain client_pt of
            Wild_copy \<Rightarrow> Open_fault
          | Copied certs \<Rightarrow> Open_ok (new_session (h_sym_split Sd sy3) (base sI) (base sR) certs), S', t')))"
proof -
  obtain sy1 msg2 sy2 msg3 sy3 where
    m1: "ok_then (sym_mix_hash (dv_wc D) [] sym_init) (hs_read_msg1 (dv_wc D) (base eI)) = Inr sy1"
    and m2: "hs_write_msg2 (dv_wc D) (dv_noise D) (sR, base sR) (eR, base eR) (base eI) chain_pt sy1 = Inr (msg2, sy2)"
    and l2: "length msg2 = 96 + length chain_pt"
    and r2: "hh_read_msg2 Sd eI msg2 (hh_start Sd (base eI)) = Inr (base eR, base sR, chain_pt, sy2)"
    and m3: "hh_write_msg3 Sd sI (base sI) (base eR) client_pt sy2 = Inr (msg3, sy3)"
    and l3: "length msg3 = 64 + length client_pt"
    and r3: "hs_read_msg3 (dv_wc D) (dv_noise D) expected eR msg3 sy2 = Inr (base sI, client_pt, sy3)"
    and sp: "sym_split (dv_wc D) sy3 = Inr (h_sym_split Sd sy3)"
    using handshake_messages [OF static(2) eR_length assms(1,2) chain(2) assms(3,4)] by blast
  have fin: "hs_finish (dv_wc D) (dv_noise D) expected eR (base sR) sy2 (Inr msg3) = (case parse_client_chain client_pt of
      Wild_copy \<Rightarrow> Open_fault | Copied certs \<Rightarrow> Open_ok (new_session (h_sym_split Sd sy3) (base sI) (base sR) certs))"
    using l3 r3 sp by (simp add: hs_finish_def split: chain_copy.split)
  have fits: "length msg3 \<le> SESSION_HS_MSG_MAX" "SESSION_HS_MSG_MAX < 65536"
    using l3 hs_msg3_fits [OF assms(3)] by (simp_all add: SESSION_HS_MSG_MAX_def SESSION_CHAIN_PT_MAX_def NOISE_TAG_LEN_def)
  have a: "\<exists>res t'. session_open D T expected False S t = Some (res, S', t') \<and> outp t' = outp t @ frame msg2"
    if i: "inp t = frame (base eI) @ rest" for t rest
  proof -
    from session_open_answers [OF i m1 m2, of expected] obtain t2 where
      o: "outp t2 = outp t @ frame msg2" "session_open D T expected False S t = Option.bind (recv_frame T SESSION_HS_MSG_MAX t2) (\<lambda>(r, t).
        Some (hs_finish (dv_wc D) (dv_noise D) expected eR (base sR) sy2 r, S', t))" by blast
    obtain r t' where "recv_frame T SESSION_HS_MSG_MAX t2 = Some (r, t')" "outp t' = outp t2" using recv_frame_returns by blast
    with o show ?thesis by simp
  qed
  have b: "\<exists>t'. session_open D T expected False S t = Some (case parse_client_chain client_pt of Wild_copy \<Rightarrow> Open_fault
          | Copied certs \<Rightarrow> Open_ok (new_session (h_sym_split Sd sy3) (base sI) (base sR) certs), S', t')"
    if i: "inp t = frame (base eI) @ frame msg3 @ rest" for t rest
  proof -
    from session_open_answers [OF i m1 m2, of expected] obtain t2 more where
      o: "inp t2 = frame msg3 @ (rest @ more)" "session_open D T expected False S t = Option.bind (recv_frame T SESSION_HS_MSG_MAX t2) (\<lambda>(r, t).
        Some (hs_finish (dv_wc D) (dv_noise D) expected eR (base sR) sy2 r, S', t))" by auto
    from recv_frame_delivers [OF o(1) fits] obtain t' where "recv_frame T SESSION_HS_MSG_MAX t2 = Some (Inr msg3, t')" by blast
    with o(2) show ?thesis by (simp add: fin)
  qed
  have len: "96 \<le> length msg2" "length msg2 \<le> SESSION_HS_MSG_MAX"
    using l2 chain(2) by (simp_all add: SESSION_HS_MSG_MAX_def SESSION_CHAIN_PT_MAX_def NOISE_TAG_LEN_def)
  show ?thesis using len r2 m3 a b by blast
qed

end

end
