(* ===== verification/Secure_Channel.thy ===== *)
theory Secure_Channel
  imports Handshake
begin

text \<open>
  What the two ends of a handshake agree on: the certificates that arrive, and the relation
  \<open>paired\<close> between the two session objects.
\<close>

subsection \<open>Certificates\<close>

lemma client_payload_parsed:
  assumes "client_payload cc = Inr pt" and "length pt \<le> SESSION_CHAIN_PT_MAX"
  shows "parse_client_chain pt = Copied (take SESSION_CHAIN_MAX_CERTS (offered_certs cc))"
proof (cases "offered_certs cc = []")
  case True
  then have "pt = [0xA0]" using assms(1) by (simp add: client_payload_cases)
  moreover have "read_head [0xA0] 0 = Inr (MT_MAP, 0, 1)" by (simp add: read_head_def MT_MAP_def)
  ultimately show ?thesis using True by (simp add: parse_client_chain_def parse_chain_def)
next
  case False
  have pt: "pt = chain_bytes (offered_certs cc)" by (rule client_payload_chain [OF assms(1) False])
  have "length pt < 2 ^ size_bits" using assms(2) by (simp add: size_bits_def SESSION_CHAIN_PT_MAX_def)
  then have "parse_client_chain pt = Copied (kept_certs SESSION_CHAIN_MAX_CERTS SESSION_CLIENT_CHAIN_MAX [] (offered_certs cc))"
    unfolding parse_client_chain_def pt by (intro parse_chain_encoded) (simp_all add: size_bits_def)
  then show ?thesis using length_chain_bytes(2) [of "offered_certs cc"] assms(2) pt
    by (simp add: kept_certs_take SESSION_CHAIN_PT_MAX_def SESSION_CLIENT_CHAIN_MAX_def)
qed

lemma chain_parts_few: "length (chain_parts W n chain) \<le> n"
  by (induction W n chain rule: chain_parts.induct) (auto split: sum.splits)

lemma collected_few: "collect_local_certs D S = Inr certs \<Longrightarrow> length certs \<le> SESSION_CHAIN_MAX_CERTS"
  using chain_parts_few [of "sizeof_size_t (dv_ca D)" "SESSION_CHAIN_MAX_CERTS - 1"]
  by (auto simp: collect_local_certs_def SESSION_CHAIN_MAX_CERTS_def le_Suc_eq split: sum.splits if_splits)

text \<open>The device's own chain arrives complete.\<close>

lemma local_chain_parsed:
  assumes "collect_local_certs D S = Inr certs" and "length (chain_bytes certs) \<le> SESSION_CHAIN_PT_MAX"
  obtains pt where "local_chain D S = Inr pt" "length pt \<le> SESSION_CHAIN_PT_MAX" "parse_device_chain pt = Copied certs"
proof (cases certs)
  case Nil
  then show ?thesis using assms that [of "[]"] by (simp add: local_chain_def parse_device_chain_def parse_chain_def)
next
  case (Cons c cs)
  note few = collected_few [OF assms(1)]
  have "length certs < 2 ^ 32" using few by (simp add: SESSION_CHAIN_MAX_CERTS_def)
  from encode_chain_eq [OF this, of SESSION_CHAIN_PT_MAX] have e: "local_chain D S = Inr (chain_bytes certs)"
    using assms Cons by (simp add: local_chain_def)
  have small: "length (chain_bytes certs) < 2 ^ 64" using assms(2) by (simp add: SESSION_CHAIN_PT_MAX_def)
  have "parse_device_chain (chain_bytes certs) = Copied (kept_certs CANTIL_DEVICE_CHAIN_CERTS CANTIL_DEVICE_CHAIN_MAX [] certs)"
    unfolding parse_device_chain_def by (rule parse_chain_encoded) (use small in simp_all)
  also have "kept_certs CANTIL_DEVICE_CHAIN_CERTS CANTIL_DEVICE_CHAIN_MAX [] certs = certs"
    using few assms(2) length_chain_bytes(2) [of certs]
    by (subst kept_certs_take) (simp_all add: SESSION_CHAIN_MAX_CERTS_def CANTIL_DEVICE_CHAIN_CERTS_def CANTIL_DEVICE_CHAIN_MAX_def SESSION_CHAIN_PT_MAX_def)
  finally show ?thesis using that [OF e assms(2)] by simp
qed

definition chain_pt_of :: "('fs, 'k, 'r) dev_env \<Rightarrow> ('fs, 'r) dev_state \<Rightarrow> byte list" where
  "chain_pt_of D S = (case local_chain D S of Inr pt \<Rightarrow> pt | Inl _ \<Rightarrow> [])"

subsection \<open>Agreement\<close>

definition paired :: "host_session \<Rightarrow> cantil_session \<Rightarrow> bool" where
  "paired hs ds \<longleftrightarrow> hs_established hs \<and> established ds
    \<and> hs_tx_key hs = rx_key ds \<and> hs_rx_key hs = tx_key ds \<and> length (rx_key ds) = 32 \<and> length (tx_key ds) = 32
    \<and> hs_tx_nonce hs = rx_nonce ds \<and> hs_rx_nonce hs = tx_nonce ds
    \<and> device_s_pub hs = local_s_pub ds \<and> client_s_pub hs = remote_s_pub ds"

end
