(* ===== verification/Messages.thy ===== *)
theory Messages
  imports Secure_Channel
begin

text \<open>
  The messages of an established session, in both directions, and what the host library does
  not check.
\<close>

text \<open>A run of sends and a run of receives; \<open>None\<close> when one of them fails.\<close>

fun host_sends :: "'h sodium \<Rightarrow> 'u htransport \<Rightarrow> byte list list \<Rightarrow> host_session \<Rightarrow> 'u \<Rightarrow> (host_session \<times> 'u) option" where
  "host_sends Sd Th [] hs th = Some (hs, th)"
| "host_sends Sd Th (m # ms) hs th =
    (case cantil_session_send Sd Th hs m th of (None, hs, th) \<Rightarrow> host_sends Sd Th ms hs th | _ \<Rightarrow> None)"

fun device_sends :: "wolfnoise \<Rightarrow> 't transport \<Rightarrow> byte list list \<Rightarrow> cantil_session \<Rightarrow> 't \<Rightarrow> (cantil_session \<times> 't) option" where
  "device_sends N T [] ds t = Some (ds, t)"
| "device_sends N T (m # ms) ds t =
    (case session_send N T ds m t of (None, ds, t) \<Rightarrow> device_sends N T ms ds t | _ \<Rightarrow> None)"

fun device_recvs :: "wolfnoise \<Rightarrow> 't transport \<Rightarrow> nat \<Rightarrow> nat \<Rightarrow> cantil_session \<Rightarrow> 't \<Rightarrow> (byte list list \<times> cantil_session \<times> 't) option" where
  "device_recvs N T max_len 0 ds t = Some ([], ds, t)"
| "device_recvs N T max_len (Suc n) ds t =
    (case session_recv N T ds max_len t of
       Some (Inr m, ds, t) \<Rightarrow> map_option (\<lambda>(ms, r). (m # ms, r)) (device_recvs N T max_len n ds t)
     | _ \<Rightarrow> None)"

fun host_recvs :: "'h sodium \<Rightarrow> 'u htransport \<Rightarrow> nat \<Rightarrow> nat \<Rightarrow> host_session \<Rightarrow> 'u \<Rightarrow> (byte list list \<times> host_session \<times> 'u) option" where
  "host_recvs Sd Th max_len 0 hs th = Some ([], hs, th)"
| "host_recvs Sd Th max_len (Suc n) hs th =
    (case cantil_session_recv Sd Th hs max_len th of
       Some (Recv_ok m, hs, th) \<Rightarrow> map_option (\<lambda>(ms, r). (m # ms, r)) (host_recvs Sd Th max_len n hs th)
     | _ \<Rightarrow> None)"

context noise_peers
begin

abbreviation sealed_msg :: "byte list \<Rightarrow> 64 word \<Rightarrow> byte list \<Rightarrow> byte list" where "sealed_msg k n m \<equiv> sealed N k n [] m"

lemma sealed_fits: "length k = 32 \<Longrightarrow> length m \<le> MAX_FRAME_PAYLOAD \<Longrightarrow>
    length (sealed_msg k n m) \<le> MAX_FRAME_PAYLOAD + NOISE_TAG_LEN \<and> NOISE_TAG_LEN \<le> length (sealed_msg k n m)"
  by (simp add: sealed_length NOISE_TAG_LEN_def)

lemma frame_max: "MAX_FRAME_PAYLOAD + NOISE_TAG_LEN < 65536"
  by (simp add: MAX_FRAME_PAYLOAD_def NOISE_TAG_LEN_def)

lemma host_send_seals:
  assumes "host_link Th sent taken reply" and "hs_established hs" and "length (hs_tx_key hs) = 32" and "length m \<le> MAX_FRAME_PAYLOAD"
  shows "\<exists>th'. cantil_session_send Sd Th hs m th = (None, hs\<lparr>hs_tx_nonce := hs_tx_nonce hs + 1\<rparr>, th')
    \<and> sent th' = sent th @ frame (sealed_msg (hs_tx_key hs) (hs_tx_nonce hs) m)"
  using host_link.h_send_frame_sends [OF assms(1), of "sealed_msg (hs_tx_key hs) (hs_tx_nonce hs) m" th] assms(2-4)
  by (auto simp: cantil_session_send_def sealed_by_both(2) [simplified])

lemma device_recv_opens:
  assumes "dev_link T inp outp" and "established ds" and "length (rx_key ds) = 32"
    and "length m \<le> MAX_FRAME_PAYLOAD" and "length m \<le> max_len"
    and "inp t = frame (sealed_msg (rx_key ds) (rx_nonce ds) m) @ rest"
  shows "\<exists>t' more. session_recv N T ds max_len t = Some (Inr m, ds\<lparr>rx_nonce := rx_nonce ds + 1\<rparr>, t') \<and> inp t' = rest @ more"
proof -
  have "dev_receiver T inp outp" using assms(1) by (simp add: dev_link_def)
  note fits = sealed_fits [OF assms(3,4), of "rx_nonce ds"]
  from dev_receiver.recv_frame_delivers [OF \<open>dev_receiver T inp outp\<close> assms(6) conjunct1 [OF fits] frame_max] obtain t' more where
    "recv_frame T (MAX_FRAME_PAYLOAD + NOISE_TAG_LEN) t = Some (Inr (sealed_msg (rx_key ds) (rx_nonce ds) m), t')" "inp t' = rest @ more" by blast
  then show ?thesis using assms(2,5) fits opened_by_both(1) [OF assms(3), of max_len "rx_nonce ds" "[]" m]
    by (auto simp: session_recv_def)
qed

lemma device_send_seals:
  assumes "dev_link T inp outp" and "established ds" and "length (tx_key ds) = 32" and "length m \<le> MAX_FRAME_PAYLOAD"
  shows "\<exists>t'. session_send N T ds m t = (None, ds\<lparr>tx_nonce := tx_nonce ds + 1\<rparr>, t')
    \<and> outp t' = outp t @ frame (sealed_msg (tx_key ds) (tx_nonce ds) m)"
  using dev_link.send_frame_sends [OF assms(1), of "sealed_msg (tx_key ds) (tx_nonce ds) m" t] assms(2-4)
    sealed_by_both(1) [OF assms(3), of "MAX_FRAME_PAYLOAD + NOISE_TAG_LEN" "tx_nonce ds" "[]" m]
  by (auto simp: session_send_def NOISE_TAG_LEN_def)

lemma host_recv_opens:
  assumes "host_link Th sent taken reply" and "hs_established hs" and "length (hs_rx_key hs) = 32"
    and "length m \<le> MAX_FRAME_PAYLOAD" and "NOISE_TAG_LEN \<le> max_len"
    and "pending sent taken reply th = frame (sealed_msg (hs_rx_key hs) (hs_rx_nonce hs) m) @ rest"
  shows "\<exists>th'. cantil_session_recv Sd Th hs max_len th
      = Some (if length m > max_len then (Recv_overflow, hs, th') else (Recv_ok m, hs\<lparr>hs_rx_nonce := hs_rx_nonce hs + 1\<rparr>, th'))
    \<and> pending sent taken reply th' = rest"
proof -
  note fits = sealed_fits [OF assms(3,4), of "hs_rx_nonce hs"]
  have ms: "0 < DEFAULT_TIMEOUT_MS" by (simp add: DEFAULT_TIMEOUT_MS_def)
  from host_link.h_recv_frame_delivers [OF assms(1,6) conjunct1 [OF fits] frame_max ms] obtain th' where
    "h_recv_frame Th (MAX_FRAME_PAYLOAD + NOISE_TAG_LEN) DEFAULT_TIMEOUT_MS th = Some (Inr (sealed_msg (hs_rx_key hs) (hs_rx_nonce hs) m), th')"
    "pending sent taken reply th' = rest" by blast
  then show ?thesis using assms(2,5) fits ms opened_by_both(2) [OF assms(3), of "hs_rx_nonce hs" "[]" m]
    by (auto simp: cantil_session_recv_def cantil_session_recv_to_def)
qed

lemma to_device:
  assumes "host_link Th sent taken reply" and "dev_link T inp outp" and "MAX_FRAME_PAYLOAD \<le> max_len"
  shows "paired hs ds \<Longrightarrow> list_all (\<lambda>m. length m \<le> MAX_FRAME_PAYLOAD) ms \<Longrightarrow>
    \<exists>hs' th' ds' w. host_sends Sd Th ms hs th = Some (hs', th') \<and> sent th' = sent th @ w \<and> paired hs' ds'
      \<and> (\<forall>t rest. inp t = w @ rest \<longrightarrow> (\<exists>t' more. device_recvs N T max_len (length ms) ds t = Some (ms, ds', t') \<and> inp t' = rest @ more))"
proof (induction ms arbitrary: hs ds th)
  case Nil
  then show ?case by (auto intro!: exI [of _ ds] exI [of _ "[]"])
next
  case (Cons m ms)
  then have p: "hs_established hs" "established ds" "length (hs_tx_key hs) = 32" "hs_tx_key hs = rx_key ds" "hs_tx_nonce hs = rx_nonce ds"
    and m: "length m \<le> MAX_FRAME_PAYLOAD" "length m \<le> max_len" using assms(3) by (auto simp: paired_def)
  let ?hs = "hs\<lparr>hs_tx_nonce := hs_tx_nonce hs + 1\<rparr>" and ?ds = "ds\<lparr>rx_nonce := rx_nonce ds + 1\<rparr>"
  let ?c = "sealed_msg (rx_key ds) (rx_nonce ds) m"
  from host_send_seals [OF assms(1) p(1,3) m(1), of th] p obtain th1 where
    s: "cantil_session_send Sd Th hs m th = (None, ?hs, th1)" "sent th1 = sent th @ frame ?c" by auto
  have "paired ?hs ?ds" using Cons.prems(1) by (simp add: paired_def)
  from Cons.IH [OF this, of th1] Cons.prems(2) obtain hs' th' ds' w where
    IH: "host_sends Sd Th ms ?hs th1 = Some (hs', th')" "sent th' = sent th1 @ w" "paired hs' ds'"
      "\<forall>t rest. inp t = w @ rest \<longrightarrow> (\<exists>t' more. device_recvs N T max_len (length ms) ?ds t = Some (ms, ds', t') \<and> inp t' = rest @ more)"
    by auto
  have "\<exists>t' more. device_recvs N T max_len (length (m # ms)) ds t = Some (m # ms, ds', t') \<and> inp t' = rest @ more"
    if i: "inp t = (frame ?c @ w) @ rest" for t rest
  proof -
    have k: "length (rx_key ds) = 32" using p by simp
    from i have "inp t = frame ?c @ (w @ rest)" by simp
    from device_recv_opens [OF assms(2) p(2) k m this] obtain t1 more where
      r: "session_recv N T ds max_len t = Some (Inr m, ?ds, t1)" "inp t1 = w @ (rest @ more)" by auto
    from IH(4) r(2) obtain t2 more2 where "device_recvs N T max_len (length ms) ?ds t1 = Some (ms, ds', t2)" "inp t2 = (rest @ more) @ more2"
      by blast
    with r show ?thesis by simp
  qed
  then show ?case using s IH by (intro exI [of _ hs'] exI [of _ th'] exI [of _ ds'] exI [of _ "frame ?c @ w"]) simp
qed

lemma to_host:
  assumes "host_link Th sent taken reply" and "dev_link T inp outp" and "MAX_FRAME_PAYLOAD \<le> max_len"
  shows "paired hs ds \<Longrightarrow> list_all (\<lambda>m. length m \<le> MAX_FRAME_PAYLOAD) ms \<Longrightarrow>
    \<exists>hs' ds' t' w. device_sends N T ms ds t = Some (ds', t') \<and> outp t' = outp t @ w \<and> paired hs' ds'
      \<and> (\<forall>th rest. pending sent taken reply th = w @ rest \<longrightarrow>
          (\<exists>th'. host_recvs Sd Th max_len (length ms) hs th = Some (ms, hs', th') \<and> pending sent taken reply th' = rest))"
proof (induction ms arbitrary: hs ds t)
  case Nil
  then show ?case by (auto intro!: exI [of _ hs] exI [of _ "[]"])
next
  case (Cons m ms)
  then have p: "hs_established hs" "established ds" "length (tx_key ds) = 32" "hs_rx_key hs = tx_key ds" "hs_rx_nonce hs = tx_nonce ds"
    and m: "length m \<le> MAX_FRAME_PAYLOAD" "\<not> max_len < length m" "NOISE_TAG_LEN \<le> max_len"
    using assms(3) by (auto simp: paired_def NOISE_TAG_LEN_def MAX_FRAME_PAYLOAD_def)
  let ?hs = "hs\<lparr>hs_rx_nonce := hs_rx_nonce hs + 1\<rparr>" and ?ds = "ds\<lparr>tx_nonce := tx_nonce ds + 1\<rparr>"
  let ?c = "sealed_msg (tx_key ds) (tx_nonce ds) m"
  from device_send_seals [OF assms(2) p(2,3) m(1), of t] obtain t1 where
    s: "session_send N T ds m t = (None, ?ds, t1)" "outp t1 = outp t @ frame ?c" by auto
  have "paired ?hs ?ds" using Cons.prems(1) by (simp add: paired_def)
  from Cons.IH [OF this, of t1] Cons.prems(2) obtain hs' ds' t' w where
    IH: "device_sends N T ms ?ds t1 = Some (ds', t')" "outp t' = outp t1 @ w" "paired hs' ds'"
      "\<forall>th rest. pending sent taken reply th = w @ rest \<longrightarrow>
          (\<exists>th'. host_recvs Sd Th max_len (length ms) ?hs th = Some (ms, hs', th') \<and> pending sent taken reply th' = rest)"
    by auto
  have "\<exists>th'. host_recvs Sd Th max_len (length (m # ms)) hs th = Some (m # ms, hs', th') \<and> pending sent taken reply th' = rest"
    if i: "pending sent taken reply th = (frame ?c @ w) @ rest" for th rest
  proof -
    have k: "length (hs_rx_key hs) = 32" using p by simp
    from i have "pending sent taken reply th = frame (sealed_msg (hs_rx_key hs) (hs_rx_nonce hs) m) @ (w @ rest)" using p by simp
    from host_recv_opens [OF assms(1) p(1) k m(1,3) this] m(2) obtain th1 where
      r: "cantil_session_recv Sd Th hs max_len th = Some (Recv_ok m, ?hs, th1)" "pending sent taken reply th1 = w @ rest" by auto
    from IH(4) r(2) obtain th2 where "host_recvs Sd Th max_len (length ms) ?hs th1 = Some (ms, hs', th2)" "pending sent taken reply th2 = rest"
      by blast
    with r show ?thesis by simp
  qed
  then show ?case using s IH by (intro exI [of _ hs'] exI [of _ ds'] exI [of _ t'] exI [of _ "frame ?c @ w"]) simp
qed

end

end
