(* ===== verification/Demo_Peers.thy ===== *)
theory Demo_Peers
  imports Messages Ca_Frame
begin

text \<open>
  A concrete pair of ends for the channel: small stand-ins for the two crypto libraries that
  satisfy \<open>noise_peers\<close>, a serial cable behind the host's system calls, and a device without a
  verified volume, which uses an identity in RAM.
\<close>

subsection \<open>Crypto\<close>

definition demo_hmac :: "byte list \<Rightarrow> byte list \<Rightarrow> byte list" where
  "demo_hmac k d = be_bytes 32 (be_nat (k @ d))"

definition demo_base :: "byte list \<Rightarrow> byte list" where
  "demo_base a = (if length a = 32 then x25519_clamp a else replicate 32 0)"

definition demo_tag :: "byte list" where "demo_tag = replicate 16 0"

definition demo_sodium :: "nat sodium" where
  "demo_sodium = \<lparr>randombytes_buf = \<lambda>n r. (replicate n (word_of_nat r), r + 1), crypto_scalarmult_base = demo_base,
     crypto_scalarmult = \<lambda>b p. Some (map2 (XOR) (x25519_clamp b) p), crypto_hash_sha256 = \<lambda>d. be_bytes 32 (be_nat d),
     crypto_auth_hmacsha256 = demo_hmac, crypto_aead_encrypt = \<lambda>k n ad pt. Some (pt @ demo_tag),
     crypto_aead_decrypt = \<lambda>k n ad ct. if length ct < 16 then None else Some (take (length ct - 16) ct)\<rparr>"

definition demo_wc :: "nat wolfcrypt" where
  "demo_wc = toy_wc\<lparr>wc_HKDF := \<lambda>ikm salt info n.
     Some (take n (let prk = demo_hmac salt ikm; t1 = demo_hmac prk [1] in t1 @ demo_hmac prk (t1 @ [2])))\<rparr>"

definition demo_noise :: wolfnoise where
  "demo_noise = \<lparr>wc_curve25519_make_pub = Some, wc_curve25519_generic = \<lambda>k p. Some (map2 (XOR) k p),
     wc_ChaCha20Poly1305_Encrypt = \<lambda>k n ad pt. Some (pt, demo_tag),
     wc_ChaCha20Poly1305_Decrypt = \<lambda>k n ad ct tag. GcmOk ct\<rparr>"

lemma map2_xor_commute: "map2 (XOR) xs ys = map2 (XOR) ys (xs :: byte list)"
  by (induction xs ys rule: list_induct2') (simp_all add: xor.commute)

interpretation demo: noise_peers demo_wc demo_noise demo_sodium
proof unfold_locales
  fix a b :: "byte list"
  assume "length a = 32" and "length b = 32"
  then show "wc_curve25519_generic demo_noise (x25519_clamp a) (crypto_scalarmult_base demo_sodium b)
      = crypto_scalarmult demo_sodium b (crypto_scalarmult_base demo_sodium a)"
    by (simp add: demo_noise_def demo_sodium_def demo_base_def map2_xor_commute)
qed (simp_all add: demo_noise_def demo_sodium_def demo_wc_def toy_wc_def demo_base_def demo_tag_def demo_hmac_def h_hkdf2_def Let_def x25519_clamp_def)

subsection \<open>A cable\<close>

record cable_state =
  cab_sent :: "byte list"
  cab_taken :: nat
  cab_ms :: int

text \<open>System calls on a cable whose far end answers as \<open>reply\<close> says; a write takes at most 64 bytes.\<close>

definition cable :: "(byte list \<Rightarrow> byte list) \<Rightarrow> cable_state serial_os" where
  "cable reply = \<lparr>os_write = \<lambda>bs c. (Inr (min 64 (length bs)), c\<lparr>cab_sent := cab_sent c @ take 64 bs\<rparr>),
     os_select = \<lambda>ms c. if pending cab_sent cab_taken reply c = [] then (Inr False, c\<lparr>cab_ms := cab_ms c + 1\<rparr>) else (Inr True, c),
     os_read = \<lambda>n c. let bs = take n (pending cab_sent cab_taken reply c) in (Inr bs, c\<lparr>cab_taken := cab_taken c + length bs\<rparr>),
     os_clock = \<lambda>c. (cab_ms c, 0)\<rparr>"

interpretation cable: serial_port "cable reply" cab_sent cab_taken reply
proof unfold_locales
  fix n :: nat and t :: cable_state
  assume n: "0 < n" and p: "pending cab_sent cab_taken reply t \<noteq> []"
  let ?bs = "take n (pending cab_sent cab_taken reply t)"
  have "os_read (cable reply) n t = (Inr ?bs, t\<lparr>cab_taken := cab_taken t + length ?bs\<rparr>)" by (simp add: cable_def Let_def)
  then show "\<exists>bs rest t'. os_read (cable reply) n t = (Inr bs, t') \<and> pending cab_sent cab_taken reply t = bs @ rest \<and> bs \<noteq> []
      \<and> length bs \<le> n \<and> cab_sent t' = cab_sent t \<and> cab_taken t' = cab_taken t + length bs
      \<and> os_clock (cable reply) t' = os_clock (cable reply) t"
    using n p by (intro exI [of _ ?bs] exI [of _ "drop n (pending cab_sent cab_taken reply t)"]) (auto simp: cable_def)
qed (auto simp: cable_def elapsed_ms_def pending_def min_def)

subsection \<open>A device\<close>

text \<open>An X.509 reader that reads nothing: the policies of the examples do not need it.\<close>

definition demo_x509 :: host_x509 where
  "demo_x509 = \<lparr>x509_subject_der = \<lambda>_ _. Inl X509_ERR_PARSE, x509_subject_cn = \<lambda>_ _. Inl X509_ERR_PARSE,
     x509_verify_chain = \<lambda>_ _ _. Some X509_ERR_PARSE\<rparr>"

definition demo_dev :: "(memfs, unit, nat) dev_env" where
  "demo_dev = \<lparr>dv_ca = demo_env\<lparr>env_wc := demo_wc\<rparr>, dv_noise = demo_noise, hwinfo = [], session_x509_constant = [],
     session_x509_strict = False\<rparr>"

definition demo_identity :: eph_identity where
  "demo_identity = \<lparr>eph_x_priv = replicate 32 9, eph_x_pub = demo_base (replicate 32 9), eph_cert = [48, 1, 7]\<rparr>"

definition demo_dev_state :: "(memfs, nat) dev_state" where
  "demo_dev_state = \<lparr>ds_ca = \<lparr>ca_vol = \<lparr>vfs = [(''/lfs'', Dir)], volume_state = VOLUME_VALID\<rparr>, provisioned = False, ca_rng = 3\<rparr>,
     s_in_recovery = False, s_eph = Some demo_identity\<rparr>"

lemma demo_static: "load_static_keypair demo_dev demo_dev_state = Inr (replicate 32 9, crypto_scalarmult_base demo_sodium (replicate 32 9))"
  by (simp add: load_static_keypair_def session_slot_is_ephemeral_def session_slot_get_ephemeral_static_def demo_dev_state_def
      demo_identity_def demo_sodium_def)

lemma demo_fresh: "entropy_get (dv_wc demo_dev) 32 (ca_rng (ds_ca demo_dev_state)) = (Inr (replicate 32 3), 4)"
  by (simp add: demo_dev_def demo_env_def demo_wc_def toy_wc_def demo_dev_state_def)

lemma demo_certs: "collect_local_certs demo_dev demo_dev_state = Inr [[48, 1, 7]]"
  by (simp add: collect_local_certs_def session_slot_get_cert_def demo_dev_state_def demo_identity_def SESSION_LEAF_DER_MAX_def
      storage_session_chain_read_def read_file_def demo_dev_def demo_env_def mem_api_def mem_open_r_def child_def session_dir_def)

lemma demo_peers: "noise_peers (dv_wc demo_dev) (dv_noise demo_dev) demo_sodium"
  using demo.noise_peers_axioms by (simp add: demo_dev_def)

definition usb_boot :: "byte list \<Rightarrow> usb_state" where
  "usb_boot w = \<lparr>usb_rx_ring = w, u_connected = True, u_fifo = [], u_sent = [], u_now = 0\<rparr>"

definition demo_reply :: "byte list \<Rightarrow> byte list" where
  "demo_reply w = (if w = [] then [] else
     case session_open demo_dev usb_transport None False demo_dev_state (usb_boot w) of Some (_, _, t) \<Rightarrow> u_sent t | None \<Rightarrow> [])"

lemma demo_chain_fits: "length (chain_bytes [[48, 1, 7]]) \<le> SESSION_CHAIN_PT_MAX"
  by (simp add: chain_bytes_def SESSION_CBOR_KEY_CHAIN_def SESSION_CHAIN_PT_MAX_def head_need_def)

lemma demo_chain:
  "local_chain demo_dev demo_dev_state = Inr (chain_pt_of demo_dev demo_dev_state)"
  "length (chain_pt_of demo_dev demo_dev_state) \<le> SESSION_CHAIN_PT_MAX"
proof -
  obtain pt where "local_chain demo_dev demo_dev_state = Inr pt" "length pt \<le> SESSION_CHAIN_PT_MAX"
    by (rule local_chain_parsed [OF demo_certs demo_chain_fits])
  then show "local_chain demo_dev demo_dev_state = Inr (chain_pt_of demo_dev demo_dev_state)"
    "length (chain_pt_of demo_dev demo_dev_state) \<le> SESSION_CHAIN_PT_MAX" by (simp_all add: chain_pt_of_def)
qed

interpretation demo_channel: channel demo_dev demo_sodium usb_transport usb_rx_ring u_sent demo_dev_state "replicate 32 9"
    "replicate 32 3" 4 "chain_pt_of demo_dev demo_dev_state"
  by (intro channel.intro channel_axioms.intro demo_peers usb.dev_link_axioms demo_static demo_fresh demo_chain length_replicate)

end
