(* ===== verification/Channel_Correct.thy ===== *)
theory Channel_Correct
  imports Demo_Peers
begin

text \<open>
  The channel as a whole: agreement of the two ends, delivery of the messages, and three
  things that the code does not prevent.
\<close>

text \<open>
  C4: A host that opens a session with a device over a line on which stale bytes of an earlier
  session may still wait ends up with that device: both ends hold the same two keys, each
  knows the other's static key, the host has the complete certificate chain of the device,
  and the device the first four certificates the client offered.  The device is the peer of
  the host: what it writes when it has read \<open>w\<close> is what the host reads.
\<close>

theorem channel_established:
  fixes D :: "('fs, 'k, 'r) dev_env" and Sd :: "'h sodium" and T :: "'t transport" and Th :: "'u htransport"
  assumes "noise_peers (dv_wc D) (dv_noise D) Sd" and "dev_link T inp outp" and "host_link Th sent taken reply"
    and "load_static_keypair D S = Inr (sR, crypto_scalarmult_base Sd sR)" and "length sR = 32"
    and "entropy_get (dv_wc D) 32 (ca_rng (ds_ca S)) = (Inr bs, r')" and "length bs = 32"
    and "collect_local_certs D S = Inr certs" and "length (chain_bytes certs) \<le> SESSION_CHAIN_PT_MAX"
    and "randombytes_buf Sd 32 rh = (eI, rh')" and "length eI = 32" and "length sI = 32"
    and "client_payload cc = Inr client_pt" and "length client_pt \<le> SESSION_CHAIN_PT_MAX"
    and "expected = None \<or> expected = Some (crypto_scalarmult_base Sd sI)"
    and "cantil_trust_check_policy X (crypto_hash_sha256 Sd) policy certs = CANTIL_OK"
    and "timeout_ms = 0 \<or> 0 < sint timeout_ms"
    and "sent th = []" and "taken th = 0"
    and boot: "\<And>w. inp (boot w) = w \<and> outp (boot w) = reply []"
    and peer: "\<And>w res S' t'. w \<noteq> [] \<Longrightarrow> session_open D T expected False S (boot w) = Some (res, S', t') \<Longrightarrow> reply w = outp t'"
  shows "\<exists>hs th' ds S' t'. cantil_session_open Sd X Th sI policy cc timeout_ms rh th = Some (H_session hs, rh', th')
    \<and> session_open D T expected False S (boot (sent th')) = Some (Open_ok ds, S', t')
    \<and> paired hs ds \<and> device_s_pub hs = crypto_scalarmult_base Sd sR \<and> remote_s_pub ds = crypto_scalarmult_base Sd sI
    \<and> device_certs hs = certs \<and> client_certs ds = take SESSION_CHAIN_MAX_CERTS (offered_certs cc)"
proof -
  let ?base = "crypto_scalarmult_base Sd" and ?S = "S\<lparr>ds_ca := (ds_ca S)\<lparr>ca_rng := r'\<rparr>\<rparr>"
  from local_chain_parsed [OF assms(8,9)] obtain chain_pt where
    chain: "local_chain D S = Inr chain_pt" "length chain_pt \<le> SESSION_CHAIN_PT_MAX" "parse_device_chain chain_pt = Copied certs" .
  have ch: "channel D Sd T inp outp S sR bs r' chain_pt"
    using assms(1,2,4-7) chain(1,2) by (simp add: channel_def channel_axioms_def)
  note parsed = client_payload_parsed [OF assms(13,14)]
  from channel.device_side [OF ch assms(12,11,14,15)] obtain msg2 sy2 msg3 sy3 where
    len: "96 \<le> length msg2" "length msg2 \<le> SESSION_HS_MSG_MAX"
    and r2: "hh_read_msg2 Sd eI msg2 (hh_start Sd (?base eI)) = Inr (?base (x25519_clamp bs), ?base sR, chain_pt, sy2)"
    and m3: "hh_write_msg3 Sd sI (?base sI) (?base (x25519_clamp bs)) client_pt sy2 = Inr (msg3, sy3)"
    and ans: "\<forall>t rest. inp t = frame (?base eI) @ rest \<longrightarrow>
        (\<exists>res t'. session_open D T expected False S t = Some (res, ?S, t') \<and> outp t' = outp t @ frame msg2)"
    and acc: "\<forall>t rest. inp t = frame (?base eI) @ frame msg3 @ rest \<longrightarrow>
        (\<exists>t'. session_open D T expected False S t = Some (case parse_client_chain client_pt of Wild_copy \<Rightarrow> Open_fault
          | Copied certs \<Rightarrow> Open_ok (new_session (h_sym_split Sd sy3) (?base sI) (?base sR) certs), ?S, t'))"
    by (elim exE conjE)
  have "reply (frame (?base eI)) = reply [] @ frame msg2"
  proof -
    obtain res t' where "session_open D T expected False S (boot (frame (?base eI))) = Some (res, ?S, t')"
      "outp t' = outp (boot (frame (?base eI))) @ frame msg2"
      using ans [rule_format, of "boot (frame (?base eI))" "[]"] boot by auto
    then show ?thesis using peer [of "frame (?base eI)"] boot by (simp add: frame_def frame_header_def)
  qed
  from host_side [OF assms(3,18,19) refl this assms(10) len r2 m3 chain(3) assms(13,16,17)] obtain th' where
    h: "cantil_session_open Sd X Th sI policy cc timeout_ms rh th
      = Some (H_session (new_host_session (h_sym_split Sd sy3) (?base sR) (?base sI) certs), rh', th')"
      "sent th' = frame (?base eI) @ frame msg3" by blast
  have "inp (boot (sent th')) = frame (?base eI) @ frame msg3 @ []" using boot h(2) by simp
  from acc [rule_format, OF this] obtain t' where d: "session_open D T expected False S (boot (sent th'))
      = Some (Open_ok (new_session (h_sym_split Sd sy3) (?base sI) (?base sR) (take SESSION_CHAIN_MAX_CERTS (offered_certs cc))), ?S, t')"
    using parsed by auto
  have "paired (new_host_session (h_sym_split Sd sy3) (?base sR) (?base sI) certs)
      (new_session (h_sym_split Sd sy3) (?base sI) (?base sR) (take SESSION_CHAIN_MAX_CERTS (offered_certs cc)))"
    using noise_peers.hkdf2_lengths [OF assms(1), of "ss_ck sy3" "[]"]
    by (auto simp: paired_def new_host_session_def new_session_def h_sym_split_def split: prod.split)
  with h(1) d show ?thesis by (auto simp: new_host_session_def new_session_def split: prod.splits)
qed

lemma cable_link: "host_link (h_usb_transport (cable reply)) cab_sent cab_taken reply"
  by (rule cable.host_link_axioms)

definition demo_cable :: cable_state where "demo_cable = \<lparr>cab_sent = [], cab_taken = 0, cab_ms = 0\<rparr>"

theorem channel_established_witness:
  "\<exists>hs th' ds S' t'. cantil_session_open demo_sodium demo_x509 (h_usb_transport (cable demo_reply)) (replicate 32 5) None None 0 6 demo_cable
      = Some (H_session hs, 7, th')
    \<and> session_open demo_dev usb_transport None False demo_dev_state (usb_boot (cab_sent th')) = Some (Open_ok ds, S', t')
    \<and> paired hs ds \<and> device_s_pub hs = crypto_scalarmult_base demo_sodium (replicate 32 9)
    \<and> remote_s_pub ds = crypto_scalarmult_base demo_sodium (replicate 32 5)
    \<and> device_certs hs = [[48, 1, 7]] \<and> client_certs ds = take SESSION_CHAIN_MAX_CERTS (offered_certs None)"
proof (rule channel_established [OF demo_peers usb.dev_link_axioms cable_link demo_static _ demo_fresh _ demo_certs demo_chain_fits])
  show "randombytes_buf demo_sodium 32 6 = (replicate 32 6, 7)" by (simp add: demo_sodium_def)
  show "client_payload None = Inr [0xA0]" by (simp add: client_payload_def)
  show "usb_rx_ring (usb_boot w) = w \<and> u_sent (usb_boot w) = demo_reply []" for w by (simp add: usb_boot_def demo_reply_def)
  show "demo_reply w = u_sent t'" if "w \<noteq> []" "session_open demo_dev usb_transport None False demo_dev_state (usb_boot w) = Some (res, S', t')"
    for w res S' t' using that by (simp add: demo_reply_def)
qed (simp_all add: SESSION_CHAIN_PT_MAX_def cantil_trust_check_policy_def demo_cable_def)

text \<open>
  C38: A client needs no bond and no certificate to make the device copy four gigabytes: with a
  payload whose second certificate has a length that wraps, the handshake of the device ends
  in a copy past its buffers, before anything looks at who the client is.
\<close>

theorem hostile_client_faults:
  fixes D :: "('fs, 'k, 'r) dev_env" and Sd :: "'h sodium" and T :: "'t transport"
  assumes "noise_peers (dv_wc D) (dv_noise D) Sd" and "dev_link T inp outp"
    and "load_static_keypair D S = Inr (sR, crypto_scalarmult_base Sd sR)" and "length sR = 32"
    and "entropy_get (dv_wc D) 32 (ca_rng (ds_ca S)) = (Inr bs, r')" and "length bs = 32"
    and "collect_local_certs D S = Inr certs" and "length (chain_bytes certs) \<le> SESSION_CHAIN_PT_MAX"
    and "length sI = 32" and "length eI = 32" and "8 \<le> length c" and "length c \<le> 2000"
  shows "\<exists>msg2 sy2 msg3 sy3. hh_read_msg2 Sd eI msg2 (hh_start Sd (crypto_scalarmult_base Sd eI))
      = Inr (crypto_scalarmult_base Sd (x25519_clamp bs), crypto_scalarmult_base Sd sR, chain_pt_of D S, sy2)
    \<and> hh_write_msg3 Sd sI (crypto_scalarmult_base Sd sI) (crypto_scalarmult_base Sd (x25519_clamp bs)) (hostile_chain c) sy2 = Inr (msg3, sy3)
    \<and> (\<forall>t rest. inp t = frame (crypto_scalarmult_base Sd eI) @ rest \<longrightarrow>
        (\<exists>res S' t'. session_open D T None False S t = Some (res, S', t') \<and> outp t' = outp t @ frame msg2))
    \<and> (\<forall>t rest. inp t = frame (crypto_scalarmult_base Sd eI) @ frame msg3 @ rest \<longrightarrow>
        (\<exists>S' t'. session_open D T None False S t = Some (Open_fault, S', t')))"
proof -
  let ?base = "crypto_scalarmult_base Sd" and ?S = "S\<lparr>ds_ca := (ds_ca S)\<lparr>ca_rng := r'\<rparr>\<rparr>"
  from local_chain_parsed [OF assms(7,8)] obtain chain_pt where
    chain: "local_chain D S = Inr chain_pt" "length chain_pt \<le> SESSION_CHAIN_PT_MAX" "parse_device_chain chain_pt = Copied certs" .
  have ch: "channel D Sd T inp outp S sR bs r' chain_pt"
    using assms(1-6) chain(1,2) by (simp add: channel_def channel_axioms_def)
  have wild: "parse_client_chain (hostile_chain c) = Wild_copy"
    unfolding parse_client_chain_def
    by (rule hostile_chain_wild) (use assms(11,12) in \<open>simp_all add: SESSION_CLIENT_CHAIN_MAX_def SESSION_CHAIN_MAX_CERTS_def size_bits_def\<close>)
  have "length (hostile_chain c) \<le> SESSION_CHAIN_PT_MAX"
    using assms(12) head_need_pos(2) [of "length c"] head_need_pos(2) [of "2 ^ 64 - 8"]
    by (simp add: hostile_chain_def SESSION_CHAIN_PT_MAX_def del: head_need_pos)
  from channel.device_side [OF ch assms(9,10) this disjI1 [OF refl]] obtain msg2 sy2 msg3 sy3 where
    r2: "hh_read_msg2 Sd eI msg2 (hh_start Sd (?base eI)) = Inr (?base (x25519_clamp bs), ?base sR, chain_pt, sy2)"
    and m3: "hh_write_msg3 Sd sI (?base sI) (?base (x25519_clamp bs)) (hostile_chain c) sy2 = Inr (msg3, sy3)"
    and ans: "\<forall>t rest. inp t = frame (?base eI) @ rest \<longrightarrow>
        (\<exists>res t'. session_open D T None False S t = Some (res, ?S, t') \<and> outp t' = outp t @ frame msg2)"
    and acc: "\<forall>t rest. inp t = frame (?base eI) @ frame msg3 @ rest \<longrightarrow>
        (\<exists>t'. session_open D T None False S t = Some (case parse_client_chain (hostile_chain c) of Wild_copy \<Rightarrow> Open_fault
          | Copied certs \<Rightarrow> Open_ok (new_session (h_sym_split Sd sy3) (?base sI) (?base sR) certs), ?S, t'))"
    by (elim exE conjE)
  have "\<forall>t rest. inp t = frame (?base eI) @ rest \<longrightarrow>
        (\<exists>res S' t'. session_open D T None False S t = Some (res, S', t') \<and> outp t' = outp t @ frame msg2)" using ans by blast
  moreover have "\<forall>t rest. inp t = frame (?base eI) @ frame msg3 @ rest \<longrightarrow>
        (\<exists>S' t'. session_open D T None False S t = Some (Open_fault, S', t'))" using acc wild by simp blast
  moreover have "chain_pt_of D S = chain_pt" by (simp add: chain_pt_of_def chain(1))
  ultimately show ?thesis using r2 m3 by (intro exI [of _ msg2] exI [of _ sy2] exI [of _ msg3] exI [of _ sy3] conjI) simp_all
qed


theorem hostile_client_faults_witness:
  "\<exists>msg2 sy2 msg3 sy3. hh_write_msg3 demo_sodium (replicate 32 5) (crypto_scalarmult_base demo_sodium (replicate 32 5))
      (crypto_scalarmult_base demo_sodium (x25519_clamp (replicate 32 3))) (hostile_chain (replicate 8 0)) sy2 = Inr (msg3, sy3)
    \<and> hh_read_msg2 demo_sodium (replicate 32 6) msg2 (hh_start demo_sodium (crypto_scalarmult_base demo_sodium (replicate 32 6)))
      = Inr (crypto_scalarmult_base demo_sodium (x25519_clamp (replicate 32 3)), crypto_scalarmult_base demo_sodium (replicate 32 9),
          chain_pt_of demo_dev demo_dev_state, sy2)
    \<and> (\<exists>S' t'. session_open demo_dev usb_transport None False demo_dev_state
      (usb_boot (frame (crypto_scalarmult_base demo_sodium (replicate 32 6)) @ frame msg3)) = Some (Open_fault, S', t'))"
proof -
  let ?base = "crypto_scalarmult_base demo_sodium"
  have "\<exists>msg2 sy2 msg3 sy3. hh_read_msg2 demo_sodium (replicate 32 6) msg2 (hh_start demo_sodium (?base (replicate 32 6)))
      = Inr (?base (x25519_clamp (replicate 32 3)), ?base (replicate 32 9), chain_pt_of demo_dev demo_dev_state, sy2)
    \<and> hh_write_msg3 demo_sodium (replicate 32 5) (?base (replicate 32 5)) (?base (x25519_clamp (replicate 32 3))) (hostile_chain (replicate 8 0)) sy2
      = Inr (msg3, sy3)
    \<and> (\<forall>t rest. usb_rx_ring t = frame (?base (replicate 32 6)) @ rest \<longrightarrow>
        (\<exists>res S' t'. session_open demo_dev usb_transport None False demo_dev_state t = Some (res, S', t') \<and> u_sent t' = u_sent t @ frame msg2))
    \<and> (\<forall>t rest. usb_rx_ring t = frame (?base (replicate 32 6)) @ frame msg3 @ rest \<longrightarrow>
        (\<exists>S' t'. session_open demo_dev usb_transport None False demo_dev_state t = Some (Open_fault, S', t')))"
    by (rule hostile_client_faults [OF demo_peers usb.dev_link_axioms demo_static _ demo_fresh _ demo_certs demo_chain_fits]) simp_all
  then obtain msg2 sy2 msg3 sy3 where m: "hh_read_msg2 demo_sodium (replicate 32 6) msg2 (hh_start demo_sodium (?base (replicate 32 6)))
      = Inr (?base (x25519_clamp (replicate 32 3)), ?base (replicate 32 9), chain_pt_of demo_dev demo_dev_state, sy2)"
    "hh_write_msg3 demo_sodium (replicate 32 5) (?base (replicate 32 5)) (?base (x25519_clamp (replicate 32 3))) (hostile_chain (replicate 8 0)) sy2
      = Inr (msg3, sy3)"
    and f: "\<forall>t rest. usb_rx_ring t = frame (?base (replicate 32 6)) @ frame msg3 @ rest \<longrightarrow>
        (\<exists>S' t'. session_open demo_dev usb_transport None False demo_dev_state t = Some (Open_fault, S', t'))"
    by (elim exE conjE)
  have "usb_rx_ring (usb_boot (frame (?base (replicate 32 6)) @ frame msg3)) = frame (?base (replicate 32 6)) @ frame msg3 @ []"
    by (simp add: usb_boot_def)
  from f [rule_format, OF this] m show ?thesis by blast
qed


definition demo_hs :: host_session where
  "demo_hs = new_host_session (replicate 32 1, replicate 32 2) (replicate 32 3) (replicate 32 4) []"

definition demo_ds :: cantil_session where
  "demo_ds = new_session (replicate 32 1, replicate 32 2) (replicate 32 4) (replicate 32 3) []"

lemma demo_paired: "paired demo_hs demo_ds"
  by (simp add: paired_def demo_hs_def demo_ds_def new_host_session_def new_session_def)

definition demo_msgs :: "byte list list" where "demo_msgs = [[1, 2], [], [3]]"


text \<open>
  C39: The host library decrypts into the caller's buffer without looking at its size: when the
  device sends a message longer than the buffer, the plaintext is written past its end.
\<close>

theorem host_recv_overflow:
  assumes "noise_peers K N Sd" and "host_link Th sent taken reply" and "dev_link T inp outp" and "paired hs ds"
    and "length m \<le> MAX_FRAME_PAYLOAD" and "NOISE_TAG_LEN \<le> max_len" and "max_len < length m"
  shows "\<exists>ds' t'. session_send N T ds m t = (None, ds', t') \<and> outp t' = outp t @ frame (sealed N (tx_key ds) (tx_nonce ds) [] m)
    \<and> (\<forall>th. pending sent taken reply th = frame (sealed N (tx_key ds) (tx_nonce ds) [] m) \<longrightarrow> (\<exists>th'. cantil_session_recv Sd Th hs max_len th = Some (Recv_overflow, hs, th')))"
proof -
  have p: "hs_established hs" "established ds" "length (tx_key ds) = 32" "hs_rx_key hs = tx_key ds" "hs_rx_nonce hs = tx_nonce ds"
    using assms(4) by (auto simp: paired_def)
  let ?w = "frame (sealed N (tx_key ds) (tx_nonce ds) [] m)"
  obtain t' where s: "session_send N T ds m t = (None, ds\<lparr>tx_nonce := tx_nonce ds + 1\<rparr>, t')" "outp t' = outp t @ ?w"
    using noise_peers.device_send_seals [OF assms(1,3) p(2,3) assms(5), of t] by blast
  have "\<exists>th'. cantil_session_recv Sd Th hs max_len th = Some (Recv_overflow, hs, th')" if i: "pending sent taken reply th = ?w" for th
  proof -
    have k: "length (hs_rx_key hs) = 32" using p by simp
    have "pending sent taken reply th = frame (sealed N (hs_rx_key hs) (hs_rx_nonce hs) [] m) @ []" using i p by simp
    from noise_peers.host_recv_opens [OF assms(1,2) p(1) k assms(5,6) this] assms(7) show ?thesis by auto
  qed
  with s show ?thesis by (intro exI [of _ "ds\<lparr>tx_nonce := tx_nonce ds + 1\<rparr>"] exI [of _ t']) simp
qed

theorem host_recv_overflow_witness:
  "\<exists>w th'. snd (snd (session_send demo_noise usb_transport demo_ds (replicate 40 7) (usb_boot []))) = (usb_boot [])\<lparr>u_sent := w\<rparr>
    \<and> cantil_session_recv demo_sodium (h_usb_transport (cable (\<lambda>_. w))) demo_hs 32 demo_cable = Some (Recv_overflow, demo_hs, th')"
proof -
  let ?w = "frame (sealed demo_noise (tx_key demo_ds) (tx_nonce demo_ds) [] (replicate 40 7))"
  have s: "snd (snd (session_send demo_noise usb_transport demo_ds (replicate 40 7) (usb_boot []))) = (usb_boot [])\<lparr>u_sent := ?w\<rparr>"
    by (simp add: session_send_def demo_ds_def new_session_def noise_crypto_encrypt_def demo_noise_def sealed_def send_frame_def
        usb_transport_def usb_send_def usb_boot_def frame_def MAX_FRAME_PAYLOAD_def NOISE_TAG_LEN_def demo_tag_def)
  have "\<exists>ds' t'. session_send demo_noise usb_transport demo_ds (replicate 40 7) (usb_boot []) = (None, ds', t')
    \<and> u_sent t' = u_sent (usb_boot []) @ ?w
    \<and> (\<forall>th. pending cab_sent cab_taken (\<lambda>_. ?w) th = ?w \<longrightarrow>
      (\<exists>th'. cantil_session_recv demo_sodium (h_usb_transport (cable (\<lambda>_. ?w))) demo_hs 32 th = Some (Recv_overflow, demo_hs, th')))"
    by (rule host_recv_overflow [OF demo.noise_peers_axioms cable.host_link_axioms usb.dev_link_axioms demo_paired])
      (simp_all add: MAX_FRAME_PAYLOAD_def NOISE_TAG_LEN_def)
  then have "\<exists>th'. cantil_session_recv demo_sodium (h_usb_transport (cable (\<lambda>_. ?w))) demo_hs 32 demo_cable = Some (Recv_overflow, demo_hs, th')"
    by (auto simp: pending_def demo_cable_def)
  with s show ?thesis by blast
qed

text \<open>
  C37: No trust policy ties the certificates to the key of the session: whoever answers with a
  static key of his own and the certificates of a genuine device, which that device sends to
  every client, passes every policy that accepts the device, and the host opens the session
  with the impostor's key.
\<close>

theorem impostor_accepted:
  fixes K :: "'r wolfcrypt" and Sd :: "'h sodium" and Th :: "'u htransport"
  assumes "noise_peers K N Sd" and "host_link Th sent taken reply"
    and "length sA = 32" and "length eA = 32" and "length sI = 32" and "length eI = 32"
    and "length certs \<le> CANTIL_DEVICE_CHAIN_CERTS" and "length (chain_bytes certs) \<le> SESSION_CHAIN_PT_MAX"
    and "cantil_trust_check_policy X (crypto_hash_sha256 Sd) policy certs = CANTIL_OK"
    and "randombytes_buf Sd 32 rh = (eI, rh')" and "client_payload cc = Inr client_pt" and "length client_pt \<le> SESSION_CHAIN_PT_MAX"
    and "timeout_ms = 0 \<or> 0 < sint timeout_ms" and "sent th = []" and "taken th = 0" and "reply [] = []"
    and answers: "\<And>sy1 msg2 sy2. hs_write_msg2 K N (sA, crypto_scalarmult_base Sd sA) (eA, crypto_scalarmult_base Sd eA)
        (crypto_scalarmult_base Sd eI) (chain_bytes certs) sy1 = Inr (msg2, sy2) \<Longrightarrow>
      ok_then (sym_mix_hash K [] sym_init) (hs_read_msg1 K (crypto_scalarmult_base Sd eI)) = Inr sy1 \<Longrightarrow>
      reply (frame (crypto_scalarmult_base Sd eI)) = frame msg2"
  shows "\<exists>hs th'. cantil_session_open Sd X Th sI policy cc timeout_ms rh th = Some (H_session hs, rh', th')
    \<and> device_s_pub hs = crypto_scalarmult_base Sd sA \<and> device_certs hs = certs"
proof -
  let ?base = "crypto_scalarmult_base Sd"
  obtain sy1 msg2 sy2 msg3 sy3 where
    m1: "ok_then (sym_mix_hash K [] sym_init) (hs_read_msg1 K (?base eI)) = Inr sy1"
    and m2: "hs_write_msg2 K N (sA, ?base sA) (eA, ?base eA) (?base eI) (chain_bytes certs) sy1 = Inr (msg2, sy2)"
    and l2: "length msg2 = 96 + length (chain_bytes certs)"
    and r2: "hh_read_msg2 Sd eI msg2 (hh_start Sd (?base eI)) = Inr (?base eA, ?base sA, chain_bytes certs, sy2)"
    and m3: "hh_write_msg3 Sd sI (?base sI) (?base eA) client_pt sy2 = Inr (msg3, sy3)"
    using noise_peers.handshake_messages [OF assms(1,3-6,8,12), of None] by blast
  have rep: "reply (frame (?base eI)) = [] @ frame msg2" using answers [OF m2 m1] by simp
  have len: "96 \<le> length msg2" "length msg2 \<le> SESSION_HS_MSG_MAX"
    using l2 assms(8) by (simp_all add: SESSION_HS_MSG_MAX_def SESSION_CHAIN_PT_MAX_def NOISE_TAG_LEN_def)
  have "parse_device_chain (chain_bytes certs) = Copied (kept_certs CANTIL_DEVICE_CHAIN_CERTS CANTIL_DEVICE_CHAIN_MAX [] certs)"
    unfolding parse_device_chain_def by (rule parse_chain_encoded) (use assms(8) in \<open>simp_all add: SESSION_CHAIN_PT_MAX_def\<close>)
  also have "kept_certs CANTIL_DEVICE_CHAIN_CERTS CANTIL_DEVICE_CHAIN_MAX [] certs = certs"
    using assms(7,8) length_chain_bytes(2) [of certs]
    by (subst kept_certs_take) (simp_all add: CANTIL_DEVICE_CHAIN_MAX_def SESSION_CHAIN_PT_MAX_def)
  finally have parsed: "parse_device_chain (chain_bytes certs) = Copied certs" .
  from host_side [OF assms(2,14,15,16) rep assms(10) len r2 m3 parsed assms(11,9,13)] show ?thesis
    by (auto simp: new_host_session_def split: prod.splits)
qed

definition impostor_reply :: "byte list \<Rightarrow> byte list" where
  "impostor_reply w = (if w = [] then [] else
     let base = crypto_scalarmult_base demo_sodium; eI = base (replicate 32 6) in
     case ok_then (ok_then (sym_mix_hash demo_wc [] sym_init) (hs_read_msg1 demo_wc eI))
       (hs_write_msg2 demo_wc demo_noise (replicate 32 8, base (replicate 32 8)) (replicate 32 4, base (replicate 32 4)) eI
         (chain_bytes [[48, 1, 7]])) of
       Inr (msg2, _) \<Rightarrow> frame msg2 | Inl _ \<Rightarrow> [])"

definition pinned_policy :: trust_policy where
  "pinned_policy = \<lparr>tp_mode = CANTIL_TRUST_PINNED_SELF_SIGNED, expected_fingerprint = Some (be_bytes 32 (be_nat [48, 1, 7])),
     expected_subject_der = None, tp_store = None, expected_cn = None\<rparr>"

theorem impostor_accepted_witness:
  "\<exists>hs th'. cantil_session_open demo_sodium demo_x509 (h_usb_transport (cable impostor_reply)) (replicate 32 5) (Some pinned_policy) None 0 6 demo_cable
      = Some (H_session hs, 7, th')
    \<and> device_s_pub hs = crypto_scalarmult_base demo_sodium (replicate 32 8) \<and> device_certs hs = [[48, 1, 7]]"
proof (rule impostor_accepted [OF demo.noise_peers_axioms cable_link, where sA = "replicate 32 8" and eA = "replicate 32 4"])
  show "randombytes_buf demo_sodium 32 6 = (replicate 32 6, 7)" by (simp add: demo_sodium_def)
  show "client_payload None = Inr [0xA0]" by (simp add: client_payload_def)
  show "length (chain_bytes [[48, 1, 7]]) \<le> SESSION_CHAIN_PT_MAX" by (rule demo_chain_fits)
  show "cantil_trust_check_policy demo_x509 (crypto_hash_sha256 demo_sodium) (Some pinned_policy) [[48, 1, 7]] = CANTIL_OK"
    by (simp add: cantil_trust_check_policy_def pinned_policy_def demo_sodium_def tier2_check_subject_def)
  show "impostor_reply (frame (crypto_scalarmult_base demo_sodium (replicate 32 6))) = frame msg2"
    if "hs_write_msg2 demo_wc demo_noise (replicate 32 8, crypto_scalarmult_base demo_sodium (replicate 32 8))
        (replicate 32 4, crypto_scalarmult_base demo_sodium (replicate 32 4)) (crypto_scalarmult_base demo_sodium (replicate 32 6))
        (chain_bytes [[48, 1, 7]]) sy1 = Inr (msg2, sy2)"
      "ok_then (sym_mix_hash demo_wc [] sym_init) (hs_read_msg1 demo_wc (crypto_scalarmult_base demo_sodium (replicate 32 6))) = Inr sy1"
    for sy1 msg2 sy2
    using that by (simp add: impostor_reply_def Let_def frame_def frame_header_def)
qed (simp_all add: SESSION_CHAIN_PT_MAX_def CANTIL_DEVICE_CHAIN_CERTS_def demo_cable_def impostor_reply_def)

end
