(* ===== verification/Protocol_Correct.thy ===== *)
theory Protocol_Correct
  imports Protocol_Frame Channel_Correct
begin

text \<open>
  What a client can and cannot do with its requests.

  \<open>checked P A\<close>: the appliance after \<open>protocol_handle_one\<close> has read the state of the gesture
  engine, which locks an unlocked device that was idle for too long.
\<close>

definition checked :: "('fs, 'k, 'r) proto_env \<Rightarrow> ('fs, 'r, 't) appliance \<Rightarrow> ('fs, 'r, 't) appliance" where
  "checked P A = (let d = to_gest A in from_gest (d\<lparr>gest := snd (gesture_get_state (pe_gest P) (clock d) (gest d))\<rparr>) A)"

text \<open>
  \<open>confirm_typed\<close>: while the request ran, the user entered the confirm sequence after the
  prompt for it.  \<open>reset_typed\<close>: the user entered the unlock sequence after the reset prompt.
\<close>

definition confirm_typed :: "('fs, 'k, 'r) proto_env \<Rightarrow> ('fs, 'r, 't) appliance \<Rightarrow> ('fs, 'r, 't) appliance \<Rightarrow> bool" where
  "confirm_typed P A A' \<longleftrightarrow> user_typed (pe_fs P) (pe_gest P) (SEQ_CONFIRM (pe_gest P)) (ap_user A)
    (asked_by (\<lambda>now. gesture_request_confirm (pe_gest P) now protect_confirm_cb) (checked P A)) (ap_user A')"

definition reset_typed :: "('fs, 'k, 'r) proto_env \<Rightarrow> ('fs, 'r, 't) appliance \<Rightarrow> ('fs, 'r, 't) appliance \<Rightarrow> bool" where
  "reset_typed P A A' \<longleftrightarrow> user_typed (pe_fs P) (pe_gest P) (unlock_seq (gest (ap_gest A))) (ap_user A)
    (asked_by (\<lambda>now. gesture_request_reset (pe_gest P) now reset_confirm_cb) (checked P A)) (ap_user A')"

lemma checked_simps [simp]:
  "ap_dev (checked P A) = ap_dev A" "ap_user (checked P A) = ap_user A" "ap_inv (pe_gest P) A \<Longrightarrow> ap_inv (pe_gest P) (checked P A)"
  "unlock_seq (gest (ap_gest (checked P A))) = unlock_seq (gest (ap_gest A))"
  "ap_sess (checked P A) = ap_sess A" "ap_link (checked P A) = ap_link A"
  by (simp_all add: checked_def Let_def from_gest_dev inv_get_state)
    (simp_all add: to_gest_def gesture_get_state_def from_gest_def put_ap_fs_def put_ca_def)

lemma gated_eq:
  "gated P T cmd seq data A =
    (case refused P (fst (gesture_get_state (pe_gest P) (clock (to_gest A)) (gest (to_gest A)))) cmd (checked P A) of
       Some err \<Rightarrow> answer err [] (checked P A) | None \<Rightarrow> dispatch P T cmd seq data (checked P A))"
  unfolding gated_def run_gest_def checked_def Let_def split_beta ..

lemma provision_cases:
  assumes "do_provision_ca P data A = Some (out, A')" and "ap_inv (pe_gest P) A"
  shows "ap_inv (pe_gest P) A' \<and> (ap_dev A' = ap_dev A \<or>
    (\<exists>t. ap_ca A' = snd (ca_provision (pe_ca P) t (ap_ca A)) \<and>
      user_typed (pe_fs P) (pe_gest P) (SEQ_CONFIRM (pe_gest P)) (ap_user A)
        (asked_by (\<lambda>now. gesture_request_confirm (pe_gest P) now protect_confirm_cb) A) (ap_user A')))"
proof (cases "ca_provisioned (pe_ca P) (ap_ca A)")
  case True
  with assms show ?thesis by (simp add: do_provision_ca_def Let_def answer_def)
next
  case False
  let ?t = "if length data > 0 then data ! 0 else 0"
  let ?k = "\<lambda>r. case r of Inr _ \<Rightarrow> answer ERR_OK [0, 0, 0, 0]
       | Inl e \<Rightarrow> answer (rc_err [(EEXIST, ERR_ALREADY_PROVISIONED), (ENOTSUP, ERR_INVALID_ARGS), (EINVAL, ERR_INVALID_ARGS),
           (EPERM, ERR_VOLUME_INVALID)] ERR_CRYPTO e) []"
  from False assms(1) have "confirmed P (run_ca (ca_provision (pe_ca P) ?t) ?k) A = Some (out, A')"
    by (simp add: do_provision_ca_def Let_def)
  from this assms(2) show ?thesis
  proof (cases rule: confirmed_cases)
    case (confirmed A1)
    obtain r C where r: "ca_provision (pe_ca P) ?t (ap_ca A1) = (r, C)" by (metis surj_pair)
    with confirmed(1) have "A' = put_ca C A1" by (auto simp: run_ca_def answer_def split: sum.splits)
    with confirmed r have "ap_inv (pe_gest P) A'" "ap_ca A' = snd (ca_provision (pe_ca P) ?t (ap_ca A))" "ap_user A' = ap_user A1"
      by (simp_all add: put_ca_def ap_inv_def)
    with confirmed(4) show ?thesis by metis
  qed simp
qed

context fs_reliable begin

lemma dispatch_key:
  assumes "pe_fs P = F" and "max_key_slots (pe_ca P) \<le> 2 ^ 32" and "dispatch P T cmd seq data (checked P A) = Some (h, A')"
    and "ap_inv (pe_gest P) A"
  shows "ap_inv (pe_gest P) A' \<and> (kept mounted view (slot_path 0 ''key.bin'') (ap_fs A) (ap_fs A')
    \<or> survives mounted view (slot_path 0 ''key.bin'') (ap_fs A) (ap_fs A') \<and> confirm_typed P A A'
    \<or> h = Rebooting Cold \<and> reset_typed P A A')"
proof -
  let ?B = "checked P A"
  have inv: "ap_inv (pe_gest P) ?B" using assms(4) by simp
  consider "cmd_of (cmd_bits P) cmd = Some CMD_PROVISION_CA" | "cmd_of (cmd_bits P) cmd = Some CMD_RESET_DEVICE"
    | "cmd_of (cmd_bits P) cmd \<noteq> Some CMD_PROVISION_CA" "cmd_of (cmd_bits P) cmd \<noteq> Some CMD_RESET_DEVICE" by blast
  then show ?thesis
  proof cases
    case 1
    with assms(3) have "do_provision_ca P data ?B = Some (h, A')" by (simp add: dispatch_def)
    from provision_cases [OF this inv] frame_minting(1) [OF assms(1), of 0 "ap_ca A"] show ?thesis
      by (auto simp: confirm_typed_def)
  next
    case 2
    with assms(3) have "handle_reset_device P T seq ?B = Some (h, A')" by (simp add: dispatch_def)
    from this inv show ?thesis
      by (cases rule: reset_cases) (simp_all add: reset_typed_def)
  next
    case 3
    from h_frameD [OF dispatch_frame [OF assms(1,2) 3] assms(3) inv] show ?thesis by simp
  qed
qed

lemma gated_key:
  assumes "pe_fs P = F" and "max_key_slots (pe_ca P) \<le> 2 ^ 32" and "gated P T cmd seq data A = Some (h, A')"
    and "ap_inv (pe_gest P) A"
  shows "ap_inv (pe_gest P) A' \<and> (kept mounted view (slot_path 0 ''key.bin'') (ap_fs A) (ap_fs A')
    \<or> survives mounted view (slot_path 0 ''key.bin'') (ap_fs A) (ap_fs A') \<and> confirm_typed P A A'
    \<or> h = Rebooting Cold \<and> reset_typed P A A')"
  using assms(3) dispatch_key [OF assms(1,2) _ assms(4)] assms(4)
  by (auto simp: gated_eq answer_def split: option.splits)

end

lemma checked_link [simp]: "checked P (A\<lparr>ap_sess := x, ap_link := y\<rparr>) = (checked P A)\<lparr>ap_sess := x, ap_link := y\<rparr>"
  by (simp add: checked_def Let_def to_gest_def from_gest_def put_ap_fs_def put_ca_def)

lemma typed_link [simp]:
  "confirm_typed P (A\<lparr>ap_sess := x, ap_link := y\<rparr>) A' = confirm_typed P A A'"
  "reset_typed P (A\<lparr>ap_sess := x, ap_link := y\<rparr>) A' = reset_typed P A A'"
  "confirm_typed P A (A'\<lparr>ap_sess := x, ap_link := y\<rparr>) = confirm_typed P A A'"
  "reset_typed P A (A'\<lparr>ap_sess := x, ap_link := y\<rparr>) = reset_typed P A A'"
  by (simp_all add: confirm_typed_def reset_typed_def asked_by_def to_gest_def Let_def)

lemma send_response_link: "\<exists>sess t. snd (send_response P T cap seq err d A) = A\<lparr>ap_sess := sess, ap_link := t\<rparr>"
proof (cases "encode_response cap seq (err_code err) d")
  case (Inl e)
  then show ?thesis by (intro exI [of _ "ap_sess A"] exI [of _ "ap_link A"]) (simp add: send_response_def)
qed (auto simp: send_response_def split: prod.split)

text \<open>
  A request that ends: either the dispatcher is not reached, or it ran between the
  reception and the response.
\<close>

lemma handle_one_cases:
  assumes "protocol_handle_one P T A = Some (out, A')"
  obtains (early) sess t where "A' = A\<lparr>ap_sess := sess, ap_link := t\<rparr>" and "\<forall>k. out \<noteq> Rebooted k"
  | (handled) cmd seq data h sess t A1 sess' t' where
    "gated P T cmd seq data (A\<lparr>ap_sess := sess, ap_link := t\<rparr>) = Some (h, A1)"
    and "A' = A1\<lparr>ap_sess := sess', ap_link := t'\<rparr>" and "\<forall>k. h = Rebooting k \<longleftrightarrow> out = Rebooted k"
proof -
  from assms obtain r sess t where
    r: "(case r of Inl e \<Rightarrow> Some (Returned (Some e), A\<lparr>ap_sess := sess, ap_link := t\<rparr>)
         | Inr rx \<Rightarrow> handle_request P T rx (A\<lparr>ap_sess := sess, ap_link := t\<rparr>)) = Some (out, A')"
    by (auto simp: protocol_handle_one_def bind_eq_Some_conv Let_def)
  let ?B = "A\<lparr>ap_sess := sess, ap_link := t\<rparr>"
  show thesis
  proof (cases r)
    case (Inl e)
    with r show thesis by (intro early [where sess = sess and t = t]) auto
  next
    case (Inr rx)
    with r have rx: "handle_request P T rx ?B = Some (out, A')" by simp
    then obtain req where req: "decode_request size_bits rx = Some req" by (auto simp: handle_request_def bind_eq_Some_conv)
    from send_response_link [of P T 16 0 ERR_INVALID_CMD "[]" ?B]
    obtain x y where bad: "snd (send_response P T 16 0 ERR_INVALID_CMD [] ?B) = ?B\<lparr>ap_sess := x, ap_link := y\<rparr>"
      by (elim exE)
    show thesis
    proof (cases "\<exists>cmd seq ref data. req = Inr (cmd, seq, ref) \<and> req_data rx ref = Some data")
      case False
      with rx req bad show thesis
        by (cases req) (auto simp: handle_request_def split: option.splits
          intro: early [where sess = x and t = y] early [where sess = sess and t = t])
    next
      case True
      then obtain cmd seq ref data where "req = Inr (cmd, seq, ref)" "req_data rx ref = Some data" by blast
      with rx req obtain h A1 where g: "gated P T cmd seq data ?B = Some (h, A1)"
        and h: "(case h of Respond err resp \<Rightarrow>
          (case send_response P T MSG_BUF_SIZE seq err resp A1 of (rc, A) \<Rightarrow> Some (Returned rc, A))
          | Rebooting k \<Rightarrow> Some (Rebooted k, A1)) = Some (out, A')"
        by (auto simp: handle_request_def bind_eq_Some_conv)
      show thesis
      proof (cases h)
        case (Respond err resp)
        from send_response_link [of P T MSG_BUF_SIZE seq err resp A1]
        obtain x y where "snd (send_response P T MSG_BUF_SIZE seq err resp A1) = A1\<lparr>ap_sess := x, ap_link := y\<rparr>"
          by (elim exE)
        with h Respond show thesis by (intro handled [OF g, where sess' = x and t' = y]) (auto split: prod.splits)
      next
        case (Rebooting k)
        with h show thesis by (intro handled [OF g, where sess' = "ap_sess A1" and t' = "ap_link A1"]) auto
      qed
    qed
  qed
qed


subsection \<open>An appliance for the examples\<close>

text \<open>
  A device that is unlocked and has no CA key yet, whose user enters the confirm sequence,
  three double taps; its client has sent \<open>PROVISION_CA\<close>.
\<close>

definition demo_gconf :: gconf where
  "demo_gconf = demo_conf\<lparr>alphabet := STDT_PLAIN\<rparr>"

definition demo_names :: name_tables where
  "demo_names = \<lparr>names_data = [65], names_byte_offsets = replicate NAMES_COUNT 0, names_byte_lengths = replicate NAMES_COUNT 1\<rparr>"

definition demo_proto :: "(memfs, unit, nat) proto_env" where
  "demo_proto = \<lparr>pe_dev = demo_dev, pe_gest = demo_gconf, pe_names = demo_names, storage_external = False,
     revoke_require_now_unix = False, cmd_bits = 8\<rparr>"

definition demo_slot_fs :: memfs where
  "demo_slot_fs = [(''/lfs'', Dir), (''/lfs/keys'', Dir), (''/lfs/keys/0'', Dir)]"

definition demo_unlocked :: "(host_cb, memfs) device" where
  "demo_unlocked = \<lparr>clock = 0, gest = (power_on demo_slot_fs)\<lparr>gstate := CANTIL_STATE_UNLOCKED, unlock_seq := [1, 2]\<rparr>, in_flight = []\<rparr>"

definition demo_new_ca :: "(memfs, nat) ca_state" where
  "demo_new_ca = \<lparr>ca_vol = \<lparr>vfs = demo_slot_fs, volume_state = VOLUME_VALID\<rparr>, provisioned = False, ca_rng = 3\<rparr>"

definition demo_taps :: "host_cb event list" where
  "demo_taps = [Tap_Begin CANTIL_TAP_DOUBLE, Tap_End, Tap_Begin CANTIL_TAP_DOUBLE, Tap_End, Tap_Begin CANTIL_TAP_DOUBLE, Tap_End,
     Elapse 1500, Silence]"

definition demo_request :: "32 word \<Rightarrow> byte list" where
  "demo_request cmd = map_bytes (str_bytes ''cmd'') cmd (str_bytes ''seq'') 1 (str_bytes ''data'') []"

definition demo_appliance :: "32 word \<Rightarrow> (memfs, nat, usb_state) appliance" where
  "demo_appliance cmd = \<lparr>ap_dev = demo_dev_state\<lparr>ds_ca := demo_new_ca\<rparr>, ap_gest = demo_unlocked, ap_user = demo_taps, ap_sess = demo_ds,
     ap_link = usb_boot (frame (sealed demo_noise (rx_key demo_ds) (rx_nonce demo_ds) [] (demo_request cmd)))\<rparr>"

lemma demo_request_length: "length (demo_request cmd) \<le> 32"
  by (simp add: demo_request_def map_bytes_def head_need_def str_bytes_def)

lemma demo_recv:
  "\<exists>t. protocol_handle_one demo_proto usb_transport (demo_appliance cmd)
    = handle_request demo_proto usb_transport (demo_request cmd)
        ((demo_appliance cmd)\<lparr>ap_sess := demo_ds\<lparr>rx_nonce := rx_nonce demo_ds + 1\<rparr>, ap_link := t\<rparr>)"
proof -
  have m: "length (demo_request cmd) \<le> MAX_FRAME_PAYLOAD" "length (demo_request cmd) \<le> MSG_BUF_SIZE"
    using demo_request_length [of cmd] by (simp_all add: MAX_FRAME_PAYLOAD_def MSG_BUF_SIZE_def)
  have ds: "established demo_ds" "length (rx_key demo_ds) = 32" by (simp_all add: demo_ds_def new_session_def)
  have "usb_rx_ring (ap_link (demo_appliance cmd)) = frame (sealed demo_noise (rx_key demo_ds) (rx_nonce demo_ds) [] (demo_request cmd)) @ []"
    by (simp add: demo_appliance_def usb_boot_def)
  from demo.device_recv_opens [OF usb.dev_link_axioms ds m this] show ?thesis
    by (auto simp: protocol_handle_one_def demo_proto_def demo_dev_def Let_def demo_appliance_def)
qed

lemma demo_decode: "decode_request size_bits (demo_request cmd) = Some (Inr (cmd, 1, None))"
  using demo_request_length [of cmd]
  by (simp add: decode_request_def decode_map_map_bytes [OF demo_request_def] data_ref_def size_bits_def)

lemma demo_unlocked_checked: "to_gest (demo_appliance cmd) = demo_unlocked" "gesture_get_state demo_gconf 0 (gest demo_unlocked)
    = (CANTIL_STATE_UNLOCKED, gest demo_unlocked)"
  by (simp_all add: to_gest_def demo_appliance_def demo_unlocked_def demo_dev_state_def demo_new_ca_def power_on_def gesture_get_state_def
      demo_gconf_def demo_conf_def)

lemmas demo_gesture_defs = demo_gconf_def demo_conf_def demo_unlocked_def power_on_def gesture_request_confirm_def reset_accumulator_def
  transition_def led_set_idle_def led_play_oneshot_def tap_dropped_def tap_ack_def tap_accumulate_def fire_def silence_timeout_fn_def
  process_sequence_def process_awaiting_confirm_def seq_has_invalid_def seq_match_def SEQ_CONFIRM_def deliver_confirm_def

lemma demo_confirm:
  assumes "d = demo_unlocked\<lparr>gest := snd (gesture_request_confirm demo_gconf 0 protect_confirm_cb (gest demo_unlocked))\<rparr>"
  shows "\<exists>d'. await_answer mem_api demo_gconf demo_taps d = Some (CANTIL_CONFIRM_OK, [], d') \<and> gfs (gest d') = demo_slot_fs"
  unfolding assms demo_taps_def
  by (simp add: demo_gesture_defs Let_def SEQ_MAX_LEN_def DIGIT_INVALID_def)

lemma demo_provision:
  "\<exists>C. ca_provision (pe_ca demo_proto) 0 demo_new_ca = (Inr (), C) \<and> is_file (map_of (ca_fs C) ''/lfs/keys/0/key.bin'')"
proof -
  have p: "slot_path 0 ''key.bin'' = ''/lfs/keys/0/key.bin''" "slot_path 0 ''meta.bin'' = ''/lfs/keys/0/meta.bin''"
    by (simp_all add: slot_path_def slot_dir_0 child_def)
  let ?s = "\<lambda>d. AList.update ''/lfs/keys/0/key.bin'' (File d) demo_slot_fs"
  have w: "write_file mem_api ''/lfs/keys/0/key.bin'' d demo_slot_fs = (None, ?s d)" for d
    by (subst mem_write_file) (simp_all add: demo_slot_fs_def path_ok_def comp_ok_def name_ok_def upt_rec)
  have w2: "write_file mem_api ''/lfs/keys/0/meta.bin'' e (?s d) = (None, AList.update ''/lfs/keys/0/meta.bin'' (File e) (?s d))" for d e
    by (subst mem_write_file) (simp_all add: demo_slot_fs_def path_ok_def comp_ok_def name_ok_def upt_rec update_conv')
  have n: "map_of demo_slot_fs ''/lfs/keys/0/key.bin'' = None" by (simp add: demo_slot_fs_def)
  obtain k where k: "crypto_storage_key_derive demo_wc = Inr k"
    by (simp add: crypto_storage_key_derive_def crypto_hkdf_sha256_def demo_wc_def toy_wc_def eio_def)
  obtain b where b: "crypto_encrypt_blob demo_wc k (replicate 32 3) KEY_BLOB_MAX 4 = (Inr b, 5)"
    by (simp add: crypto_encrypt_blob_def demo_wc_def toy_wc_def crypto_trng_def eio_def KEY_BLOB_MAX_def)
  have kg: "wc_ecc_make_key demo_wc 3 = (Some (replicate 32 3), 4)" by (simp add: demo_wc_def toy_wc_def)
  show ?thesis
    by (simp add: ca_provision_def demo_proto_def demo_dev_def demo_env_def demo_new_ca_def CA_SLOT_def p storage_slot_key_exists_def
        file_exists_def mem_stat_def n Let_def KEY_TYPE_P256_def storage_volume_may_mint_def mint_key_def act_then_def fs_get_def
        k rng_do_def eio_def crypto_keygen_def P256_PRIV_LEN_def kg b fs_do_def storage_key_write_def write_key_blob_def w put_fs_def meta_write_def
        storage_slot_meta_write_def w2 update_conv' is_file_def)
qed

lemma demo_confirmed:
  assumes "to_gest A = demo_unlocked" and "ap_user A = demo_taps" and "ap_ca A = demo_new_ca"
  shows "\<exists>A1. confirmed demo_proto h A = h A1 \<and> ap_ca A1 = demo_new_ca"
proof -
  let ?req = "gesture_request_confirm demo_gconf 0 protect_confirm_cb (gest demo_unlocked)"
  have ok: "fst ?req = None" by (simp add: demo_gesture_defs)
  obtain d where d: "await_answer mem_api demo_gconf demo_taps (demo_unlocked\<lparr>gest := snd ?req\<rparr>) = Some (CANTIL_CONFIRM_OK, [], d)"
    and fs: "gfs (gest d) = demo_slot_fs" using demo_confirm [OF refl] by blast
  let ?B = "from_gest (demo_unlocked\<lparr>gest := snd ?req\<rparr>) A"
  have "pe_fs demo_proto = mem_api" "pe_gest demo_proto = demo_gconf" "clock demo_unlocked = 0" "ap_user ?B = demo_taps"
    using assms(2) by (simp_all add: demo_proto_def demo_dev_def demo_env_def demo_unlocked_def from_gest_def put_ap_fs_def put_ca_def)
  then have "confirmed demo_proto h A = h (from_gest d (?B\<lparr>ap_user := []\<rparr>))"
    using ok d assms(1)
    by (simp add: confirmed_def await_protect_confirm_def run_gest_def Let_def split_beta run_wait_def)
  moreover have "ap_ca (from_gest d (?B\<lparr>ap_user := []\<rparr>)) = demo_new_ca"
    using assms(3) fs by (simp add: from_gest_def put_ap_fs_def put_ca_def put_fs_def demo_new_ca_def)
  ultimately show ?thesis by blast
qed

lemma demo_cmd: "cmd_of (cmd_bits demo_proto) 0x34 = Some CMD_PROVISION_CA"
  by (simp add: cmd_of_def all_cmds_def demo_proto_def take_bit_eq_mod)

lemma demo_dispatch:
  assumes "to_gest A = demo_unlocked" and "ap_user A = demo_taps" and "ap_dev A = ap_dev (demo_appliance 0)"
  shows "\<exists>h A1. gated demo_proto T 0x34 seq [] A = Some (h, A1) \<and> (\<forall>k. h \<noteq> Rebooting k)
    \<and> is_file (map_of (ap_fs A1) ''/lfs/keys/0/key.bin'')"
proof -
  have st: "gesture_get_state (pe_gest demo_proto) (clock (to_gest A)) (gest (to_gest A)) = (CANTIL_STATE_UNLOCKED, gest demo_unlocked)"
    using demo_unlocked_checked(2) assms(1) by (simp add: demo_proto_def demo_unlocked_def)
  have ca: "ap_ca A = demo_new_ca" "\<not> s_in_recovery (ap_dev A)" using assms(3) by (simp_all add: demo_appliance_def demo_dev_state_def)
  have up: "\<not> ca_provisioned (pe_ca demo_proto) demo_new_ca"
    by (simp add: ca_provisioned_def demo_new_ca_def demo_proto_def demo_dev_def demo_env_def storage_slot_key_exists_def CA_SLOT_def
        file_exists_def mem_stat_def slot_path_def slot_dir_0 child_def demo_slot_fs_def is_1_def)
  have vol: "volume_state (ca_vol demo_new_ca) = VOLUME_VALID" by (simp add: demo_new_ca_def)
  have c: "to_gest (checked demo_proto A) = demo_unlocked" using st assms(1) by (simp add: checked_def Let_def)
  have "gated demo_proto T 0x34 seq [] A = do_provision_ca demo_proto [] (checked demo_proto A)"
    unfolding gated_eq st using ca up demo_cmd by (simp add: refused_def storage_volume_trusted_def storage_volume_may_mint_def dispatch_def vol)
  moreover from demo_confirmed [OF c] assms(2) ca(1) obtain A1 where
    "do_provision_ca demo_proto [] (checked demo_proto A) = run_ca (ca_provision (pe_ca demo_proto) 0) (\<lambda>r.
       case r of
         Inr _ \<Rightarrow> answer ERR_OK [0, 0, 0, 0]
       | Inl e \<Rightarrow> answer (rc_err [(EEXIST, ERR_ALREADY_PROVISIONED), (ENOTSUP, ERR_INVALID_ARGS), (EINVAL, ERR_INVALID_ARGS),
           (EPERM, ERR_VOLUME_INVALID)] ERR_CRYPTO e) []) A1" and "ap_ca A1 = demo_new_ca"
    using up by (auto simp: do_provision_ca_def)
  ultimately show ?thesis using demo_provision by (auto simp: run_ca_def answer_def put_ca_def)
qed

text \<open>
  C1: The key of the certificate authority is out of a client's reach.  Whatever message a client
  sends, and whatever the device answers: the key file of slot 0 changes only if it did not
  exist and, while the request ran, the user entered the confirm sequence on the device; or
  if it did exist, the user entered the unlock sequence at the reset prompt, and the device
  restarts.  The invariant of the gesture engine holds again afterwards.
\<close>

theorem ca_key_needs_gesture:
  assumes "fs_reliable (pe_fs P) mounted view" and "max_key_slots (pe_ca P) \<le> 2 ^ 32"
    and "mounted (ap_fs A)" and "gesture_inv (pe_gest P) (gest (ap_gest A))"
    and "protocol_handle_one P T A = Some (out, A')"
    and "key = view (ap_fs A) (slot_path 0 ''key.bin'')" and "key' = view (ap_fs A') (slot_path 0 ''key.bin'')"
  shows "gesture_inv (pe_gest P) (gest (ap_gest A')) \<and>
    (key' \<noteq> key \<and> (is_file key \<or> is_file key') \<longrightarrow>
      key = None \<and> confirm_typed P A A' \<or> out = Rebooted Cold \<and> reset_typed P A A')"
  using assms(5)
proof (cases rule: handle_one_cases)
  case (early sess t)
  with assms(4,6,7) show ?thesis by simp
next
  case (handled cmd seq data h sess t A1 sess' t')
  let ?B = "A\<lparr>ap_sess := sess, ap_link := t\<rparr>"
  have "ap_inv (pe_gest P) ?B" using assms(4) by (simp add: ap_inv_def)
  from fs_reliable.gated_key [OF assms(1) refl assms(2) handled(1) this] handled(2,3) assms(3,6,7) show ?thesis
    by (auto simp: ap_inv_def kept_def survives_def is_file_def)
qed

theorem ca_key_needs_gesture_witness:
  "\<exists>out A'. protocol_handle_one demo_proto usb_transport (demo_appliance 0x34) = Some (out, A')
    \<and> is_file (map_of (ap_fs A') ''/lfs/keys/0/key.bin'') \<and> confirm_typed demo_proto (demo_appliance 0x34) A'"
proof -
  let ?A = "demo_appliance 0x34"
  obtain t where t: "protocol_handle_one demo_proto usb_transport ?A = handle_request demo_proto usb_transport (demo_request 0x34)
      (?A\<lparr>ap_sess := demo_ds\<lparr>rx_nonce := rx_nonce demo_ds + 1\<rparr>, ap_link := t\<rparr>)" using demo_recv by blast
  let ?B = "?A\<lparr>ap_sess := demo_ds\<lparr>rx_nonce := rx_nonce demo_ds + 1\<rparr>, ap_link := t\<rparr>"
  have "to_gest ?B = demo_unlocked" using demo_unlocked_checked(1) by (simp add: to_gest_def)
  moreover have "ap_user ?B = demo_taps" "ap_dev ?B = ap_dev (demo_appliance 0)" by (simp_all add: demo_appliance_def)
  ultimately obtain h A1 where g: "gated demo_proto usb_transport 0x34 1 [] ?B = Some (h, A1)" "\<forall>k. h \<noteq> Rebooting k"
    and f: "is_file (map_of (ap_fs A1) ''/lfs/keys/0/key.bin'')" using demo_dispatch by blast
  obtain err resp where h: "h = Respond err resp" using g(2) by (cases h) auto
  obtain rc A' where s: "send_response demo_proto usb_transport MSG_BUF_SIZE 1 err resp A1 = (rc, A')" by (metis surj_pair)
  have run: "protocol_handle_one demo_proto usb_transport ?A = Some (Returned rc, A')"
    unfolding t using g(1) h s by (simp add: handle_request_def demo_decode req_data_def)
  have "ap_fs A' = ap_fs A1" using send_response_link [of demo_proto usb_transport MSG_BUF_SIZE 1 err resp A1] s by auto
  with f have f': "is_file (map_of (ap_fs A') ''/lfs/keys/0/key.bin'')" by simp
  have rel: "fs_reliable (pe_fs demo_proto) mem_inv map_of"
    using memr.fs_reliable_axioms by (simp add: demo_env_def demo_proto_def demo_dev_def)
  have slots: "max_key_slots (pe_ca demo_proto) \<le> 2 ^ 32" by (simp add: demo_env_def demo_proto_def demo_dev_def)
  have inv: "mem_inv (ap_fs ?A)" by (simp add: demo_appliance_def demo_new_ca_def demo_slot_fs_def mem_inv_def path_ok_def comp_ok_def
        name_ok_def upt_rec is_file_def)
  have g: "gesture_inv (pe_gest demo_proto) (gest (ap_gest ?A))"
    by (simp add: demo_appliance_def demo_proto_def gesture_inv_def demo_gesture_defs SEQ_MAX_LEN_def is_factory_default_def SEQ_UNLOCK_DEFAULT_def)
  have n: "map_of (ap_fs ?A) ''/lfs/keys/0/key.bin'' = None" by (simp add: demo_appliance_def demo_new_ca_def demo_slot_fs_def)
  have p: "slot_path 0 ''key.bin'' = ''/lfs/keys/0/key.bin''" by (simp add: slot_path_def slot_dir_0 child_def)
  from ca_key_needs_gesture [OF rel slots inv g run refl refl] run f' n show ?thesis by (auto simp: p is_file_def)
qed

end
