(* ===== verification/Pairing_Correct.thy ===== *)
theory Pairing_Correct
  imports Pairing Protocol_Correct
begin

text \<open>
  What it takes to be paired.  \<open>pair_typed P A A'\<close>: after a prompt for it, the user entered the
  pairing sequence; the user's events up to the prompt are arbitrary.  \<open>passkey_sent\<close>: the
  message that the client sent next contains the passkey that the device has drawn.
\<close>

definition pair_typed :: "('fs, 'k, 'r) proto_env \<Rightarrow> ('fs, 'r, 't) appliance \<Rightarrow> ('fs, 'r, 't) appliance \<Rightarrow> bool" where
  "pair_typed P A A' \<longleftrightarrow> (\<exists>es (A0 :: ('fs, 'r, 't) appliance). ap_user A = es @ ap_user A0
    \<and> user_typed (pe_fs P) (pe_gest P) (SEQ_PAIRING_TRIGGER (pe_gest P)) (ap_user A0)
        (asked_by (\<lambda>now. gesture_request_pair_confirm (pe_gest P) now pair_confirm_cb) A0) (ap_user A'))"

definition passkey_sent :: "('fs, 'k, 'r) proto_env \<Rightarrow> 't transport \<Rightarrow> ('fs, 'r, 't) appliance \<Rightarrow> bool" where
  "passkey_sent P T A \<longleftrightarrow> (\<exists>rx seq sess t.
    session_recv (dv_noise (pe_dev P)) T (ap_sess A) 64 (ap_link A) = Some (Inr rx, sess, t)
    \<and> check_reply (fst (generate_passkey (env_wc (pe_ca P)) (ca_rng (ap_ca A)))) rx = Some (Right_passkey seq))"

lemma pair_typedI:
  fixes A A0 :: "('fs, 'r, 't) appliance"
  assumes "ap_user A = es @ ap_user A0"
    and "user_typed (pe_fs P) (pe_gest P) (SEQ_PAIRING_TRIGGER (pe_gest P)) (ap_user A0)
      (asked_by (\<lambda>now. gesture_request_pair_confirm (pe_gest P) now pair_confirm_cb) A0) (ap_user A')"
  shows "pair_typed P A A'"
  using assms unfolding pair_typed_def by blast

text \<open>Tasks that leave the gesture engine and the user's events alone.\<close>

named_theorems quiet "tasks that leave the gesture engine alone"

definition quiet_task :: "('fs, 'r, 't, 'h) task \<Rightarrow> bool" where
  "quiet_task k \<longleftrightarrow> (\<forall>A out A'. k A = Some (out, A') \<longrightarrow> ap_gest A' = ap_gest A \<and> ap_user A' = ap_user A)"

lemma quietD: "quiet_task k \<Longrightarrow> k A = Some (out, A') \<Longrightarrow> ap_gest A' = ap_gest A \<and> ap_user A' = ap_user A"
  by (simp add: quiet_task_def)

lemma quiet_returns [quiet]: "quiet_task (returns rc)"
  by (simp add: quiet_task_def returns_def)

lemma quiet_if [quiet]: "quiet_task k \<Longrightarrow> quiet_task l \<Longrightarrow> quiet_task (if b then k else l)"
  by simp

lemma quiet_case [quiet]: "(\<And>e. quiet_task (k e)) \<Longrightarrow> (\<And>x. quiet_task (l x)) \<Longrightarrow> quiet_task (case r of Inl e \<Rightarrow> k e | Inr x \<Rightarrow> l x)"
  by (cases r) simp_all

lemma quiet_run_rng [quiet]: "(\<And>x. quiet_task (k x)) \<Longrightarrow> quiet_task (run_rng f k)"
  by (fastforce simp: quiet_task_def run_rng_def put_ca_def split: prod.splits)

lemma quiet_run_vol [quiet]: "(\<And>x. quiet_task (k x)) \<Longrightarrow> quiet_task (run_vol m k)"
  by (fastforce simp: quiet_task_def run_vol_def put_ca_def bind_eq_Some_conv)

lemma quiet_run_fs [quiet]: "(\<And>x. quiet_task (k x)) \<Longrightarrow> quiet_task (run_fs m k)"
  by (fastforce simp: quiet_task_def run_fs_def put_ap_fs_def put_ca_def bind_eq_Some_conv)

lemma quiet_send_reply [quiet]: "quiet_task k \<Longrightarrow> quiet_task (send_reply P T seq err k)"
  by (fastforce simp: quiet_task_def send_reply_def run_send_def split: sum.splits prod.splits)

lemma quiet_at: "(\<And>x. quiet_task (f x)) \<Longrightarrow> quiet_task (\<lambda>A. f (g A) A)"
  by (auto simp: quiet_task_def)

lemma quiet_bond [quiet]: "quiet_task (bond_with_psk P C T pub passkey seq)"
  unfolding bond_with_psk_def Let_def by (rule quiet_at) (intro quiet)

lemma quiet_commit [quiet]: "quiet_task (commit_bond P C pub)"
  unfolding commit_bond_def by (intro quiet)

text \<open>Sleeping keeps the invariant of the gesture engine.\<close>

lemma sleep_until_ends:
  assumes "sleep_until F c t es d = Some (es', d')" and "gesture_inv c (gest d)"
  shows "gesture_inv c (gest d') \<and> (\<exists>p. es = p @ es')"
  using assms
proof (induction es arbitrary: d)
  case (Cons e es)
  then show ?case by (auto simp: bind_eq_Some_conv split: if_splits dest: inv_event) (metis append_Cons inv_event)+
qed (auto split: if_splits)

definition slept :: "gconf \<Rightarrow> ('fs, 'r, 't) appliance \<Rightarrow> ('fs, 'r, 't) appliance \<Rightarrow> bool" where
  "slept c A A1 \<longleftrightarrow> ap_inv c A1 \<and> ap_sess A1 = ap_sess A \<and> ap_link A1 = ap_link A \<and> (\<exists>es. ap_user A = es @ ap_user A1)"

lemma slept_trans: "slept c A A1 \<Longrightarrow> slept c A1 A2 \<Longrightarrow> slept c A A2"
  by (auto simp: slept_def)

lemma from_gest_rest [simp]:
  "ap_sess (from_gest d A) = ap_sess A" "ap_link (from_gest d A) = ap_link A" "ap_user (from_gest d A) = ap_user A"
  by (simp_all add: from_gest_def put_ap_fs_def put_ca_def)

lemma sleep_cases:
  assumes "run_sleep P ms k A = Some (out, A')" and "ap_inv (pe_gest P) A"
  obtains A1 where "k A1 = Some (out, A')" and "slept (pe_gest P) A A1"
proof -
  from assms(1) obtain es d where s: "sleep_until (pe_fs P) (pe_gest P) (clock (to_gest A) + ms) (ap_user A) (to_gest A) = Some (es, d)"
    and k: "k (from_gest d (A\<lparr>ap_user := es\<rparr>)) = Some (out, A')" by (auto simp: run_sleep_def bind_eq_Some_conv)
  from sleep_until_ends [OF s] assms(2) have "slept (pe_gest P) A (from_gest d (A\<lparr>ap_user := es\<rparr>))"
    by (simp add: slept_def)
  with k show thesis by (rule that)
qed

lemma blink_cases:
  assumes "blink_digits P pause ds k A = Some (out, A')" and "ap_inv (pe_gest P) A"
  obtains A1 where "k A1 = Some (out, A')" and "slept (pe_gest P) A A1"
proof -
  have "\<exists>A1. k A1 = Some (out, A') \<and> slept (pe_gest P) A A1"
    using assms
  proof (induction ds arbitrary: A)
    case Nil
    then show ?case by (auto simp: slept_def)
  next
    case (Cons d ds)
    let ?k = "if pause > 0 then run_sleep P pause (blink_digits P pause ds k) else blink_digits P pause ds k"
    from Cons.prems obtain A1 where A1: "?k A1 = Some (out, A')" "slept (pe_gest P) A A1"
      by (auto elim: sleep_cases)
    then have inv: "ap_inv (pe_gest P) A1" by (simp add: slept_def)
    have "\<exists>A2. blink_digits P pause ds k A2 = Some (out, A') \<and> slept (pe_gest P) A1 A2"
    proof (cases "pause > 0")
      case True
      with A1(1) inv show ?thesis by (auto elim: sleep_cases)
    next
      case False
      with A1(1) inv show ?thesis by (auto simp: slept_def)
    qed
    then obtain A2 where A2: "blink_digits P pause ds k A2 = Some (out, A')" "slept (pe_gest P) A1 A2" by blast
    with Cons.IH [OF A2(1)] slept_trans [OF A1(2) A2(2)] show ?case by (meson slept_def slept_trans)
  qed
  with that show thesis by blast
qed

text \<open>The request for the pairing gesture.\<close>

lemma request_pair_accepted:
  assumes "gesture_request_pair_confirm c now cb g = (None, g')"
  shows "gstate g' = CANTIL_STATE_AWAITING_PAIR \<and> closed_digits c g' = [] \<and> gfs g' = gfs g"
  using assms by (auto simp: gesture_request_pair_confirm_def transition_def led_set_idle_def reset_accumulator_def closed_digits_def
      split: if_splits alphabet.splits)

lemma request_pair_refused: "gesture_request_pair_confirm c now cb g = (Some e, g') \<Longrightarrow> g' = g"
  by (auto simp: gesture_request_pair_confirm_def split: if_splits)

abbreviation ask_pair :: "('fs, 'k, 'r) proto_env \<Rightarrow> int \<Rightarrow> (host_cb, 'fs) gesture \<Rightarrow> errno option \<times> (host_cb, 'fs) gesture" where
  "ask_pair P \<equiv> \<lambda>now. gesture_request_pair_confirm (pe_gest P) now pair_confirm_cb"

lemma request_pair_cases:
  fixes A :: "('fs, 'r, 't) appliance"
  assumes "request_pair P busy k A = Some (out, A')" and "ap_inv (pe_gest P) A"
  obtains (busy) e A1 where "busy e A1 = Some (out, A')" and "ap_dev A1 = ap_dev A" and "ap_inv (pe_gest P) A1"
  | (answered) r A1 where "k r A1 = Some (out, A')" and "ap_dev A1 = ap_dev A" and "ap_inv (pe_gest P) A1"
    and "r = CANTIL_CONFIRM_OK \<longrightarrow> user_typed (pe_fs P) (pe_gest P) (SEQ_PAIRING_TRIGGER (pe_gest P)) (ap_user A)
      (asked_by (ask_pair P) A) (ap_user A1)"
proof -
  let ?c = "pe_gest P" and ?d = "to_gest A"
  obtain rc g where r: "ask_pair P (clock ?d) (gest ?d) = (rc, g)" by (metis surj_pair)
  define A0 where "A0 = from_gest (?d\<lparr>gest := g\<rparr>) A"
  have inv: "gesture_inv ?c g" using inv_requests(3) [of ?c "gest ?d" "clock ?d" pair_confirm_cb] assms(2) r by simp
  have asked: "asked_by (ask_pair P) A = to_gest A0" using r by (simp add: asked_by_def Let_def A0_def)
  show thesis
  proof (cases rc)
    case (Some e)
    have "g = gest ?d" by (rule request_pair_refused [OF r [unfolded Some]])
    then have "ap_dev A0 = ap_dev A" by (simp add: A0_def from_gest_dev)
    moreover from assms(1) Some r have "busy e A0 = Some (out, A')" by (simp add: request_pair_def run_gest_def Let_def A0_def)
    ultimately show thesis using inv by (intro busy [of e A0]) (simp_all add: A0_def)
  next
    case None
    note acc = request_pair_accepted [OF r [unfolded None]]
    have dev: "ap_dev A0 = ap_dev A" using acc by (simp add: A0_def from_gest_dev)
    have seq: "answer_seq ?c (gest (ap_gest A0)) = Some (SEQ_PAIRING_TRIGGER ?c)" "closed_digits ?c (gest (ap_gest A0)) = []" "ap_inv ?c A0"
      using acc inv by (simp_all add: A0_def answer_seq_def)
    from assms(1) None r have "run_wait P k A0 = Some (out, A')" by (simp add: request_pair_def run_gest_def Let_def A0_def)
    then obtain x A1 where w: "k x A1 = Some (out, A')" "ap_dev A1 = ap_dev A0" "ap_inv ?c A1"
      "x = CANTIL_CONFIRM_OK \<longrightarrow> user_typed (pe_fs P) ?c (SEQ_PAIRING_TRIGGER ?c) (ap_user A0) (to_gest A0) (ap_user A1)"
      by (rule wait_cases [OF _ seq(3,1,2)])
    with dev asked show thesis by (intro answered [of x A1]) (simp_all add: A0_def)
  qed
qed

subsection \<open>Accepted clients\<close>

lemma refuse_out: "send_reply P T seq err (returns rc) A = Some (out, A') \<Longrightarrow> out = Returned rc"
  by (auto simp: send_reply_def run_send_def returns_def split: sum.splits prod.splits)

lemma pair_ends:
  assumes "request_pair P (\<lambda>_. refuse P T seq ERR_BUSY) (\<lambda>r.
      if r \<noteq> CANTIL_CONFIRM_OK then refuse P T seq ERR_AUTH else bond_with_psk P C T pub pk seq) A = Some (out, A')"
    and "ap_inv (pe_gest P) A"
  shows "ap_inv (pe_gest P) A' \<and> (out = Returned None \<longrightarrow>
    user_typed (pe_fs P) (pe_gest P) (SEQ_PAIRING_TRIGGER (pe_gest P)) (ap_user A) (asked_by (ask_pair P) A) (ap_user A'))"
  using assms
proof (cases rule: request_pair_cases)
  case (busy e A1)
  have "quiet_task (refuse P T seq ERR_BUSY)" by (intro quiet)
  from quietD [OF this busy(1)] refuse_out [OF busy(1)] busy(3) show ?thesis by (simp add: ap_inv_def)
next
  case (answered r A1)
  have "quiet_task (if r \<noteq> CANTIL_CONFIRM_OK then refuse P T seq ERR_AUTH else bond_with_psk P C T pub pk seq)" by (intro quiet)
  from quietD [OF this answered(1)] answered(1,3,4) refuse_out [of P T seq ERR_AUTH "Some EACCES" A1 out A'] show ?thesis
    by (auto simp: ap_inv_def split: if_splits)
qed

lemma exchange_cases:
  assumes "passkey_exchange_and_bond P C T pub A = Some (out, A')" and "ap_inv (pe_gest P) A"
  shows "ap_inv (pe_gest P) A' \<and> (out = Returned None \<longrightarrow> pair_typed P A A' \<and> passkey_sent P T A)"
proof -
  let ?c = "pe_gest P"
  obtain pk r where pk: "generate_passkey (env_wc (pe_ca P)) (ca_rng (ap_ca A)) = (pk, r)" by (metis surj_pair)
  define A1 where "A1 = put_ca ((ap_ca A)\<lparr>ca_rng := r\<rparr>) A"
  have same: "ap_inv ?c A1" "ap_sess A1 = ap_sess A" "ap_link A1 = ap_link A" "ap_user A1 = ap_user A"
    using assms(2) by (simp_all add: A1_def) (simp_all add: put_ca_def)
  show ?thesis
  proof (cases "pk = 0")
    case True
    with assms pk same show ?thesis by (auto simp: passkey_exchange_and_bond_def run_rng_def returns_def A1_def)
  next
    case False
    define A2 where "A2 = from_gest ((to_gest A1)\<lparr>gest := led_set_idle LED_PATTERN_PASSKEY_PROMPT (gest (to_gest A1))\<rparr>) A1"
    have A2: "slept ?c A A2" using same by (simp add: A2_def slept_def)
    let ?pair = "\<lambda>seq. request_pair P (\<lambda>_. refuse P T seq ERR_BUSY) (\<lambda>r.
      if r \<noteq> CANTIL_CONFIRM_OK then refuse P T seq ERR_AUTH else bond_with_psk P C T pub pk seq)"
    let ?reply = "\<lambda>rx A. Option.bind (check_reply pk rx) (\<lambda>rep. (case rep of
        Bad_reply seq err \<Rightarrow> refuse P T seq err | Reply_outside \<Rightarrow> (\<lambda>A. Some (Out_of_buffer, A)) | Right_passkey seq \<Rightarrow> ?pair seq) A)"
    let ?k = "run_recv P T 64 (\<lambda>r. case r of Inl _ \<Rightarrow> rejected | Inr rx \<Rightarrow> ?reply rx)"
    have "blink_passkey P C pk ?k A2 = Some (out, A')"
      using assms(1) pk False by (simp add: passkey_exchange_and_bond_def run_rng_def run_gest_def Let_def A1_def A2_def)
    then obtain A3 where k: "?k A3 = Some (out, A')" and "slept ?c A2 A3"
      using A2 by (auto simp: blink_passkey_def slept_def elim: blink_cases)
    with slept_trans [OF A2] have A3: "slept ?c A A3" by blast
    from k obtain r sess t where recv: "session_recv (dv_noise (pe_dev P)) T (ap_sess A) 64 (ap_link A) = Some (r, sess, t)"
      and k2: "(case r of Inl _ \<Rightarrow> rejected | Inr rx \<Rightarrow> ?reply rx) (A3\<lparr>ap_sess := sess, ap_link := t\<rparr>) = Some (out, A')"
      using A3 by (auto simp: run_recv_def bind_eq_Some_conv slept_def)
    let ?A4 = "A3\<lparr>ap_sess := sess, ap_link := t\<rparr>"
    have inv4: "ap_inv ?c ?A4" using A3 by (simp add: slept_def)
    show ?thesis
    proof (cases r)
      case (Inl e)
      with k2 inv4 show ?thesis by (auto simp: returns_def)
    next
      case (Inr rx)
      with k2 obtain rep where rep: "check_reply pk rx = Some rep" by (auto simp: bind_eq_Some_conv)
      show ?thesis
      proof (cases rep)
        case (Right_passkey seq)
        have "passkey_sent P T A" using recv rep Right_passkey Inr pk by (auto simp: passkey_sent_def)
        moreover have "?pair seq ?A4 = Some (out, A')" using k2 Inr rep Right_passkey by simp
        note pair_ends [OF this inv4]
        ultimately show ?thesis using A3 by (auto simp: slept_def intro: pair_typedI [of _ _ ?A4])
      next
        case (Bad_reply seq err)
        have "quiet_task (refuse P T seq err)" by (intro quiet)
        with k2 Inr rep Bad_reply inv4 show ?thesis by (auto dest: quietD refuse_out simp: ap_inv_def)
      next
        case Reply_outside
        with k2 Inr rep inv4 show ?thesis by auto
      qed
    qed
  qed
qed

lemma tap_cases:
  assumes "tap_confirm_and_bond P C pub A = Some (out, A')" and "ap_inv (pe_gest P) A"
  shows "ap_inv (pe_gest P) A' \<and> (out = Returned None \<or> ap_dev A' \<noteq> ap_dev A \<longrightarrow> pair_typed P A A')"
  using assms(1) [unfolded tap_confirm_and_bond_def] assms(2)
proof (cases rule: request_pair_cases)
  case (busy e A1)
  then show ?thesis by (auto simp: returns_def)
next
  case (answered r A1)
  show ?thesis
  proof (cases "r = CANTIL_CONFIRM_OK")
    case True
    with answered have run: "commit_bond P C pub A1 = Some (out, A')" by simp
    have "pair_typed P A A'"
      using answered(4) True quietD [OF quiet_commit run] by (intro pair_typedI [of _ "[]" A]) simp_all
    with quietD [OF quiet_commit run] answered(3) show ?thesis by (simp add: ap_inv_def)
  next
    case False
    with answered show ?thesis by (auto simp: returns_def)
  qed
qed

lemma known_or_cases:
  assumes "known_or P pub k A = Some (out, A')"
  obtains (known) "client_bond_exists (pe_fs P) pub (ap_fs A) = Inr True" and "A' = A"
  | (failed) e where "out = Returned (Some e)" and "A' = A"
  | (unknown) "client_bond_exists (pe_fs P) pub (ap_fs A) = Inr False" and "k A = Some (out, A')"
  using assms by (auto simp: known_or_def returns_def split: sum.splits bool.splits)

lemma room_cases:
  assumes "room_or_reject P C k A = Some (out, A')"
  obtains (full) "out = Returned (Some EACCES)" and "A' = A" | (room) "k A = Some (out, A')"
  using assms by (auto simp: room_or_reject_def returns_def split: sum.splits if_splits)

lemma anchored_cases:
  assumes "anchored_or_reject P C k A = Some (out, A')"
  obtains (invalid) "out = Returned (Some EACCES)" and "A' = A"
  | (valid) "ca_validate_client_cert_chain (pe_ca P) (client_certs (ap_sess A)) (ca_anchor_slot C) (ap_fs A) = None"
    and "k A = Some (out, A')"
  using assms by (auto simp: anchored_or_reject_def returns_def Let_def split: if_splits)

subsection \<open>Bonds are remembered\<close>

context fs_reliable begin

lemma bond_exists_iff:
  assumes "mounted s" and "view s (client_hex_path (client_bond_id pub) ''pubkey.bin'') = Some (File pub)" and "length pub = 32"
  shows "client_bond_exists F pub s = Inr True"
  using assms by (simp add: client_bond_exists_def storage_client_bond_exists_def file_exists_ok is_1_def id_matches_pub_def
      storage_client_bond_pubkey_read_def read_file_ok)

lemma bond_added:
  assumes "mounted (vfs v)" and "length pub = 32" and "client_bond_add F C pub kind now v = Some (None, v')"
  shows "client_bond_exists F pub (vfs v') = Inr True"
proof -
  let ?i = "client_bond_id pub"
  from assms(3) obtain s1 where w: "write_file F (client_hex_path ?i ''pubkey.bin'') pub (vfs v) = (None, s1)"
    "write_file F (client_hex_path ?i ''meta.bin'') (client_meta_bytes (new_client_meta kind now)) s1 = (None, vfs v')"
    by (auto simp: client_bond_add_def Let_def storage_client_bond_pubkey_write_def storage_client_bond_meta_write_def
        bind_eq_Some_conv split: if_splits sum.splits prod.splits option.splits)
  have m: "mounted s1" using write_file_props [OF assms(1) w(1)] by blast
  have "view (vfs v') (client_hex_path ?i ''pubkey.bin'') = view s1 (client_hex_path ?i ''pubkey.bin'')"
    using write_file_done [OF assms(1) w(1)] by (intro write_file_keeps [OF m w(2)]) (simp_all add: client_hex_path_def child_def)
  with write_file_done [OF assms(1) w(1)] write_file_props [OF m w(2)] assms(2) show ?thesis by (intro bond_exists_iff) auto
qed

end

text \<open>
  The gate takes \<open>EEXIST\<close> and \<open>EROFS\<close> from \<open>client_bond_add\<close> as its own codes.  \<open>plain_errors\<close>: the
  file system does not use them on a writable volume, except \<open>EEXIST\<close> for a directory.
\<close>

definition plain_errors :: "'fs fs_api \<Rightarrow> bool" where
  "plain_errors F \<longleftrightarrow> (\<forall>p s. fst (fs_mkdir F p s) \<noteq> Some EROFS \<and> fst (fs_open_w F p s) \<noteq> Some EEXIST
    \<and> fst (fs_open_w F p s) \<noteq> Some EROFS \<and> fs_list F p s \<noteq> Inl EEXIST \<and> fs_list F p s \<noteq> Inl EROFS)"

lemma mkdir_each_plain: "plain_errors F \<Longrightarrow> mkdir_each F ps s = (Some e, s') \<Longrightarrow> e \<noteq> EEXIST \<and> e \<noteq> EROFS"
  by (induction ps arbitrary: s) (auto simp: plain_errors_def split: prod.splits if_splits, metis fst_conv)

lemma write_plain: "plain_errors F \<Longrightarrow> write_file F p d s = (Some e, s') \<Longrightarrow> e \<noteq> EEXIST \<and> e \<noteq> EROFS"
  by (auto simp: write_file_def mkdir_p_def Let_def split: prod.splits option.splits if_splits dest: mkdir_each_plain)
    (metis plain_errors_def fst_conv)+

lemma count_iter: "fst (iter_entries sel (count_cb F) es u s) = None"
  by (induction es arbitrary: u s) (auto simp: count_cb_def split: option.split sum.split)

lemma count_plain: "plain_errors F \<Longrightarrow> client_bond_count F s \<noteq> Inl EEXIST \<and> client_bond_count F s \<noteq> Inl EROFS"
  using count_iter [of client_of_name F _ "\<lparr>cnt_host = 0, cnt_peer = 0\<rparr>" s]
  by (auto simp: client_bond_count_def storage_client_bonds_iter_def plain_errors_def
      split: sum.splits prod.splits option.splits iter_rc.splits if_splits) (metis fst_conv option.distinct(1))+

lemma unknown_added:
  assumes "plain_errors F" and "client_bond_exists F pub (vfs v) = Inr False" and "storage_volume_may_mint F v"
    and "client_bond_add F C pub kind now v = Some (rc, v')"
  shows "rc \<noteq> Some EEXIST \<and> rc \<noteq> Some EROFS"
proof -
  have w: "write_file F p d s \<noteq> (Some EEXIST, s')" "write_file F p d s \<noteq> (Some EROFS, s')" for p d s s'
    using write_plain [OF assms(1)] by blast+
  from assms(2-4) count_plain [OF assms(1), of "vfs v"] show ?thesis
    by (auto simp: client_bond_add_def client_bond_exists_def Let_def storage_client_bond_pubkey_write_def w
        storage_client_bond_meta_write_def bind_eq_Some_conv split: if_splits sum.splits prod.splits option.splits)
qed

lemma commit_known:
  assumes "fs_reliable (pe_fs P) mounted view" and "mounted (ap_fs A)" and "length pub = 32" and "plain_errors (pe_fs P)"
    and "storage_volume_may_mint (pe_fs P) (ca_vol (ap_ca A))" and "client_bond_exists (pe_fs P) pub (ap_fs A) = Inr False"
    and "commit_bond P C pub A = Some (Returned None, A')"
  shows "client_bond_exists (pe_fs P) pub (ap_fs A') = Inr True"
proof -
  from assms(7) obtain rc v where add: "client_bond_add (pe_fs P) (pair_caps C) pub CLIENT_KIND_HOST 0 (ca_vol (ap_ca A)) = Some (rc, v)"
    and rc: "rc = None \<or> rc = Some EEXIST \<or> rc = Some EROFS" and A': "A' = put_ca ((ap_ca A)\<lparr>ca_vol := v\<rparr>) A"
    by (auto simp: commit_bond_def run_vol_def bind_eq_Some_conv returns_def split: if_splits)
  from unknown_added [OF assms(4,6,5) add] rc have "rc = None" by blast
  with fs_reliable.bond_added [OF assms(1,2,3)] add A' show ?thesis by simp
qed

subsection \<open>A client that pairs\<close>

definition demo_pair_fs :: memfs where
  "demo_pair_fs = [(''/lfs'', Dir), (''/lfs/clients'', Dir), (''/lfs/clients/07070707'', Dir)]"

definition demo_pair_conf :: pair_conf where
  "demo_pair_conf = \<lparr>pairing_method = PAIRING_TAP_CONFIRM, pair_caps = \<lparr>max_client_bonds = 8, max_peer_bonds = 2\<rparr>,
     ca_anchor_slot = 0, passkey_blink_pause_ms = 1000\<rparr>"

definition demo_pair_gest :: "(host_cb, memfs) device" where
  "demo_pair_gest = \<lparr>clock = 0, gest = (power_on demo_pair_fs)\<lparr>gstate := CANTIL_STATE_UNLOCKED, unlock_seq := [1, 2]\<rparr>, in_flight = []\<rparr>"

definition demo_pair_ca :: "(memfs, nat) ca_state" where
  "demo_pair_ca = \<lparr>ca_vol = \<lparr>vfs = demo_pair_fs, volume_state = VOLUME_VALID\<rparr>, provisioned = False, ca_rng = 3\<rparr>"

definition demo_pair_taps :: "host_cb event list" where
  "demo_pair_taps = [Tap_Begin CANTIL_TAP_DOUBLE, Tap_End, Tap_Begin CANTIL_TAP_DOUBLE, Tap_End, Tap_Begin CANTIL_TAP_SINGLE, Tap_End,
     Tap_Begin CANTIL_TAP_SINGLE, Tap_End, Elapse 1500, Silence]"

definition demo_pair_appliance :: "(memfs, nat, usb_state) appliance" where
  "demo_pair_appliance = \<lparr>ap_dev = demo_dev_state\<lparr>ds_ca := demo_pair_ca\<rparr>, ap_gest = demo_pair_gest, ap_user = demo_pair_taps,
     ap_sess = demo_ds, ap_link = usb_boot []\<rparr>"

abbreviation demo_pub :: "byte list" where "demo_pub \<equiv> replicate 32 7"

lemma demo_pair_answer:
  assumes "d = demo_pair_gest\<lparr>gest := snd (gesture_request_pair_confirm demo_gconf 0 pair_confirm_cb (gest demo_pair_gest))\<rparr>"
  shows "\<exists>d'. await_answer mem_api demo_gconf demo_pair_taps d = Some (CANTIL_CONFIRM_OK, [], d') \<and> gfs (gest d') = demo_pair_fs"
  unfolding assms demo_pair_taps_def
  by (simp add: demo_gesture_defs demo_pair_gest_def gesture_request_pair_confirm_def process_awaiting_pair_def SEQ_PAIRING_TRIGGER_def
      Let_def SEQ_MAX_LEN_def DIGIT_INVALID_def)

lemma demo_client_paths: "client_hex_path (client_bond_id demo_pub) f = ''/lfs/clients/07070707/'' @ f"
proof -
  have "client_bond_id demo_pub = [7, 7, 7, 7]" by (simp add: client_bond_id_def numeral_eq_Suc)
  then show ?thesis
    by (simp add: client_hex_path_def client_dir_def child_def clients_dir_def hex_digit_def char_of_eq_iff take_bit_eq_mod)
qed

lemma demo_unknown: "client_bond_exists mem_api demo_pub demo_pair_fs = Inr False"
  by (simp add: client_bond_exists_def storage_client_bond_exists_def demo_client_paths file_exists_def mem_stat_def demo_pair_fs_def is_1_def)

lemma demo_count_cb: "count_cb mem_api i u demo_pair_fs = (None, u, demo_pair_fs)"
proof -
  have "last (client_hex_path i ''meta.bin'') = CHR ''n''" by (simp add: client_hex_path_def child_def)
  then have "map_of demo_pair_fs (client_hex_path i ''meta.bin'') = None" by (auto simp: demo_pair_fs_def)
  then show ?thesis by (simp add: count_cb_def storage_client_bond_meta_read_def read_file_def mem_open_r_def)
qed

lemma iter_idle: "(\<And>k. cb k u s = (None, u, s)) \<Longrightarrow> iter_entries sel cb es u s = (None, u, s)"
  by (induction es) (auto split: option.split)

lemma demo_count: "client_bond_count mem_api demo_pair_fs = Inr (0, 0)"
proof -
  have "\<exists>es. mem_list clients_dir demo_pair_fs = Inr es" by (simp add: mem_list_def demo_pair_fs_def clients_dir_def)
  then show ?thesis by (auto simp: client_bond_count_def storage_client_bonds_iter_def iter_idle [where cb = "count_cb mem_api" and s = demo_pair_fs, OF demo_count_cb])
qed

lemma demo_add: "\<exists>v. client_bond_add mem_api (pair_caps demo_pair_conf) demo_pub CLIENT_KIND_HOST 0 (ca_vol demo_pair_ca) = Some (None, v)"
proof -
  let ?s = "\<lambda>d. AList.update ''/lfs/clients/07070707/pubkey.bin'' (File d) demo_pair_fs"
  have w: "write_file mem_api ''/lfs/clients/07070707/pubkey.bin'' d demo_pair_fs = (None, ?s d)" for d
    by (subst mem_write_file) (simp_all add: demo_pair_fs_def path_ok_def comp_ok_def name_ok_def upt_rec)
  have w2: "\<exists>s. write_file mem_api ''/lfs/clients/07070707/meta.bin'' e (?s d) = (None, s)" for d e
    by (subst mem_write_file) (simp_all add: demo_pair_fs_def path_ok_def comp_ok_def name_ok_def upt_rec update_conv')
  have e: "storage_client_bond_exists mem_api (client_bond_id demo_pub) demo_pair_fs = Inr False"
    by (simp add: storage_client_bond_exists_def demo_client_paths file_exists_def mem_stat_def demo_pair_fs_def)
  obtain s where "write_file mem_api ''/lfs/clients/07070707/meta.bin'' (client_meta_bytes (new_client_meta CLIENT_KIND_HOST 0))
      (?s demo_pub) = (None, s)" using w2 by blast
  with w e demo_count show ?thesis
    by (simp add: client_bond_add_def demo_pair_ca_def demo_pair_conf_def Let_def storage_volume_may_mint_def is_1_def
        storage_client_bond_pubkey_write_def storage_client_bond_meta_write_def demo_client_paths)
qed

lemma demo_pairs: "\<exists>A'. pairing_check_and_bond demo_proto demo_pair_conf usb_transport demo_pub demo_pair_appliance = Some (Returned None, A')"
proof -
  let ?A = demo_pair_appliance and ?req = "gesture_request_pair_confirm demo_gconf 0 pair_confirm_cb (gest demo_pair_gest)"
  have ok: "fst ?req = None" by (simp add: gesture_request_pair_confirm_def demo_pair_gest_def power_on_def)
  obtain d where d: "await_answer mem_api demo_gconf demo_pair_taps (demo_pair_gest\<lparr>gest := snd ?req\<rparr>) = Some (CANTIL_CONFIRM_OK, [], d)"
    and fs: "gfs (gest d) = demo_pair_fs" using demo_pair_answer [OF refl] by blast
  obtain v where v: "client_bond_add mem_api (pair_caps demo_pair_conf) demo_pub CLIENT_KIND_HOST 0 (ca_vol demo_pair_ca) = Some (None, v)"
    using demo_add by blast
  let ?B = "from_gest (demo_pair_gest\<lparr>gest := snd ?req\<rparr>) ?A"
  let ?D = "from_gest d (?B\<lparr>ap_user := []\<rparr>)"
  have env: "pe_fs demo_proto = mem_api" "pe_gest demo_proto = demo_gconf" by (simp_all add: demo_proto_def demo_dev_def demo_env_def)
  have A: "to_gest ?A = demo_pair_gest" "clock demo_pair_gest = 0" "ap_user ?A = demo_pair_taps" "ap_fs ?A = demo_pair_fs"
    by (simp_all add: demo_pair_appliance_def to_gest_def demo_pair_gest_def power_on_def demo_pair_ca_def)
  have ca: "ap_ca ?D = demo_pair_ca"
    using fs by (simp add: from_gest_def put_ap_fs_def put_ca_def put_fs_def demo_pair_ca_def demo_pair_appliance_def)
  have "pairing_method demo_pair_conf = PAIRING_TAP_CONFIRM" "max_client_bonds (pair_caps demo_pair_conf) = 8"
    by (simp_all add: demo_pair_conf_def)
  then have "pairing_check_and_bond demo_proto demo_pair_conf usb_transport demo_pub ?A = commit_bond demo_proto demo_pair_conf demo_pub ?D"
    using ok d by (simp add: pairing_check_and_bond_def known_or_def env A demo_unknown room_or_reject_def demo_count
        tap_confirm_and_bond_def request_pair_def run_gest_def Let_def split_beta run_wait_def)
  with v show ?thesis by (simp add: commit_bond_def run_vol_def env ca returns_def)
qed

lemma demo_pair_inv: "gesture_inv (pe_gest demo_proto) (gest (ap_gest demo_pair_appliance))"
  by (simp add: demo_pair_appliance_def demo_proto_def gesture_inv_def demo_pair_gest_def power_on_def SEQ_MAX_LEN_def
      is_factory_default_def SEQ_UNLOCK_DEFAULT_def seq_match_def demo_gconf_def demo_conf_def)

subsection \<open>Properties\<close>

text \<open>
  C3: No client is paired without the user.  With the methods that ask the user, the gate lets a
  client in only if its key was bonded before, or the user entered the pairing sequence after
  the prompt for it; with the passkey methods the client's next message contained the passkey
  that the device had drawn and shown; with the anchored one the client's chain verified
  against the anchor.  A client that the tap method turns away leaves the device as it was.
\<close>

theorem pairing_needs_user:
  assumes "pairing_method C \<in> {PAIRING_PASSKEY, PAIRING_TAP_CONFIRM, PAIRING_CA_ANCHOR_PLUS_PASSKEY}"
    and "gesture_inv (pe_gest P) (gest (ap_gest A))" and "pairing_check_and_bond P C T pub A = Some (out, A')"
  shows "gesture_inv (pe_gest P) (gest (ap_gest A'))
    \<and> (out = Returned None \<longrightarrow> client_bond_exists (pe_fs P) pub (ap_fs A) = Inr True \<or> pair_typed P A A'
        \<and> (pairing_method C \<noteq> PAIRING_TAP_CONFIRM \<longrightarrow> passkey_sent P T A)
        \<and> (pairing_method C = PAIRING_CA_ANCHOR_PLUS_PASSKEY \<longrightarrow>
             ca_validate_client_cert_chain (pe_ca P) (client_certs (ap_sess A)) (ca_anchor_slot C) (ap_fs A) = None))
    \<and> (pairing_method C = PAIRING_TAP_CONFIRM \<and> ap_dev A' \<noteq> ap_dev A \<longrightarrow> pair_typed P A A')"
proof -
  have inv: "ap_inv (pe_gest P) A" using assms(2) by (simp add: ap_inv_def)
  consider (passkey) "pairing_method C = PAIRING_PASSKEY" | (tap) "pairing_method C = PAIRING_TAP_CONFIRM"
    | (anchored) "pairing_method C = PAIRING_CA_ANCHOR_PLUS_PASSKEY" using assms(1) by blast
  then show ?thesis
  proof cases
    case passkey
    with assms(3) have "known_or P pub (room_or_reject P C (passkey_exchange_and_bond P C T pub)) A = Some (out, A')"
      by (simp add: pairing_check_and_bond_def)
    then show ?thesis using passkey inv exchange_cases [of P C T pub A out A']
      by (auto elim!: known_or_cases room_cases simp: ap_inv_def)
  next
    case tap
    with assms(3) have "known_or P pub (room_or_reject P C (tap_confirm_and_bond P C pub)) A = Some (out, A')"
      by (simp add: pairing_check_and_bond_def)
    then show ?thesis using tap inv tap_cases [of P C pub A out A']
      by (auto elim!: known_or_cases room_cases simp: ap_inv_def)
  next
    case anchored
    with assms(3) have "known_or P pub (anchored_or_reject P C (room_or_reject P C (passkey_exchange_and_bond P C T pub))) A
        = Some (out, A')" by (simp add: pairing_check_and_bond_def)
    then show ?thesis using anchored inv exchange_cases [of P C T pub A out A']
      by (auto elim!: known_or_cases anchored_cases room_cases simp: ap_inv_def)
  qed
qed

theorem pairing_needs_user_witness:
  "\<exists>A'. pairing_check_and_bond demo_proto demo_pair_conf usb_transport demo_pub demo_pair_appliance = Some (Returned None, A')
    \<and> pair_typed demo_proto demo_pair_appliance A'"
proof -
  obtain A' where run: "pairing_check_and_bond demo_proto demo_pair_conf usb_transport demo_pub demo_pair_appliance = Some (Returned None, A')"
    using demo_pairs by blast
  have m: "pairing_method demo_pair_conf \<in> {PAIRING_PASSKEY, PAIRING_TAP_CONFIRM, PAIRING_CA_ANCHOR_PLUS_PASSKEY}"
    by (simp add: demo_pair_conf_def)
  have "client_bond_exists (pe_fs demo_proto) demo_pub (ap_fs demo_pair_appliance) = Inr False"
    using demo_unknown by (simp add: demo_proto_def demo_dev_def demo_env_def demo_pair_appliance_def demo_pair_ca_def)
  with pairing_needs_user [OF m demo_pair_inv run] run show ?thesis by auto
qed

text \<open>
  C40: A client that was let in is remembered.  On a writable volume with a valid marker, after the
  tap or the first-use method has accepted a client, the client's key is bonded, and the gate
  lets it in again, at once and without a prompt, as long as the store is unchanged.
\<close>

theorem paired_is_known:
  assumes "fs_reliable (pe_fs P) mounted view" and "mounted (ap_fs A)" and "plain_errors (pe_fs P)"
    and "storage_volume_may_mint (pe_fs P) (ca_vol (ap_ca A))" and "length pub = 32"
    and "pairing_method C \<in> {PAIRING_TAP_CONFIRM, PAIRING_TOFU}" and "gesture_inv (pe_gest P) (gest (ap_gest A))"
    and "pairing_check_and_bond P C T pub A = Some (Returned None, A')"
  shows "client_bond_exists (pe_fs P) pub (ap_fs A') = Inr True
    \<and> (ap_fs B = ap_fs A' \<longrightarrow> pairing_check_and_bond P C T pub B = Some (Returned None, B))"
proof -
  have inv: "ap_inv (pe_gest P) A" using assms(7) by (simp add: ap_inv_def)
  have "client_bond_exists (pe_fs P) pub (ap_fs A') = Inr True"
  proof (cases "pairing_method C = PAIRING_TOFU")
    case True
    with assms(8) have "known_or P pub (commit_bond P C pub) A = Some (Returned None, A')" by (simp add: pairing_check_and_bond_def)
    then show ?thesis using commit_known [OF assms(1,2,5,3,4)] by (auto elim!: known_or_cases)
  next
    case False
    with assms(6,8) have "known_or P pub (room_or_reject P C (tap_confirm_and_bond P C pub)) A = Some (Returned None, A')"
      by (auto simp: pairing_check_and_bond_def)
    then show ?thesis
    proof (cases rule: known_or_cases)
      case unknown
      then have "tap_confirm_and_bond P C pub A = Some (Returned None, A')" by (auto elim: room_cases)
      from this [unfolded tap_confirm_and_bond_def] inv show ?thesis
      proof (cases rule: request_pair_cases)
        case (answered r A1)
        then have "commit_bond P C pub A1 = Some (Returned None, A')" by (auto simp: returns_def split: if_splits)
        from commit_known [OF assms(1) _ assms(5,3) _ _ this] answered(2) assms(2,4) unknown(1) show ?thesis by simp
      qed (simp add: returns_def)
    qed auto
  qed
  with assms(6) show ?thesis by (auto simp: pairing_check_and_bond_def known_or_def returns_def)
qed

theorem paired_is_known_witness:
  "\<exists>A'. pairing_check_and_bond demo_proto demo_pair_conf usb_transport demo_pub demo_pair_appliance = Some (Returned None, A')
    \<and> client_bond_exists mem_api demo_pub (ap_fs A') = Inr True
    \<and> pairing_check_and_bond demo_proto demo_pair_conf usb_transport demo_pub A' = Some (Returned None, A')"
proof -
  obtain A' where run: "pairing_check_and_bond demo_proto demo_pair_conf usb_transport demo_pub demo_pair_appliance = Some (Returned None, A')"
    using demo_pairs by blast
  have env: "pe_fs demo_proto = mem_api" by (simp add: demo_proto_def demo_dev_def demo_env_def)
  have rel: "fs_reliable (pe_fs demo_proto) mem_inv map_of" unfolding env by (rule memr.fs_reliable_axioms)
  have inv: "mem_inv (ap_fs demo_pair_appliance)"
    by (simp add: demo_pair_appliance_def demo_pair_ca_def demo_pair_fs_def mem_inv_def path_ok_def comp_ok_def name_ok_def upt_rec)
  have plain: "plain_errors (pe_fs demo_proto)"
    unfolding env by (simp add: plain_errors_def mem_mkdir_def mem_open_w_def mem_list_def split: option.split node.split)
  have mint: "storage_volume_may_mint (pe_fs demo_proto) (ca_vol (ap_ca demo_pair_appliance))"
    by (simp add: storage_volume_may_mint_def demo_pair_appliance_def demo_pair_ca_def)
  have m: "length demo_pub = 32" "pairing_method demo_pair_conf \<in> {PAIRING_TAP_CONFIRM, PAIRING_TOFU}" by (simp_all add: demo_pair_conf_def)
  from paired_is_known [OF rel inv plain mint m demo_pair_inv run] run env show ?thesis by auto
qed

end
