(* ===== verification/Device_Correct.thy ===== *)
theory Device_Correct
  imports Device_Main Pairing_Correct
begin

text \<open>
  The CA key over whole connections: the gesture engine, the pairing gate and the sessions
  leave the key file alone, and so a key that exists stays until the user resets the device.
\<close>

subsection \<open>What the gesture engine writes\<close>

definition config_write :: "'fs fs_api \<Rightarrow> 'fs \<Rightarrow> 'fs \<Rightarrow> bool" where
  "config_write F s s' \<longleftrightarrow> s' = s \<or> (\<exists>n. s' = snd (storage_unlock_attempts_write F n s))
    \<or> (\<exists>q. s' = snd (storage_unlock_seq_write F q s))"

lemma config_write_refl [simp]: "config_write F s s"
  by (simp add: config_write_def)

lemma process_writes: "config_write F (gfs g) (gfs (process_sequence F c now g))"
  by (cases "gstate g") (auto simp: process_sequence_def Let_def process_locked_def process_unlocked_def process_change_confirm_def
      process_change_verify_def process_awaiting_confirm_def process_awaiting_reset_def process_awaiting_pair_def
      deliver_confirm_def note_unlock_success_def note_unlock_failure_def config_write_def split_beta small_defs split: option.split)

lemma silence_writes: "config_write F (gfs g) (gfs (silence_timeout_fn F c now g))"
proof (cases "closed_digits c g = []")
  case True
  then show ?thesis
    by (cases "alphabet c") (auto simp: silence_timeout_fn_def closed_digits_def Let_def close_sequence_binary_locked_def
        close_digit_locked_def small_defs)
next
  case False
  with process_writes [of F "closed c g" c now] show ?thesis by (simp add: silence_closed)
qed

lemma event_writes:
  assumes "do_event F c e d = Some d'" and "e \<noteq> Reboot"
  shows "config_write F (gfs (gest d)) (gfs (gest d'))"
  using assms silence_writes [of F "(gest d)\<lparr>silence_due := None\<rparr>" c "clock d"]
  by (cases e) (auto simp: fire_Some timeouts_keep tap_ack_def small_defs tap_accumulate_def gesture_get_state_def
      gesture_set_unlock_seq_def gesture_reset_inactivity_timer_def gesture_request_confirm_def gesture_request_reset_def
      gesture_request_pair_confirm_def Let_def split_beta config_write_def split: if_splits list.splits option.splits alphabet.splits)

context fs_laws begin

lemma config_kept: "config_write F s s' \<Longrightarrow> kept mounted view (slot_path i ''key.bin'') s s'"
  using fs_frameD [OF frame_write [OF config_not_key(1)]] fs_frameD [OF frame_write [OF config_not_key(2)]]
  by (auto simp: config_write_def storage_unlock_attempts_write_def storage_unlock_seq_write_def intro: kept_refl)
    (metis prod.collapse)+

lemma sleep_kept:
  assumes "sleep_until F c t es d = Some (es', d')"
  shows "kept mounted view (slot_path i ''key.bin'') (gfs (gest d)) (gfs (gest d'))"
  using assms
proof (induction es arbitrary: d)
  case (Cons e es)
  show ?case
  proof (cases "clock d \<ge> t")
    case False
    with Cons.prems obtain d1 where d1: "e \<noteq> Reboot" "do_event F c e d = Some d1" "sleep_until F c t es d1 = Some (es', d')"
      by (auto simp: bind_eq_Some_conv split: if_splits)
    from kept_trans [OF config_kept [OF event_writes [OF d1(2,1)]] Cons.IH [OF d1(3)]] show ?thesis .
  qed (use Cons.prems in \<open>auto intro: kept_refl\<close>)
qed (auto intro: kept_refl split: if_splits)

end

subsection \<open>The pairing gate\<close>

lemma g_frame_returns [hframe]: "h_frame c M V q (returns rc)" "h_frame c M V q (\<lambda>A. Some (Out_of_buffer, A))"
  by (simp_all add: h_frame_def returns_def)

lemma g_frame_rng [hframe]:
  assumes "\<And>x. h_frame c M V q (k x)"
  shows "h_frame c M V q (run_rng f k)"
proof (rule h_frameI)
  fix A out A' assume run: "run_rng f k A = Some (out, A')" and inv: "ap_inv c A"
  obtain x r where f: "f (ca_rng (ap_ca A)) = (x, r)" by (metis surj_pair)
  with run have "k x (put_ca ((ap_ca A)\<lparr>ca_rng := r\<rparr>) A) = Some (out, A')" by (simp add: run_rng_def)
  from h_frame_step [OF assms _ _ this, of A] inv show "ap_inv c A' \<and> kept M V q (ap_fs A) (ap_fs A')" by simp
qed

lemma g_frame_vol:
  assumes "\<And>v x v'. m v = Some (x, v') \<Longrightarrow> kept M V q (vfs v) (vfs v')" and "\<And>x. h_frame c M V q (k x)"
  shows "h_frame c M V q (run_vol m k)"
proof (rule h_frameI)
  fix A out A' assume run: "run_vol m k A = Some (out, A')" and inv: "ap_inv c A"
  then obtain x v where m: "m (ca_vol (ap_ca A)) = Some (x, v)" "k x (put_ca ((ap_ca A)\<lparr>ca_vol := v\<rparr>) A) = Some (out, A')"
    by (auto simp: run_vol_def bind_eq_Some_conv)
  from h_frame_step [OF assms(2) _ _ m(2), of A] inv assms(1) [OF m(1)]
  show "ap_inv c A' \<and> kept M V q (ap_fs A) (ap_fs A')" by simp
qed

lemma g_frame_recv [hframe]:
  assumes "\<And>x. h_frame c M V q (k x)"
  shows "h_frame c M V q (run_recv P T cap k)"
proof (rule h_frameI)
  fix A out A' assume run: "run_recv P T cap k A = Some (out, A')" and inv: "ap_inv c A"
  then obtain x s t where "k x (A\<lparr>ap_sess := s, ap_link := t\<rparr>) = Some (out, A')" by (auto simp: run_recv_def bind_eq_Some_conv)
  from h_frame_step [OF assms _ _ this, of A] inv show "ap_inv c A' \<and> kept M V q (ap_fs A) (ap_fs A')" by simp
qed

lemma g_frame_reply [hframe]: "h_frame c M V q k \<Longrightarrow> h_frame c M V q (send_reply P T seq err k)"
  unfolding send_reply_def by (intro hframe)

lemma g_frame_led [hframe]:
  "(\<And>x. h_frame c M V q (k x)) \<Longrightarrow> h_frame c M V q (run_gest (\<lambda>_ g. ((), led_set_idle p g)) k)"
  by (rule h_frame_run_gest) (simp_all add: led_set_idle_def gesture_inv_def)

lemma g_frame_pair [hframe]:
  assumes "\<And>e. h_frame (pe_gest P) M V q (busy e)" and "\<And>r. h_frame (pe_gest P) M V q (k r)"
  shows "h_frame (pe_gest P) M V q (request_pair P busy k)"
proof (rule h_frameI)
  fix A out A' assume run: "request_pair P busy k A = Some (out, A')" and inv: "ap_inv (pe_gest P) A"
  from run inv show "ap_inv (pe_gest P) A' \<and> kept M V q (ap_fs A) (ap_fs A')"
  proof (cases rule: request_pair_cases)
    case (busy e A1)
    from h_frameD [OF assms(1) busy(1,3)] busy(2) show ?thesis by simp
  next
    case (answered r A1)
    from h_frameD [OF assms(2) answered(1,3)] answered(2) show ?thesis by simp
  qed
qed

lemma g_frame_checks [hframe]:
  "h_frame c M V q k \<Longrightarrow> h_frame c M V q (known_or P pub k)" "h_frame c M V q k \<Longrightarrow> h_frame c M V q (room_or_reject P C k)"
  "h_frame c M V q k \<Longrightarrow> h_frame c M V q (anchored_or_reject P C k)"
  unfolding h_frame_def
  by (auto simp: known_or_def room_or_reject_def anchored_or_reject_def returns_def Let_def split: sum.splits bool.splits if_splits)

lemma g_frame_bind [hframe]: "(\<And>x. h_frame c M V q (f x)) \<Longrightarrow> h_frame c M V q (\<lambda>A. Option.bind m (\<lambda>x. f x A))"
  by (auto simp: h_frame_def bind_eq_Some_conv)

lemma g_frame_reply_case [hframe]:
  "(\<And>seq err. h_frame c M V q (f seq err)) \<Longrightarrow> (\<And>seq. h_frame c M V q (g seq)) \<Longrightarrow> h_frame c M V q h \<Longrightarrow>
    h_frame c M V q (case r of Bad_reply seq err \<Rightarrow> f seq err | Right_passkey seq \<Rightarrow> g seq | Reply_outside \<Rightarrow> h)"
  by (cases r) simp_all

lemma g_frame_at: "(\<And>x. h_frame c M V q (f x)) \<Longrightarrow> h_frame c M V q (\<lambda>A. f (g A) A)"
  by (auto simp: h_frame_def)

context fs_laws begin

lemma g_frame_sleep:
  assumes "pe_fs P = F" and "h_frame (pe_gest P) mounted view (slot_path i ''key.bin'') k"
  shows "h_frame (pe_gest P) mounted view (slot_path i ''key.bin'') (run_sleep P ms k)"
proof (rule h_frameI)
  fix A out A' assume run: "run_sleep P ms k A = Some (out, A')" and inv: "ap_inv (pe_gest P) A"
  then obtain es d where s: "sleep_until F (pe_gest P) (clock (to_gest A) + ms) (ap_user A) (to_gest A) = Some (es, d)"
    and k: "k (from_gest d (A\<lparr>ap_user := es\<rparr>)) = Some (out, A')" using assms(1) by (auto simp: run_sleep_def bind_eq_Some_conv)
  from h_frame_step [OF assms(2) _ _ k, of A] inv sleep_kept [OF s] sleep_until_ends [OF s]
  show "ap_inv (pe_gest P) A' \<and> kept mounted view (slot_path i ''key.bin'') (ap_fs A) (ap_fs A')" by simp
qed

lemma g_frame_blink:
  assumes "pe_fs P = F" and "h_frame (pe_gest P) mounted view (slot_path i ''key.bin'') k"
  shows "h_frame (pe_gest P) mounted view (slot_path i ''key.bin'') (blink_digits P pause ds k)"
  by (induction ds) (auto intro!: assms(2) g_frame_sleep [OF assms(1)])

lemma g_frame_commit:
  assumes "pe_fs P = F"
  shows "h_frame (pe_gest P) mounted view (slot_path i ''key.bin'') (commit_bond P C pub)"
  unfolding commit_bond_def assms by (intro g_frame_vol hframe) (rule frame_bond_add)

lemma g_frame_psk:
  assumes "pe_fs P = F"
  shows "h_frame (pe_gest P) mounted view (slot_path i ''key.bin'') (bond_with_psk P C T pub pk seq)"
proof -
  let ?q = "slot_path i ''key.bin''"
  have w: "kept mounted view ?q s s'" if "Some (storage_client_bond_psk_write F b d s) = Some (r, s')" for b d s r s'
    using fs_frameD [OF frame_write [OF client_not_key(1)]] that by (auto simp: storage_client_bond_psk_write_def)
  show ?thesis
    unfolding bond_with_psk_def Let_def assms
    by (rule g_frame_at) (intro hframe g_frame_vol h_frame_run_fs; (erule frame_bond_add w)?)
qed

lemma g_frame_gate:
  assumes "pe_fs P = F"
  shows "h_frame (pe_gest P) mounted view (slot_path i ''key.bin'') (pairing_check_and_bond P C T pub)"
proof -
  have e: "h_frame (pe_gest P) mounted view (slot_path i ''key.bin'') (passkey_exchange_and_bond P C T pub)"
    unfolding passkey_exchange_and_bond_def blink_passkey_def
    by (intro hframe g_frame_blink [OF assms] g_frame_psk [OF assms])
  have t: "h_frame (pe_gest P) mounted view (slot_path i ''key.bin'') (tap_confirm_and_bond P C pub)"
    unfolding tap_confirm_and_bond_def by (intro hframe g_frame_commit [OF assms])
  show ?thesis
    by (cases "pairing_method C") (simp_all add: pairing_check_and_bond_def hframe e t g_frame_commit [OF assms])
qed

end

subsection \<open>Sessions\<close>

definition on_fs :: "'fs \<Rightarrow> ('x \<times> ('fs, 'r) dev_state \<times> 't) option \<Rightarrow> bool" where
  "on_fs s m \<longleftrightarrow> (\<forall>r S t. m = Some (r, S, t) \<longrightarrow> ds_fs S = s)"

lemma on_fs_rules:
  "ds_fs S = s \<Longrightarrow> on_fs s (Some (r, S, t))"
  "on_fs s a \<Longrightarrow> on_fs s b \<Longrightarrow> on_fs s (if c then a else b)"
  "(\<And>e. on_fs s (f e)) \<Longrightarrow> (\<And>x. on_fs s (g x)) \<Longrightarrow> on_fs s (case y of Inl e \<Rightarrow> f e | Inr x \<Rightarrow> g x)"
  "on_fs s a \<Longrightarrow> (\<And>x. on_fs s (h x)) \<Longrightarrow> on_fs s (case z of None \<Rightarrow> a | Some x \<Rightarrow> h x)"
  "(\<And>u v. on_fs s (k u v)) \<Longrightarrow> on_fs s (case p of (u, v) \<Rightarrow> k u v)"
  "(\<And>x. on_fs s (l x)) \<Longrightarrow> on_fs s (Option.bind m l)"
  by (auto simp: on_fs_def bind_eq_Some_conv split: sum.splits option.splits prod.splits)

lemma open_keeps: "session_open D T e u S t = Some (r, S', t') \<Longrightarrow> ds_fs S' = ds_fs S"
proof -
  obtain x S1 where S1: "dev_rng (noise_crypto_dh_keygen (dv_wc D) (dv_noise D)) S = (x, S1)" by (metis surj_pair)
  then have fs: "ds_fs S1 = ds_fs S" by (auto simp: dev_rng_def ca_do_def rng_do_def split: prod.splits)
  have "on_fs (ds_fs S) (session_open D T e u S t)"
    unfolding session_open_def Let_def S1 prod.case by (intro on_fs_rules fs refl)
  then show "session_open D T e u S t = Some (r, S', t') \<Longrightarrow> ds_fs S' = ds_fs S" by (simp add: on_fs_def)
qed

lemma activity_simps [simp]: "ap_inv c (activity A) = ap_inv c A" "ap_fs (activity A) = ap_fs A"
  by (simp_all add: activity_def Let_def gesture_reset_inactivity_timer_def ap_inv_def to_gest_def gesture_inv_def)

lemma close_simps [simp]: "ap_inv c (session_close A) = ap_inv c A" "ap_dev (session_close A) = ap_dev A"
  by (simp_all add: session_close_def)

text \<open>
  \<open>stays M V q A out A'\<close>: unless the device was reset, a file at \<open>q\<close> is still there with its content.
\<close>

definition stays :: "gconf \<Rightarrow> ('fs \<Rightarrow> bool) \<Rightarrow> ('fs \<Rightarrow> string \<Rightarrow> node option) \<Rightarrow> string \<Rightarrow> ('fs, 'r, 't) gate \<Rightarrow> bool" where
  "stays c M V q h \<longleftrightarrow> (\<forall>A out A'. h A = Some (out, A') \<longrightarrow> ap_inv c A \<longrightarrow>
    ap_inv c A' \<and> (out = Rebooted Cold \<or> survives M V q (ap_fs A) (ap_fs A')))"

lemma staysD: "stays c M V q h \<Longrightarrow> h A = Some (out, A') \<Longrightarrow> ap_inv c A \<Longrightarrow>
    ap_inv c A' \<and> (out = Rebooted Cold \<or> survives M V q (ap_fs A) (ap_fs A'))"
  by (simp add: stays_def)

lemma frame_stays: "h_frame c M V q h \<Longrightarrow> stays c M V q h"
  by (auto simp: stays_def h_frame_def intro: kept_survives)

lemma stays_then:
  assumes "stays c M V q h" and "\<And>out. out \<noteq> Rebooted Cold \<Longrightarrow> stays c M V q (k out)"
    and "k (Rebooted Cold) = (\<lambda>A. Some (Rebooted Cold, A))"
  shows "stays c M V q (\<lambda>A. Option.bind (h A) (\<lambda>(out, A). k out A))"
  unfolding stays_def
proof (intro allI impI)
  fix A out A' assume run: "Option.bind (h A) (\<lambda>(out, A). k out A) = Some (out, A')" and inv: "ap_inv c A"
  then obtain o1 A1 where h: "h A = Some (o1, A1)" and k: "k o1 A1 = Some (out, A')" by (auto simp: bind_eq_Some_conv)
  note h = staysD [OF assms(1) h inv]
  show "ap_inv c A' \<and> (out = Rebooted Cold \<or> survives M V q (ap_fs A) (ap_fs A'))"
  proof (cases "o1 = Rebooted Cold")
    case True
    with k h assms(3) show ?thesis by simp
  next
    case False
    from staysD [OF assms(2) [OF False] k] h False survives_trans [of M V q "ap_fs A" "ap_fs A1" "ap_fs A'"] show ?thesis by auto
  qed
qed

lemma stays_cases:
  "stays c M V q a \<Longrightarrow> stays c M V q b \<Longrightarrow> stays c M V q (\<lambda>A. if p A then a A else b A)"
  "stays c M V q a \<Longrightarrow> (\<And>x. stays c M V q (h x)) \<Longrightarrow> stays c M V q (\<lambda>A. case y of None \<Rightarrow> a A | Some x \<Rightarrow> h x A)"
  by (simp_all add: stays_def split: option.split)

lemma stays_from:
  assumes "stays c M V q k" and "\<And>A. ap_inv c A \<Longrightarrow> ap_inv c (f A)" and "\<And>A. ap_fs (f A) = ap_fs A"
  shows "stays c M V q (\<lambda>A. k (f A))"
  using assms by (fastforce simp: stays_def)

context fs_reliable begin

abbreviation ca_key :: string where "ca_key \<equiv> slot_path 0 ''key.bin''"

lemma request_stays:
  assumes "pe_fs P = F" and "max_key_slots (pe_ca P) \<le> 2 ^ 32"
  shows "stays (pe_gest P) mounted view ca_key (protocol_handle_one P T)"
  unfolding stays_def
proof (intro allI impI)
  fix A out A' assume run: "protocol_handle_one P T A = Some (out, A')" and inv: "ap_inv (pe_gest P) A"
  from run show "ap_inv (pe_gest P) A' \<and> (out = Rebooted Cold \<or> survives mounted view ca_key (ap_fs A) (ap_fs A'))"
  proof (cases rule: handle_one_cases)
    case (early sess t)
    with inv show ?thesis by (simp add: kept_survives)
  next
    case (handled cmd seq data h sess t A1 sess' t')
    have "ap_inv (pe_gest P) (A\<lparr>ap_sess := sess, ap_link := t\<rparr>)" using inv by simp
    from gated_key [OF assms handled(1) this] handled(2,3) show ?thesis by (auto intro: kept_survives)
  qed
qed

lemma requests_stay:
  assumes "pe_fs P = F" and "max_key_slots (pe_ca P) \<le> 2 ^ 32"
  shows "stays (pe_gest P) mounted view ca_key (serve_requests P T)"
proof -
  let ?ok = "\<lambda>A y. ap_inv (pe_gest P) A \<longrightarrow> ap_inv (pe_gest P) (snd y)
    \<and> (fst y = Rebooted Cold \<or> survives mounted view ca_key (ap_fs A) (ap_fs (snd y)))"
  let ?Q = "\<lambda>((P', T'), A) y. P' = P \<and> T' = T \<longrightarrow> ?ok A y"
  have "?Q ((P, T), A) y" if "serve_requests P T A = Some y" for A y
  proof (rule serve_requests.raw_induct [OF _ that])
    fix rec P' T' A y
    assume ih: "\<And>P' T' A y. rec P' T' A = Some y \<Longrightarrow> ?Q ((P', T'), A) y"
      and body: "Option.bind (protocol_handle_one P' T' A) (\<lambda>(out, A). case out of Returned None \<Rightarrow> rec P' T' (activity A)
        | Returned (Some e) \<Rightarrow> Some (Returned None, A) | Rebooted k \<Rightarrow> Some (out, A) | Out_of_buffer \<Rightarrow> Some (out, A)) = Some y"
    have "?ok A y" if PT: "P' = P" "T' = T"
    proof
      assume inv: "ap_inv (pe_gest P) A"
      from body PT obtain out A1 where one: "protocol_handle_one P T A = Some (out, A1)" by (auto simp: bind_eq_Some_conv)
      note st = staysD [OF request_stays [OF assms] one inv]
      show "ap_inv (pe_gest P) (snd y) \<and> (fst y = Rebooted Cold \<or> survives mounted view ca_key (ap_fs A) (ap_fs (snd y)))"
      proof (cases "out = Returned None")
        case True
        with body PT one have "rec P T (activity A1) = Some y" by simp
        from ih [OF this] st True survives_trans [of mounted view ca_key "ap_fs A" "ap_fs A1" "ap_fs (snd y)"] show ?thesis by auto
      next
        case False
        with body PT one st show ?thesis by (cases out) (auto split: option.splits)
      qed
    qed
    then show "?Q ((P', T'), A) y" by simp
  qed
  note ok = this
  show ?thesis
    unfolding stays_def
  proof (intro allI impI)
    fix A out A' assume "serve_requests P T A = Some (out, A')" "ap_inv (pe_gest P) A"
    with ok [OF this(1)] show "ap_inv (pe_gest P) A' \<and> (out = Rebooted Cold \<or> survives mounted view ca_key (ap_fs A) (ap_fs A'))" by simp
  qed
qed

lemma sleep_stays: "pe_fs P = F \<Longrightarrow> stays (pe_gest P) mounted view ca_key (run_sleep P ms (returns rc))"
  by (intro frame_stays g_frame_sleep hframe)

lemma close_stays: "pe_fs P = F \<Longrightarrow> stays (pe_gest P) mounted view ca_key (\<lambda>A. run_sleep P ms (returns rc) (session_close A))"
  by (rule stays_from [OF sleep_stays]) simp_all

lemma done_stays: "stays c M V q (\<lambda>A. Some (out, A))"
  by (simp add: stays_def kept_survives)

lemma session_stays:
  assumes "pe_fs P = F" and "max_key_slots (pe_ca P) \<le> 2 ^ 32"
  shows "stays (pe_gest P) mounted view ca_key (serve_session P T)"
proof -
  let ?k = "\<lambda>out A. if out = Returned None then run_sleep P 10 (returns None) (session_close A) else Some (out, A)"
  have k: "stays (pe_gest P) mounted view ca_key (?k out)" for out
    by (cases "out = Returned None") (simp_all add: close_stays [OF assms(1)] done_stays)
  have r: "stays (pe_gest P) mounted view ca_key (\<lambda>A. serve_requests P T (activity A))"
    by (rule stays_from [OF requests_stay [OF assms]]) simp_all
  show ?thesis
    unfolding serve_session_def [abs_def] by (rule stays_then [where k = ?k, OF r k]) simp
qed

lemma client_stays:
  assumes "pe_fs P = F" and "max_key_slots (pe_ca P) \<le> 2 ^ 32"
  shows "stays (pe_gest P) mounted view ca_key (serve_client P C T)"
proof -
  let ?k = "\<lambda>out A. case out of Returned None \<Rightarrow> serve_session P T A
    | Returned (Some e) \<Rightarrow> run_sleep P 100 (returns None) (session_close A) | Rebooted k \<Rightarrow> Some (out, A) | Out_of_buffer \<Rightarrow> Some (out, A)"
  have k: "stays (pe_gest P) mounted view ca_key (?k out)" for out
    by (cases out) (simp_all add: close_stays [OF assms(1)] done_stays session_stays [OF assms] stays_cases)
  have g: "stays (pe_gest P) mounted view ca_key (\<lambda>A. Option.bind (pairing_check_and_bond P C T pub A) (\<lambda>(out, A). ?k out A))" for pub
    by (rule stays_then [where k = ?k, OF frame_stays [OF g_frame_gate [OF assms(1)]] k]) simp
  show ?thesis
    unfolding stays_def serve_client_def using staysD [OF session_stays [OF assms, of T]] staysD [OF g]
    by (auto split: sum.splits)
qed

lemma open_stays:
  assumes "pe_fs P = F" and "max_key_slots (pe_ca P) \<le> 2 ^ 32"
  shows "stays (pe_gest P) mounted view ca_key (open_and_serve P C T flush)"
  unfolding stays_def
proof (intro allI impI)
  fix A out A' assume run: "open_and_serve P C T flush A = Some (out, A')" and inv: "ap_inv (pe_gest P) A"
  then obtain r S t where o: "session_open (pe_dev P) T None False (ap_dev A) (flush (ap_link A)) = Some (r, S, t)"
    by (auto simp: open_and_serve_def bind_eq_Some_conv)
  let ?A = "A\<lparr>ap_dev := S, ap_link := t\<rparr>"
  let ?k = "\<lambda>A. case r of Open_err e \<Rightarrow> run_sleep P 100 (returns None) A | Open_fault \<Rightarrow> Some (Out_of_buffer, A)
    | Open_ok sess \<Rightarrow> serve_client P C T (A\<lparr>ap_sess := sess\<rparr>)"
  have c: "stays (pe_gest P) mounted view ca_key (\<lambda>A. serve_client P C T (A\<lparr>ap_sess := sess\<rparr>))" for sess
    by (rule stays_from [OF client_stays [OF assms]]) simp_all
  have k: "stays (pe_gest P) mounted view ca_key ?k"
    by (cases r) (simp_all add: sleep_stays [OF assms(1)] done_stays c)
  from run o have "?k ?A = Some (out, A')" by (simp add: open_and_serve_def Let_def)
  from staysD [OF k this] inv open_keeps [OF o]
  show "ap_inv (pe_gest P) A' \<and> (out = Rebooted Cold \<or> survives mounted view ca_key (ap_fs A) (ap_fs A'))" by (simp add: ap_inv_def)
qed

lemma connection_stays:
  assumes "pe_fs P = F" and "max_key_slots (pe_ca P) \<le> 2 ^ 32"
  shows "stays (pe_gest P) mounted view ca_key (connection P C T flush)"
  unfolding stays_def connection_def
proof (intro allI impI)
  fix A out A' assume run: "run_sleep P 50 (open_and_serve P C T flush) A = Some (out, A')" and inv: "ap_inv (pe_gest P) A"
  then obtain es d where s: "sleep_until F (pe_gest P) (clock (to_gest A) + 50) (ap_user A) (to_gest A) = Some (es, d)"
    and k: "open_and_serve P C T flush (from_gest d (A\<lparr>ap_user := es\<rparr>)) = Some (out, A')"
    using assms(1) by (auto simp: run_sleep_def bind_eq_Some_conv)
  from staysD [OF open_stays [OF assms] k] sleep_until_ends [OF s] inv kept_survives [OF sleep_kept [OF s, of 0]]
    survives_trans [of mounted view ca_key "ap_fs A" "gfs (gest d)" "ap_fs A'"]
  show "ap_inv (pe_gest P) A' \<and> (out = Rebooted Cold \<or> survives mounted view ca_key (ap_fs A) (ap_fs A'))" by auto
qed

lemma main_loop_stays:
  assumes "pe_fs P = F" and "max_key_slots (pe_ca P) \<le> 2 ^ 32"
  shows "stays (pe_gest P) mounted view ca_key (main_loop n P C T flush active)"
proof (induction n)
  case 0
  show ?case by (simp add: done_stays)
next
  case (Suc n)
  let ?k = "\<lambda>out A. if out = Returned None then main_loop n P C T flush active A else Some (out, A)"
  have k: "stays (pe_gest P) mounted view ca_key (?k out)" for out
    using Suc by (cases "out = Returned None") (simp_all add: done_stays)
  have h: "stays (pe_gest P) mounted view ca_key
      (\<lambda>A. if active (ap_link A) then connection P C T flush A else run_sleep P 10 (returns None) A)"
    by (intro stays_cases connection_stays [OF assms] sleep_stays [OF assms(1)])
  show ?case unfolding main_loop.simps(2) [abs_def] by (rule stays_then [where k = ?k, OF h k]) simp
qed

end

subsection \<open>A client that is turned away\<close>

text \<open>A device with a CA key, and a client whose first message has one byte.\<close>

definition demo_link :: usb_state where
  "demo_link = \<lparr>usb_rx_ring = [], u_connected = True, u_fifo = [frame [1]], u_sent = [], u_now = 0\<rparr>"

definition demo_keyed :: "(memfs, nat, usb_state) appliance" where
  "demo_keyed = \<lparr>ap_dev = demo_dev_state\<lparr>ds_ca := demo_state\<rparr>, ap_gest = \<lparr>clock = 0, gest = (power_on demo_keys_fs)\<lparr>unlock_seq := [1, 2]\<rparr>, in_flight = []\<rparr>,
     ap_user = [Elapse 50, Elapse 100], ap_sess = demo_ds, ap_link = demo_link\<rparr>"

lemma demo_link_recv: "\<exists>t. recv_frame usb_transport 32 demo_link = Some (Inr [1], t)"
proof -
  have l: "recv_loop usb_transport 2 2000 [] demo_link
      = recv_loop usb_transport 2 2000 [] (usb_msleep demo_link)"
    by (subst recv_loop.simps) (simp add: usb_transport_def usb_recv_def demo_link_def)
  have r: "usb_rx_ring (usb_msleep demo_link) = [0, 1, 1]"
    by (simp add: usb_msleep_def demo_link_def usb_uart_isr_def USB_RX_RING_BYTES_def frame_def frame_header_def)
  from usb.recv_loop_delivers [of 2 "[]" "usb_msleep demo_link" 2000] r obtain t where
    h: "recv_loop usb_transport 2 2000 [] (usb_msleep demo_link) = Some (Inr [0, 1], t)" "\<exists>more. usb_rx_ring t = [1] @ more" by auto
  from usb.recv_exact_delivers [of t "[1]" _ 1] h(2) obtain t' where "raw_recv_exact usb_transport 1 t = Some (Inr [1], t')" by auto
  moreover have "raw_recv_exact usb_transport 2 demo_link = recv_loop usb_transport 2 2000 [] demo_link"
    by (simp add: raw_recv_exact_def RECV_TIMEOUT_MS_def usb_transport_def demo_link_def)
  ultimately show ?thesis using h(1) l by (simp add: recv_frame_def)
qed

lemma demo_open: "\<exists>S t. session_open demo_dev usb_transport None False (ap_dev demo_keyed) demo_link = Some (Open_err EPROTO, S, t)"
proof -
  obtain t where t: "recv_frame usb_transport 32 demo_link = Some (Inr [1], t)" using demo_link_recv by blast
  have k: "load_static_keypair demo_dev (ap_dev demo_keyed) = Inr (replicate 32 9, crypto_scalarmult_base demo_sodium (replicate 32 9))"
    by (simp add: load_static_keypair_def session_slot_is_ephemeral_def session_slot_get_ephemeral_static_def demo_keyed_def
        demo_dev_state_def demo_identity_def demo_sodium_def)
  obtain ep S where ep: "dev_rng (noise_crypto_dh_keygen (dv_wc demo_dev) (dv_noise demo_dev)) (ap_dev demo_keyed) = (Inr ep, S)"
    by (simp add: dev_rng_def ca_do_def rng_do_def noise_crypto_dh_keygen_def demo_dev_def demo_env_def demo_wc_def toy_wc_def
        demo_keyed_def demo_state_def demo_noise_def Let_def)
  obtain sy where "sym_mix_hash (dv_wc demo_dev) [] sym_init = Inr sy"
    using demo.mix_hash_agrees by (simp add: demo_dev_def)
  with t k ep show ?thesis by (simp add: session_open_def Let_def)
qed

lemma demo_round:
  "\<exists>A'. main_loop 1 demo_proto demo_pair_conf usb_transport transport_usb_flush_rx u_connected demo_keyed = Some (Returned None, A')"
proof -
  let ?A = demo_keyed
  have env: "pe_fs demo_proto = mem_api" "pe_gest demo_proto = demo_gconf" "pe_dev demo_proto = demo_dev"
    by (simp_all add: demo_proto_def demo_dev_def demo_env_def)
  obtain S t where o: "session_open demo_dev usb_transport None False (ap_dev ?A) demo_link = Some (Open_err EPROTO, S, t)"
    using demo_open by blast
  let ?d = "\<lambda>c. (to_gest ?A)\<lparr>clock := c\<rparr>"
  let ?B = "from_gest (?d 50) (?A\<lparr>ap_user := [Elapse 100]\<rparr>)"
  have "sleep_until mem_api demo_gconf 50 [Elapse 50, Elapse 100] (to_gest ?A) = Some ([Elapse 100], ?d 50)"
    by (simp add: demo_keyed_def to_gest_def)
  moreover have "clock (to_gest ?A) = 0" "ap_user ?A = [Elapse 50, Elapse 100]" "u_connected (ap_link ?A)"
    by (simp_all add: demo_keyed_def demo_link_def)
  ultimately have c: "connection demo_proto demo_pair_conf usb_transport transport_usb_flush_rx ?A
      = open_and_serve demo_proto demo_pair_conf usb_transport transport_usb_flush_rx ?B"
    by (simp add: connection_def run_sleep_def env(1,2))
  have B: "ap_dev ?B = ap_dev ?A" "transport_usb_flush_rx (ap_link ?B) = demo_link"
    by (simp_all add: from_gest_dev) (simp_all add: demo_keyed_def transport_usb_flush_rx_def demo_link_def)
  let ?C = "?B\<lparr>ap_dev := S, ap_link := t\<rparr>"
  have "clock (to_gest ?C) = 50" "ap_user ?C = [Elapse 100]" by simp_all
  then have "\<exists>A'. run_sleep demo_proto 100 (returns None) ?C = Some (Returned None, A')"
    by (simp add: run_sleep_def env(1,2) returns_def)
  with c o B \<open>u_connected (ap_link ?A)\<close> show ?thesis
    by (auto simp: open_and_serve_def env(3))
qed



end
