(* ===== verification/Spec2Isabelle.thy ===== *)
theory Spec2Isabelle
  imports Gesture_Proofs Client_Bond Device_Correct
begin

text \<open>
  Verification development for Cantil, a certificate authority on a small USB or BLE device
  with its host library.

  \<^bold>\<open>The program.\<close>  The firmware (\<open>firmware/src\<close>) keeps CA keys in encrypted files on a littlefs
  volume, issues certificates for the requests of authenticated clients, keeps a registry of
  what it issued and publishes revocation lists.  It has no screen: the user unlocks the
  device, confirms operations and pairs clients by tapping sequences.  Clients talk to it
  over a Noise XX channel; the host library (\<open>libcantil/src\<close>) is the other end of the
  channel.  Both ends share a CBOR codec (\<open>common/cbor\<close>).

  \<^bold>\<open>Conventions.\<close>  A byte is an \<open>8 word\<close>; an \<open>int\<close> return value that is 0 or a negative error is
  \<open>errno option\<close>, and a function with an output parameter returns \<open>errno + 'a\<close>, both in
  \<open>Cantil_Prelude\<close>.  State is passed explicitly.  A function of the source that may run forever
  is an option, with \<open>None\<close> for not returning; loops of that kind are \<open>partial_function\<close>s
  (\<open>rm_rf\<close>, \<open>recv_loop\<close>, \<open>serve_requests\<close>, \<open>skip_items\<close>), so no fuel is chosen; the one numeric
  bound is the number of rounds of \<open>main_loop\<close>, over which the theorem quantifies.
  Out-of-bounds accesses of the source are values of their own (\<open>Wild_copy\<close>, \<open>Open_fault\<close>,
  \<open>Out_of_buffer\<close>), so that the theorems can speak about them.

  \<^bold>\<open>What is a parameter.\<close>  Zephyr's file system (record \<open>fs_api\<close>; its laws are the locales \<open>fs_laws\<close>,
  \<open>fs_reliable\<close> and \<open>fs_roomy\<close>, interpreted on an in-memory volume and, for a volume that loses
  writes at close, on a lossy one), wolfCrypt (\<open>wolfcrypt\<close>, \<open>wolfnoise\<close>, \<open>wolfasn\<close>, locale
  \<open>wc_laws\<close>), libsodium and the host's X.509 library, the operating system below the host's
  serial port (locale \<open>serial_port\<close>), the entropy source (the state \<open>'r\<close>), the generated name
  table, the Kconfig options (\<open>gconf\<close>, \<open>pair_conf\<close>, \<open>bond_caps\<close>, fields of the environments).

  \<^bold>\<open>The theories\<close>, bottom up, with the files that they model:

  \<^item> \<open>Cantil_Prelude\<close>: errors, results, big- and little-endian integers, decimal text.
  \<^item> \<open>Cbor\<close>: \<open>common/cbor/cantil_cbor.c\<close>.  Round trips of requests and responses, safety and
    termination of the decoder without wrapping lengths, and the input on which it loops.
  \<^item> \<open>Der\<close>, \<open>Crl\<close>: \<open>ca/der_write.c\<close> and the CRL encoder of \<open>ca/ca.c\<close>.  The writers produce exactly
    the DER structure (locale \<open>element_writer\<close>), the calendar is exact, times round-trip.
  \<^item> \<open>Fs\<close>, \<open>Volume\<close>, \<open>Crypto\<close>, \<open>Storage\<close>: \<open>storage/storage.c\<close>, \<open>storage/volume_marker.c\<close>,
    \<open>crypto/crypto_wolfssl.c\<close>, \<open>crypto/wc_rand.c\<close>.  The volume marker, mounting without formatting,
    deletion and the secure wipe remove exactly what they should, blobs round-trip.
  \<^item> \<open>Gesture\<close>, \<open>Gesture_Proofs\<close>: \<open>gesture/gesture.c\<close> as a transition system over events.  Its
    invariant, what opens the device, that every request is answered once, lockout.
  \<^item> \<open>Certparse\<close>, \<open>Certgen\<close>, \<open>Ca_Params\<close>, \<open>Issued\<close>, \<open>Ca\<close>, \<open>Ca_Frame\<close>: \<open>ca/certparse_wolfssl.c\<close>,
    \<open>ca/certgen_wolfssl.c\<close> and \<open>ca/ca.c\<close>.  The chain verifier is exactly reachability from the
    anchor; the registry of issued certificates refines a map; a revoked certificate is on the
    next list; no CA operation changes or removes the CA key.
  \<^item> \<open>Client_Bond\<close>, \<open>Noise\<close>, \<open>Session_Slot\<close>, \<open>Session\<close>, \<open>Transport\<close>: \<open>clients/client_bond.c\<close>,
    \<open>session/noise_crypto_wolfssl.c\<close>, \<open>session/session_slot.c\<close>, \<open>session/session.c\<close>,
    \<open>transport/*.c\<close>.
  \<^item> \<open>Host_X509\<close>, \<open>Trust\<close>, \<open>Host_Session\<close>, \<open>Host_Usb\<close>: \<open>x509_openssl.c\<close>, \<open>x509_wolfssl.c\<close>, \<open>trust.c\<close>,
    \<open>session.c\<close>, \<open>transport_usb.c\<close> of the host library.
  \<^item> \<open>Link\<close>, \<open>Host_Link\<close>, \<open>Chain\<close>, \<open>Handshake\<close>, \<open>Secure_Channel\<close>, \<open>Messages\<close>, \<open>Demo_Peers\<close>,
    \<open>Channel_Correct\<close>: the two ends together.  Locales \<open>dev_receiver\<close>, \<open>dev_link\<close> (interpreted on the
    BLE and the USB driver), \<open>host_link\<close>, \<open>noise_peers\<close> and \<open>channel\<close> (interpreted on a concrete
    pair).  The handshake ends with the same keys on both ends, messages arrive in order.
  \<^item> \<open>Names\<close>, \<open>Protocol\<close>: \<open>names/names.c\<close> and the dispatcher \<open>protocol/protocol.c\<close>, whose handlers run on
    the \<open>appliance\<close>, the state of the whole device with the user's future events.
  \<^item> \<open>Waiting\<close>, \<open>Protocol_Frame\<close>, \<open>Protocol_Correct\<close>: waiting for the user, what each command leaves
    alone (collection \<open>hframe\<close>), and that the CA key needs a gesture.
  \<^item> \<open>Pairing\<close>, \<open>Pairing_Correct\<close>: the pairing gate \<open>clients/pairing.c\<close> with its six methods.
  \<^item> \<open>Device_Main\<close>, \<open>Device_Correct\<close>: \<open>main.c\<close>, start and main loop, and the CA key over whole runs.

  The definitions named \<open>demo_\<close> are the concrete inputs of the witnesses.

  \<^bold>\<open>Not modelled.\<close>  The LED animation (\<open>led/led.c\<close>) and the tap drivers (\<open>gesture/tap_*.c\<close>) turn
  samples of the hardware into the events of \<open>Gesture\<close> and its pattern names into light; the
  diagnostic and factory images, the PDM smoke test and the build and release scripts are
  separate programs.  Of the host, the command line (\<open>cli/main.c\<close>), the discovery of ports, the
  key files and the marshalling of single commands (\<open>device.c\<close>, \<open>ca.c\<close>, \<open>clients.c\<close>, \<open>pairing.c\<close>)
  are left out.  Zeroisation of buffers, logging and the heap have no effect in the model.
\<close>

end
